(* ===== verification/Prelude.thy ===== *)
theory Prelude
  imports Main "HOL-Library.Monad_Syntax"
begin

text \<open>
  Shared vocabulary of the development: Go's error values, fixed-width integer conversions,
  the process environment, and the generic lemmas and fact collections that the component
  theories use.

  Conventions. A Go \<open>string\<close> or \<open>[]byte\<close> is a byte sequence and is modelled by
  \<^typ>\<open>string\<close> (an Isabelle \<^typ>\<open>char\<close> is one byte). A nil-able pointer \<open>*T\<close> is
  \<open>T option\<close>. A result pair \<open>(T, error)\<close> is \<open>go_error + T\<close>, and a bare
  \<open>error\<close> is \<open>go_error option\<close>. Code that talks to an external service takes the state
  of the outside world as an argument of type \<open>'w\<close> and returns the new one.
\<close>

section \<open>Fact collections\<close>

named_theorems go_int \<open>fixed-width integer conversions\<close>
named_theorems go_text \<open>strings and strconv\<close>
named_theorems go_json \<open>encoding/json round trips\<close>
named_theorems storage_simps \<open>unfolding of storage operations\<close>

section \<open>Errors\<close>

text \<open>
  The error values that the services create or distinguish. \<open>ErrText\<close> is
  \<open>errors.New\<close>/\<open>fmt.Errorf\<close>; \<open>ResponseError\<close> is \<open>*azcore.ResponseError\<close>
  with its HTTP status, service error code and text; \<open>ErrJson\<close> and \<open>ErrBase64\<close> are the
  decoding errors of the standard library; \<open>ErrExternal\<close> is any other error of a third-party
  package; \<open>InvalidContinuationToken\<close> is the wrapper type of prism-api's storage package.
\<close>

datatype go_error =
    ErrText string
  | ErrConcurrencyConflict
  | ResponseError int string string
  | ErrJson
  | ErrBase64
  | ErrExternal string
  | InvalidContinuationToken "go_error option"

text \<open>The method \<open>Error()\<close>.\<close>

fun error_text :: "go_error \<Rightarrow> string" where
  "error_text (ErrText t) = t"
| "error_text ErrConcurrencyConflict = ''concurrency conflict''"
| "error_text (ResponseError status code t) = t"
| "error_text ErrJson = ''json''"
| "error_text ErrBase64 = ''illegal base64 data''"
| "error_text (ErrExternal t) = t"
| "error_text (InvalidContinuationToken None) = ''invalid continuation token''"
| "error_text (InvalidContinuationToken (Some e)) =
     ''invalid continuation token: '' @ error_text e"

text \<open>\<open>errors.As(err, &respErr)\<close> with \<open>respErr *azcore.ResponseError\<close>: the first
  response error along the chain of \<open>Unwrap\<close>; the result is its status and error code.\<close>

fun as_response_error :: "go_error \<Rightarrow> (int \<times> string) option" where
  "as_response_error (ResponseError status code t) = Some (status, code)"
| "as_response_error (InvalidContinuationToken (Some e)) = as_response_error e"
| "as_response_error _ = None"

definition has_status :: "int \<Rightarrow> go_error \<Rightarrow> bool" where
  "has_status n e = (case as_response_error e of Some (s, _) \<Rightarrow> s = n | None \<Rightarrow> False)"

definition has_code :: "string \<Rightarrow> go_error \<Rightarrow> bool" where
  "has_code c e = (case as_response_error e of Some (_, d) \<Rightarrow> d = c | None \<Rightarrow> False)"

section \<open>Fixed-width integers\<close>

text \<open>
  Go's \<open>int\<close> and \<open>int64\<close> are 64-bit two's complement on the supported targets. Values are
  modelled by \<^typ>\<open>int\<close>; every conversion or operation that can leave the range is written
  with the wrapping function of its width.
\<close>

definition i64 :: "int \<Rightarrow> int" where
  "i64 x = (x + 2 ^ 63) mod 2 ^ 64 - 2 ^ 63"

definition i32 :: "int \<Rightarrow> int" where
  "i32 x = (x + 2 ^ 31) mod 2 ^ 32 - 2 ^ 31"

definition in_i64 :: "int \<Rightarrow> bool" where
  "in_i64 x \<longleftrightarrow> - (2 ^ 63) \<le> x \<and> x < 2 ^ 63"

definition in_i32 :: "int \<Rightarrow> bool" where
  "in_i32 x \<longleftrightarrow> - (2 ^ 31) \<le> x \<and> x < 2 ^ 31"

lemma i64_in_range [go_int, simp]: "in_i64 (i64 x)"
proof -
  have "0 \<le> (x + 2 ^ 63) mod 2 ^ 64" and "(x + 2 ^ 63) mod 2 ^ 64 < (2 :: int) ^ 64"
    by simp_all
  then show ?thesis by (simp add: in_i64_def i64_def)
qed

lemma i32_in_range [go_int, simp]: "in_i32 (i32 x)"
proof -
  have "0 \<le> (x + 2 ^ 31) mod 2 ^ 32" and "(x + 2 ^ 31) mod 2 ^ 32 < (2 :: int) ^ 32"
    by simp_all
  then show ?thesis by (simp add: in_i32_def i32_def)
qed

lemma i64_id [go_int]: "in_i64 x \<Longrightarrow> i64 x = x"
  by (simp add: i64_def in_i64_def)

lemma i32_id [go_int]: "in_i32 x \<Longrightarrow> i32 x = x"
  by (simp add: i32_def in_i32_def)

section \<open>The process environment\<close>

text \<open>\<open>os.LookupEnv\<close> is a partial map; \<open>os.Getenv\<close> reads a missing variable as the
  empty string.\<close>

type_synonym environ = "string \<Rightarrow> string option"

definition getenv :: "environ \<Rightarrow> string \<Rightarrow> string" where
  "getenv env k = (case env k of None \<Rightarrow> '''' | Some v \<Rightarrow> v)"

section \<open>Generic lemmas\<close>

lemma map_of_filter_keys:
  "P k \<Longrightarrow> map_of [kv \<leftarrow> kvs. P (fst kv)] k = map_of kvs k"
  by (induction kvs) auto

lemma map_add_subsumed_dom: "dom p \<subseteq> dom q \<Longrightarrow> p ++ q = q"
  by (auto simp: map_add_def fun_eq_iff split: option.splits)

lemma filter_all_id: "(\<And>x. x \<in> set xs \<Longrightarrow> P x) \<Longrightarrow> filter P xs = xs"
  by (induction xs) auto

lemma takeWhile_append_stop:
  "(\<And>x. x \<in> set xs \<Longrightarrow> P x) \<Longrightarrow> (ys = [] \<or> \<not> P (hd ys)) \<Longrightarrow> takeWhile P (xs @ ys) = xs"
  by (induction xs) (auto, cases ys, auto)

lemma dropWhile_append_stop:
  "(\<And>x. x \<in> set xs \<Longrightarrow> P x) \<Longrightarrow> (ys = [] \<or> \<not> P (hd ys)) \<Longrightarrow> dropWhile P (xs @ ys) = ys"
  by (induction xs) (auto, cases ys, auto)

end
