(* ===== verification/Go_Text.thy ===== *)
theory Go_Text
  imports Prelude
begin

text \<open>
  The parts of Go's packages \<open>strings\<close> and \<open>strconv\<close> that the services call:
  splitting, trimming, case folding of ASCII text, decimal parsing and formatting in an
  arbitrary base. The main facts are that \<open>ParseInt\<close> reads back what \<open>FormatInt\<close>
  writes in base 10, and that \<open>FormatInt\<close> is injective in every base up to 36.
\<close>

abbreviation byte :: "char \<Rightarrow> nat" where
  "byte c \<equiv> of_char c"

section \<open>Package strings\<close>

text \<open>\<open>strings.SplitN(s, sep, 2)\<close> for a one-byte separator.\<close>

fun split_n2 :: "char \<Rightarrow> string \<Rightarrow> string list" where
  "split_n2 sep [] = [[]]"
| "split_n2 sep (c # s) =
     (if c = sep then [[], s]
      else (case split_n2 sep s of
              [h, t] \<Rightarrow> [c # h, t]
            | [h] \<Rightarrow> [c # h]
            | xs \<Rightarrow> xs))"

text \<open>\<open>strings.Split(s, sep)\<close> for a one-byte separator.\<close>

fun split_all :: "char \<Rightarrow> string \<Rightarrow> string list" where
  "split_all sep [] = [[]]"
| "split_all sep (c # s) =
     (if c = sep then [] # split_all sep s
      else (case split_all sep s of
              h # t \<Rightarrow> (c # h) # t
            | [] \<Rightarrow> [[c]]))"

lemma split_all_nonempty [simp]: "split_all sep s \<noteq> []"
  by (induction s) (auto split: list.splits)

lemma split_n2_cases:
  "split_n2 sep s = (if sep \<in> set s then [takeWhile (\<lambda>c. c \<noteq> sep) s, tl (dropWhile (\<lambda>c. c \<noteq> sep) s)]
                     else [s])"
  by (induction s) auto

lemma split_n2_two [go_text]:
  "sep \<notin> set h \<Longrightarrow> split_n2 sep (h @ sep # t) = [h, t]"
  by (induction h) auto

lemma split_n2_length: "length (split_n2 sep s) = (if sep \<in> set s then 2 else 1)"
  by (simp add: split_n2_cases)

text \<open>\<open>strings.ToLower\<close> and the folding used by \<open>encoding/json\<close>, on ASCII letters.\<close>

definition lower_char :: "char \<Rightarrow> char" where
  "lower_char c = (if 65 \<le> byte c \<and> byte c \<le> 90 then char_of (byte c + 32) else c)"

definition to_lower :: "string \<Rightarrow> string" where
  "to_lower s = map lower_char s"

definition upper_char :: "char \<Rightarrow> char" where
  "upper_char c = (if 97 \<le> byte c \<and> byte c \<le> 122 then char_of (byte c - 32) else c)"

text \<open>
  \<open>strings.TrimSpace\<close> removes the runes with the Unicode property White\_Space from both
  ends; these are their UTF-8 encodings.
\<close>

definition space_runes :: "string list" where
  "space_runes =
     [[CHR 0x09], [CHR 0x0A], [CHR 0x0B], [CHR 0x0C], [CHR 0x0D], [CHR 0x20],
      [CHR 0xC2, CHR 0x85], [CHR 0xC2, CHR 0xA0], [CHR 0xE1, CHR 0x9A, CHR 0x80],
      [CHR 0xE2, CHR 0x80, CHR 0x80], [CHR 0xE2, CHR 0x80, CHR 0x81],
      [CHR 0xE2, CHR 0x80, CHR 0x82], [CHR 0xE2, CHR 0x80, CHR 0x83],
      [CHR 0xE2, CHR 0x80, CHR 0x84], [CHR 0xE2, CHR 0x80, CHR 0x85],
      [CHR 0xE2, CHR 0x80, CHR 0x86], [CHR 0xE2, CHR 0x80, CHR 0x87],
      [CHR 0xE2, CHR 0x80, CHR 0x88], [CHR 0xE2, CHR 0x80, CHR 0x89],
      [CHR 0xE2, CHR 0x80, CHR 0x8A], [CHR 0xE2, CHR 0x80, CHR 0xA8],
      [CHR 0xE2, CHR 0x80, CHR 0xA9], [CHR 0xE2, CHR 0x80, CHR 0xAF],
      [CHR 0xE2, CHR 0x81, CHR 0x9F], [CHR 0xE3, CHR 0x80, CHR 0x80]]"

fun has_prefix :: "string \<Rightarrow> string \<Rightarrow> bool" where
  "has_prefix [] s = True"
| "has_prefix (p # ps) [] = False"
| "has_prefix (p # ps) (c # s) = (p = c \<and> has_prefix ps s)"

lemma has_prefix_iff [go_text]: "has_prefix p s \<longleftrightarrow> (\<exists>t. s = p @ t)"
  by (induction p s rule: has_prefix.induct) auto

fun trim_front :: "nat \<Rightarrow> string list \<Rightarrow> string \<Rightarrow> string" where
  "trim_front 0 ps s = s"
| "trim_front (Suc n) ps s =
     (case find (\<lambda>p. has_prefix p s) ps of
        None \<Rightarrow> s
      | Some p \<Rightarrow> trim_front n ps (drop (length p) s))"

definition trim_space :: "string \<Rightarrow> string" where
  "trim_space s =
     (let l = trim_front (length s) space_runes s
      in rev (trim_front (length l) (map rev space_runes) (rev l)))"

section \<open>Package strconv\<close>

subsection \<open>Positional digits\<close>

function digits_of :: "int \<Rightarrow> int \<Rightarrow> int list" where
  "digits_of b n = (if b \<le> 1 \<or> n < b then [n] else digits_of b (n div b) @ [n mod b])"
  by pat_completeness auto
termination
proof (relation "measure (\<lambda>(b, n). nat n)")
  fix b n :: int
  assume "\<not> (b \<le> 1 \<or> n < b)"
  then have "n div b < n" and "0 < n" by (auto intro: int_div_less_self)
  then show "((b, n div b), (b, n)) \<in> measure (\<lambda>(b, n). nat n)" by simp
qed simp

declare digits_of.simps [simp del]

definition digits_val :: "int \<Rightarrow> int list \<Rightarrow> int" where
  "digits_val b ds = foldl (\<lambda>a d. a * b + d) 0 ds"

lemma digits_val_snoc: "digits_val b (ds @ [d]) = digits_val b ds * b + d"
  by (simp add: digits_val_def)

lemma digits_val_digits_of [simp]:
  assumes "2 \<le> b"
  shows "digits_val b (digits_of b n) = n"
  using assms
proof (induction b n rule: digits_of.induct)
  case (1 b n)
  show ?case
  proof (cases "n < b")
    case True
    then show ?thesis by (simp add: digits_of.simps [of b n] digits_val_def)
  next
    case False
    with 1 have "digits_val b (digits_of b (n div b)) = n div b" by simp
    with False 1(2) show ?thesis
      by (simp add: digits_of.simps [of b n] digits_val_snoc)
  qed
qed

lemma digits_of_bound: "2 \<le> b \<Longrightarrow> 0 \<le> n \<Longrightarrow> d \<in> set (digits_of b n) \<Longrightarrow> 0 \<le> d \<and> d < b"
proof (induction b n rule: digits_of.induct)
  case (1 b n)
  then have "0 \<le> n div b" by (simp add: pos_imp_zdiv_nonneg_iff)
  with 1 show ?case
    by (cases "n < b") (auto simp: digits_of.simps [of b n])
qed

lemma digits_of_nonempty [simp]: "digits_of b n \<noteq> []"
  by (subst digits_of.simps) simp

lemma digits_of_hd_pos: "2 \<le> b \<Longrightarrow> 0 < n \<Longrightarrow> 0 < hd (digits_of b n)"
proof (induction b n rule: digits_of.induct)
  case (1 b n)
  show ?case
  proof (cases "n < b")
    case True
    with 1 show ?thesis by (simp add: digits_of.simps [of b n])
  next
    case False
    with 1 have "0 < n div b" by (simp add: pos_imp_zdiv_pos_iff)
    with 1 False show ?thesis by (simp add: digits_of.simps [of b n])
  qed
qed

lemma digits_of_zero: "2 \<le> b \<Longrightarrow> digits_of b 0 = [0]"
  by (simp add: digits_of.simps)

subsection \<open>FormatInt\<close>

definition digit_char :: "int \<Rightarrow> char" where
  "digit_char d = char_of (if d < 10 then 48 + nat d else 87 + nat d)"

definition format_int :: "int \<Rightarrow> int \<Rightarrow> string" where
  "format_int b i =
     (if i < 0 then CHR ''-'' # map digit_char (digits_of b (- i))
      else map digit_char (digits_of b i))"

abbreviation itoa :: "int \<Rightarrow> string" where
  "itoa i \<equiv> format_int 10 i"

lemma byte_digit_char:
  "0 \<le> d \<Longrightarrow> d < 36 \<Longrightarrow> byte (digit_char d) = (if d < 10 then 48 + nat d else 87 + nat d)"
  by (simp add: digit_char_def)

lemma digit_char_inj:
  "0 \<le> d \<Longrightarrow> d < 36 \<Longrightarrow> 0 \<le> e \<Longrightarrow> e < 36 \<Longrightarrow> digit_char d = digit_char e \<Longrightarrow> d = e"
  by (drule arg_cong [where f = byte]) (auto simp: byte_digit_char split: if_splits)

lemma digit_char_not_minus: "0 \<le> d \<Longrightarrow> d < 36 \<Longrightarrow> digit_char d \<noteq> CHR ''-''"
  using byte_digit_char [of d] by (auto split: if_splits)

lemma map_digit_char_inj:
  "(\<And>d. d \<in> set xs \<Longrightarrow> 0 \<le> d \<and> d < 36) \<Longrightarrow> (\<And>d. d \<in> set ys \<Longrightarrow> 0 \<le> d \<and> d < 36) \<Longrightarrow>
   map digit_char xs = map digit_char ys \<Longrightarrow> xs = ys"
  by (rule map_inj_on [of digit_char xs ys])
    (auto intro!: inj_onI intro: digit_char_inj)

lemma digits_of_inj: "2 \<le> b \<Longrightarrow> digits_of b m = digits_of b n \<Longrightarrow> m = n"
  by (metis digits_val_digits_of)

lemma format_nat_inj:
  assumes b: "2 \<le> b" "b \<le> 36" and pos: "0 \<le> m" "0 \<le> n"
    and eq: "map digit_char (digits_of b m) = map digit_char (digits_of b n)"
  shows "m = n"
proof -
  have "digits_of b m = digits_of b n"
    by (rule map_digit_char_inj [OF _ _ eq]) (use b pos digits_of_bound in fastforce)+
  with b show ?thesis by (simp add: digits_of_inj)
qed

lemma format_hd_not_minus:
  assumes "2 \<le> b" "b \<le> 36" "0 \<le> n"
  shows "hd (map digit_char (digits_of b n)) \<noteq> CHR ''-''"
proof -
  have "hd (digits_of b n) \<in> set (digits_of b n)" by simp
  then have "0 \<le> hd (digits_of b n) \<and> hd (digits_of b n) < 36"
    using assms digits_of_bound by fastforce
  then show ?thesis by (simp add: hd_map digit_char_not_minus)
qed

lemma format_int_inj:
  assumes b: "2 \<le> b" "b \<le> 36" and eq: "format_int b i = format_int b j"
  shows "i = j"
proof -
  have neg: "CHR ''-'' # xs \<noteq> map digit_char (digits_of b n)" if "0 \<le> n" for xs n
    using format_hd_not_minus [OF b that] by (metis list.sel(1))
  consider "i < 0" "j < 0" | "0 \<le> i" "0 \<le> j" | "i < 0" "0 \<le> j" | "0 \<le> i" "j < 0"
    by linarith
  then show ?thesis
  proof cases
    case 1
    with eq have "- i = - j"
      using format_nat_inj [OF b, of "- i" "- j"] by (simp add: format_int_def)
    then show ?thesis by simp
  next
    case 2
    with eq show ?thesis
      using format_nat_inj [OF b, of i j] by (simp add: format_int_def)
  next
    case 3
    with eq neg [of j] show ?thesis by (simp add: format_int_def)
  next
    case 4
    with eq neg [of i, THEN not_sym] show ?thesis by (simp add: format_int_def)
  qed
qed

lemma format_int_nonempty [simp]: "format_int b i \<noteq> []"
  by (simp add: format_int_def)

subsection \<open>ParseInt in base 10\<close>

definition is_digit :: "char \<Rightarrow> bool" where
  "is_digit c \<longleftrightarrow> 48 \<le> byte c \<and> byte c \<le> 57"

definition parse_digits :: "string \<Rightarrow> int option" where
  "parse_digits s =
     (if s = [] \<or> (\<exists>c \<in> set s. \<not> is_digit c) then None
      else Some (digits_val 10 (map (\<lambda>c. int (byte c) - 48) s)))"

text \<open>\<open>strconv.ParseInt(s, 10, 64)\<close> and \<open>strconv.Atoi(s)\<close>: an optional sign, at least one
  digit, and a value that fits; \<open>None\<close> is a syntax or range error.\<close>

definition parse_int :: "string \<Rightarrow> int option" where
  "parse_int s =
     (case s of
        [] \<Rightarrow> None
      | c # r \<Rightarrow>
          (if c = CHR ''-'' then
             (case parse_digits r of
                None \<Rightarrow> None
              | Some n \<Rightarrow> if n > 2 ^ 63 then None else Some (- n))
           else
             (case parse_digits (if c = CHR ''+'' then r else s) of
                None \<Rightarrow> None
              | Some n \<Rightarrow> if n \<ge> 2 ^ 63 then None else Some n)))"

lemma digits_val_nonneg: "(\<And>d. d \<in> set ds \<Longrightarrow> 0 \<le> d) \<Longrightarrow> 0 \<le> digits_val 10 ds"
  by (induction ds rule: rev_induct) (auto simp: digits_val_snoc digits_val_def)

lemma parse_digits_nonneg:
  assumes "parse_digits s = Some n"
  shows "0 \<le> n"
proof -
  have "48 \<le> byte c" if "c \<in> set s" for c
    using assms that by (auto simp: parse_digits_def is_digit_def split: if_splits)
  then have "0 \<le> digits_val 10 (map (\<lambda>c. int (byte c) - 48) s)"
    by (intro digits_val_nonneg) fastforce
  with assms show ?thesis by (simp add: parse_digits_def split: if_splits)
qed

lemma parse_int_range:
  assumes "parse_int s = Some i"
  shows "in_i64 i"
  using assms
  by (auto simp: parse_int_def in_i64_def split: list.splits if_splits option.splits
      dest!: parse_digits_nonneg)

lemma digit_char_digit: "0 \<le> d \<Longrightarrow> d < 10 \<Longrightarrow> is_digit (digit_char d)"
  by (simp add: is_digit_def byte_digit_char nat_le_iff le_nat_iff)

lemma digits10_bound: "0 \<le> n \<Longrightarrow> d \<in> set (digits_of 10 n) \<Longrightarrow> 0 \<le> d \<and> d < 10"
  using digits_of_bound [of 10] by simp

lemma digits10_chars: "0 \<le> n \<Longrightarrow> c \<in> set (map digit_char (digits_of 10 n)) \<Longrightarrow> is_digit c"
  using digits10_bound digit_char_digit by auto

lemma parse_digits_format:
  assumes "0 \<le> n"
  shows "parse_digits (map digit_char (digits_of 10 n)) = Some n"
proof -
  have "map ((\<lambda>c. int (byte c) - 48) \<circ> digit_char) (digits_of 10 n) = digits_of 10 n"
    by (rule map_idI) (use digits10_bound [OF assms] in \<open>fastforce simp: byte_digit_char\<close>)
  moreover have "\<forall>c \<in> set (map digit_char (digits_of 10 n)). is_digit c"
    using digits10_chars [OF assms] by blast
  ultimately show ?thesis
    by (auto simp: parse_digits_def)
qed

lemma itoa_hd_digit: "0 \<le> n \<Longrightarrow> is_digit (hd (map digit_char (digits_of 10 n)))"
  by (rule digits10_chars [of n], assumption, rule hd_in_set) simp

theorem parse_int_itoa [go_text, simp]:
  assumes "in_i64 i"
  shows "parse_int (itoa i) = Some i"
proof (cases "i < 0")
  case True
  with assms show ?thesis
    by (auto simp: parse_int_def format_int_def parse_digits_format in_i64_def)
next
  case False
  let ?s = "map digit_char (digits_of 10 i)"
  obtain c r where s: "?s = c # r" by (cases ?s) auto
  have "is_digit c" using itoa_hd_digit [of i] s False by simp
  then have "c \<noteq> CHR ''-''" and "c \<noteq> CHR ''+''"
    by (auto simp: is_digit_def)
  moreover have "parse_digits (c # r) = Some i"
    using parse_digits_format [of i] s False by simp
  moreover have "itoa i = c # r" using False s by (simp add: format_int_def)
  moreover have "\<not> 2 ^ 63 \<le> i" using assms by (simp add: in_i64_def)
  ultimately show ?thesis by (simp add: parse_int_def)
qed

end
