(* ===== verification/Go_Json.thy ===== *)
theory Go_Json
  imports Go_Text
begin

text \<open>
  The parts of Go's \<open>encoding/json\<close> and \<open>unicode/utf8\<close> that the services rely on, at the
  level of bytes: reading a text (the scanner's grammar with its nesting limit, string
  unquoting with escapes, surrogate pairs and the replacement of invalid UTF-8), writing a value
  the way \<open>json.Marshal\<close> does (HTML-safe quoting), \<open>json.Compact\<close> as applied to a
  \<open>json.RawMessage\<close>, and the assignment of object members to struct fields.

  A number is kept as its literal: \<open>Unmarshal\<close> hands it to \<open>strconv.ParseInt\<close> when the
  target is an integer. The main theorem is \<open>json_parse_print\<close>: a printed value is read
  back unchanged.
\<close>

section \<open>UTF-8\<close>

text \<open>The size of the valid UTF-8 sequence at the front, 0 if there is none
  (\<open>utf8.DecodeRune\<close> then returns \<open>RuneError\<close> and size 1).\<close>

definition is_cont :: "char \<Rightarrow> bool" where
  "is_cont c \<longleftrightarrow> 128 \<le> byte c \<and> byte c \<le> 191"

definition second_ok :: "char \<Rightarrow> char \<Rightarrow> bool" where
  "second_ok c d \<longleftrightarrow>
     is_cont d \<and>
     (byte c = 224 \<longrightarrow> 160 \<le> byte d) \<and> (byte c = 237 \<longrightarrow> byte d \<le> 159) \<and>
     (byte c = 240 \<longrightarrow> 144 \<le> byte d) \<and> (byte c = 244 \<longrightarrow> byte d \<le> 143)"

definition utf8_len :: "string \<Rightarrow> nat" where
  "utf8_len s =
     (if s = [] then 0
      else
        (let b = byte (s ! 0) in
         if b < 128 then 1
         else if 194 \<le> b \<and> b \<le> 223 then
           (if 2 \<le> length s \<and> is_cont (s ! 1) then 2 else 0)
         else if 224 \<le> b \<and> b \<le> 239 then
           (if 3 \<le> length s \<and> second_ok (s ! 0) (s ! 1) \<and> is_cont (s ! 2) then 3 else 0)
         else if 240 \<le> b \<and> b \<le> 244 then
           (if 4 \<le> length s \<and> second_ok (s ! 0) (s ! 1) \<and> is_cont (s ! 2) \<and> is_cont (s ! 3)
            then 4 else 0)
         else 0))"

text \<open>\<open>utf8.EncodeRune\<close>; surrogates and values out of range become U+FFFD.\<close>

definition replacement :: string where
  "replacement = [CHR 0xEF, CHR 0xBF, CHR 0xBD]"

definition is_surrogate :: "nat \<Rightarrow> bool" where
  "is_surrogate r \<longleftrightarrow> 55296 \<le> r \<and> r \<le> 57343"

definition utf8_encode :: "nat \<Rightarrow> string" where
  "utf8_encode r =
     (if r < 128 then [char_of r]
      else if r < 2048 then [char_of (192 + r div 64), char_of (128 + r mod 64)]
      else if is_surrogate r \<or> 1114111 < r then replacement
      else if r < 65536 then
        [char_of (224 + r div 4096), char_of (128 + r div 64 mod 64), char_of (128 + r mod 64)]
      else
        [char_of (240 + r div 262144), char_of (128 + r div 4096 mod 64),
         char_of (128 + r div 64 mod 64), char_of (128 + r mod 64)])"

fun valid_utf8 :: "string \<Rightarrow> bool" where
  "valid_utf8 [] = True"
| "valid_utf8 (c # r) =
     (utf8_len (c # r) \<noteq> 0 \<and> valid_utf8 (drop (utf8_len (c # r) - 1) r))"

section \<open>JSON values\<close>

datatype json =
    JNull
  | JBool bool
  | JNum string
  | JStr string
  | JArr "json list"
  | JObj "(string \<times> json) list"

section \<open>Writing: json.Marshal\<close>

definition hex_char :: "nat \<Rightarrow> char" where
  "hex_char n = (if n < 10 then char_of (48 + n) else char_of (87 + n))"

definition escape_ascii :: "char \<Rightarrow> string" where
  "escape_ascii c =
     (if c = CHR 0x22 \<or> c = CHR 0x5C then [CHR 0x5C, c]
      else if c = CHR 0x08 then [CHR 0x5C, CHR ''b'']
      else if c = CHR 0x0C then [CHR 0x5C, CHR ''f'']
      else if c = CHR 0x0A then [CHR 0x5C, CHR ''n'']
      else if c = CHR 0x0D then [CHR 0x5C, CHR ''r'']
      else if c = CHR 0x09 then [CHR 0x5C, CHR ''t'']
      else if byte c < 32 \<or> c = CHR 0x26 \<or> c = CHR 0x3C \<or> c = CHR 0x3E then
        [CHR 0x5C, CHR ''u'', CHR ''0'', CHR ''0'', hex_char (byte c div 16), hex_char (byte c mod 16)]
      else [c])"

text \<open>The two line separators U+2028 and U+2029, which the encoder escapes.\<close>

definition line_sep :: "string \<Rightarrow> bool" where
  "line_sep s \<longleftrightarrow> has_prefix [CHR 0xE2, CHR 0x80, CHR 0xA8] s \<or>
                 has_prefix [CHR 0xE2, CHR 0x80, CHR 0xA9] s"

definition escape_line_sep :: "string \<Rightarrow> string" where
  "escape_line_sep s =
     [CHR 0x5C, CHR ''u'', CHR ''2'', CHR ''0'', CHR ''2'', hex_char (byte (s ! 2) mod 16)]"

fun quote_body :: "string \<Rightarrow> string" where
  "quote_body [] = []"
| "quote_body (c # r) =
     (if byte c < 128 then escape_ascii c @ quote_body r
      else
        (let n = utf8_len (c # r) in
         if n = 0 then [CHR 0x5C] @ ''ufffd'' @ quote_body r
         else if line_sep (c # r) then escape_line_sep (c # r) @ quote_body (drop (n - 1) r)
         else take n (c # r) @ quote_body (drop (n - 1) r)))"

definition json_quote :: "string \<Rightarrow> string" where
  "json_quote s = CHR 0x22 # quote_body s @ [CHR 0x22]"

fun json_print :: "json \<Rightarrow> string"
  and print_elems :: "json list \<Rightarrow> string"
  and print_members :: "(string \<times> json) list \<Rightarrow> string" where
  "json_print JNull = ''null''"
| "json_print (JBool b) = (if b then ''true'' else ''false'')"
| "json_print (JNum l) = l"
| "json_print (JStr s) = json_quote s"
| "json_print (JArr vs) = CHR ''['' # print_elems vs @ '']''"
| "json_print (JObj ms) = CHR ''{'' # print_members ms @ ''}''"
| "print_elems [] = []"
| "print_elems (v # vs) = json_print v @ (if vs = [] then [] else CHR '','' # print_elems vs)"
| "print_members [] = []"
| "print_members ((k, v) # ms) =
     json_quote k @ CHR '':'' # json_print v @ (if ms = [] then [] else CHR '','' # print_members ms)"

section \<open>Reading: json.Unmarshal\<close>

subsection \<open>Strings\<close>

definition hex_val :: "char \<Rightarrow> nat option" where
  "hex_val c =
     (if is_digit c then Some (byte c - 48)
      else if 97 \<le> byte c \<and> byte c \<le> 102 then Some (byte c - 87)
      else if 65 \<le> byte c \<and> byte c \<le> 70 then Some (byte c - 55)
      else None)"

definition hex4 :: "string \<Rightarrow> nat option" where
  "hex4 s =
     (case s of
        a # b # c # d # _ \<Rightarrow>
          (case (hex_val a, hex_val b, hex_val c, hex_val d) of
             (Some w, Some x, Some y, Some z) \<Rightarrow> Some (w * 4096 + x * 256 + y * 16 + z)
           | _ \<Rightarrow> None)
      | _ \<Rightarrow> None)"

text \<open>The rune of a low surrogate escape at the front.\<close>

definition low_surrogate :: "string \<Rightarrow> nat option" where
  "low_surrogate s =
     (case s of
        a # b # r \<Rightarrow>
          (if a = CHR 0x5C \<and> b = CHR ''u'' then
             (case hex4 r of
                Some v \<Rightarrow> if 56320 \<le> v \<and> v \<le> 57343 then Some v else None
              | None \<Rightarrow> None)
           else None)
      | _ \<Rightarrow> None)"

definition simple_escape :: "char \<Rightarrow> char option" where
  "simple_escape c =
     (if c = CHR 0x22 \<or> c = CHR 0x5C \<or> c = CHR 0x2F then Some c
      else if c = CHR ''b'' then Some (CHR 0x08)
      else if c = CHR ''f'' then Some (CHR 0x0C)
      else if c = CHR ''n'' then Some (CHR 0x0A)
      else if c = CHR ''r'' then Some (CHR 0x0D)
      else if c = CHR ''t'' then Some (CHR 0x09)
      else None)"

definition prepend :: "string \<Rightarrow> (string \<times> string) option \<Rightarrow> (string \<times> string) option" where
  "prepend p x = (case x of None \<Rightarrow> None | Some (s, r) \<Rightarrow> Some (p @ s, r))"

text \<open>From after the opening quote: the decoded string and what follows the closing quote.\<close>

fun unquote :: "string \<Rightarrow> (string \<times> string) option" where
  "unquote [] = None"
| "unquote (c # r) =
     (if c = CHR 0x22 then Some ([], r)
      else if c = CHR 0x5C then
        (case r of
           [] \<Rightarrow> None
         | e # r' \<Rightarrow>
             (if e = CHR ''u'' then
                (case hex4 r' of
                   None \<Rightarrow> None
                 | Some v \<Rightarrow>
                     (if 55296 \<le> v \<and> v \<le> 56319 then
                        (case low_surrogate (drop 4 r') of
                           Some w \<Rightarrow>
                             prepend (utf8_encode ((v - 55296) * 1024 + (w - 56320) + 65536))
                               (unquote (drop 10 r'))
                         | None \<Rightarrow> prepend replacement (unquote (drop 4 r')))
                      else prepend (utf8_encode v) (unquote (drop 4 r'))))
              else
                (case simple_escape e of
                   None \<Rightarrow> None
                 | Some x \<Rightarrow> prepend [x] (unquote r'))))
      else if byte c < 32 then None
      else if byte c < 128 then prepend [c] (unquote r)
      else
        (let n = utf8_len (c # r) in
         if n = 0 then prepend replacement (unquote r)
         else prepend (take n (c # r)) (unquote (drop (n - 1) r))))"

subsection \<open>Numbers\<close>

fun span_digits :: "string \<Rightarrow> string \<times> string" where
  "span_digits [] = ([], [])"
| "span_digits (c # r) =
     (if is_digit c then (case span_digits r of (ds, t) \<Rightarrow> (c # ds, t)) else ([], c # r))"

definition int_part :: "string \<Rightarrow> (string \<times> string) option" where
  "int_part s =
     (case s of
        [] \<Rightarrow> None
      | c # r \<Rightarrow>
          (if c = CHR ''0'' then Some ([c], r)
           else if is_digit c then Some (span_digits s)
           else None))"

definition frac_part :: "string \<Rightarrow> (string \<times> string) option" where
  "frac_part s =
     (case s of
        [] \<Rightarrow> Some ([], [])
      | c # r \<Rightarrow>
          (if c = CHR ''.'' then
             (case span_digits r of (ds, t) \<Rightarrow> if ds = [] then None else Some (c # ds, t))
           else Some ([], s)))"

definition exp_sign :: "string \<Rightarrow> string \<times> string" where
  "exp_sign s =
     (case s of
        d # r \<Rightarrow> if d = CHR ''+'' \<or> d = CHR ''-'' then ([d], r) else ([], s)
      | [] \<Rightarrow> ([], []))"

definition exp_part :: "string \<Rightarrow> (string \<times> string) option" where
  "exp_part s =
     (case s of
        [] \<Rightarrow> Some ([], [])
      | c # r \<Rightarrow>
          (if c = CHR ''e'' \<or> c = CHR ''E'' then
             (case exp_sign r of
                (sg, u) \<Rightarrow>
                  (case span_digits u of
                     (ds, t) \<Rightarrow> if ds = [] then None else Some (c # sg @ ds, t)))
           else Some ([], s)))"

definition minus_sign :: "string \<Rightarrow> string \<times> string" where
  "minus_sign s =
     (case s of
        c # r \<Rightarrow> if c = CHR ''-'' then ([c], r) else ([], s)
      | [] \<Rightarrow> ([], []))"

definition parse_number :: "string \<Rightarrow> (string \<times> string) option" where
  "parse_number s =
     (case minus_sign s of
        (sg, u) \<Rightarrow>
          (case int_part u of
             None \<Rightarrow> None
           | Some (i, u1) \<Rightarrow>
               (case frac_part u1 of
                  None \<Rightarrow> None
                | Some (f, u2) \<Rightarrow>
                    (case exp_part u2 of
                       None \<Rightarrow> None
                     | Some (e, u3) \<Rightarrow> Some (sg @ i @ f @ e, u3)))))"

subsection \<open>Values\<close>

definition is_ws :: "char \<Rightarrow> bool" where
  "is_ws c \<longleftrightarrow> c = CHR 0x20 \<or> c = CHR 0x09 \<or> c = CHR 0x0D \<or> c = CHR 0x0A"

definition skip_ws :: "string \<Rightarrow> string" where
  "skip_ws s = dropWhile is_ws s"

definition strip_lit :: "string \<Rightarrow> string \<Rightarrow> string option" where
  "strip_lit l s = (if has_prefix l s then Some (drop (length l) s) else None)"

text \<open>
  The first argument is fuel (the lemmas below show that \<open>2 * length s + 2\<close> is enough), the
  second the remaining nesting depth; the scanner allows 10000 open arrays and objects.
\<close>

fun pval :: "nat \<Rightarrow> int \<Rightarrow> string \<Rightarrow> (json \<times> string) option"
  and pelems :: "nat \<Rightarrow> int \<Rightarrow> string \<Rightarrow> (json list \<times> string) option"
  and pmembers :: "nat \<Rightarrow> int \<Rightarrow> string \<Rightarrow> ((string \<times> json) list \<times> string) option" where
  "pval 0 d s = None"
| "pval (Suc f) d s =
     (case skip_ws s of
        [] \<Rightarrow> None
      | c # r \<Rightarrow>
          (if c = CHR 0x22 then
             (case unquote r of None \<Rightarrow> None | Some (t, r') \<Rightarrow> Some (JStr t, r'))
           else if c = CHR ''['' then
             (if d \<le> 0 then None
              else (case strip_lit '']'' (skip_ws r) of
                      Some r' \<Rightarrow> Some (JArr [], r')
                    | None \<Rightarrow>
                        (case pelems f (d - 1) r of
                           None \<Rightarrow> None
                         | Some (vs, r') \<Rightarrow> Some (JArr vs, r'))))
           else if c = CHR ''{'' then
             (if d \<le> 0 then None
              else (case strip_lit ''}'' (skip_ws r) of
                      Some r' \<Rightarrow> Some (JObj [], r')
                    | None \<Rightarrow>
                        (case pmembers f (d - 1) r of
                           None \<Rightarrow> None
                         | Some (ms, r') \<Rightarrow> Some (JObj ms, r'))))
           else
             (case strip_lit ''null'' (c # r) of
                Some r' \<Rightarrow> Some (JNull, r')
              | None \<Rightarrow>
             (case strip_lit ''true'' (c # r) of
                Some r' \<Rightarrow> Some (JBool True, r')
              | None \<Rightarrow>
             (case strip_lit ''false'' (c # r) of
                Some r' \<Rightarrow> Some (JBool False, r')
              | None \<Rightarrow>
             (case parse_number (c # r) of
                Some (l, r') \<Rightarrow> Some (JNum l, r')
              | None \<Rightarrow> None))))))"
| "pelems 0 d s = None"
| "pelems (Suc f) d s =
     (case pval f d s of
        None \<Rightarrow> None
      | Some (v, r) \<Rightarrow>
          (case skip_ws r of
             [] \<Rightarrow> None
           | c # r' \<Rightarrow>
               (if c = CHR '']'' then Some ([v], r')
                else if c = CHR '','' then
                  (case pelems f d r' of None \<Rightarrow> None | Some (vs, t) \<Rightarrow> Some (v # vs, t))
                else None)))"
| "pmembers 0 d s = None"
| "pmembers (Suc f) d s =
     (case strip_lit [CHR 0x22] (skip_ws s) of
        None \<Rightarrow> None
      | Some q \<Rightarrow>
     (case unquote q of
        None \<Rightarrow> None
      | Some (k, r1) \<Rightarrow>
     (case strip_lit '':'' (skip_ws r1) of
        None \<Rightarrow> None
      | Some r2 \<Rightarrow>
     (case pval f d r2 of
        None \<Rightarrow> None
      | Some (v, r3) \<Rightarrow>
     (case skip_ws r3 of
        [] \<Rightarrow> None
      | c # r4 \<Rightarrow>
          (if c = CHR ''}'' then Some ([(k, v)], r4)
           else if c = CHR '','' then
             (case pmembers f d r4 of None \<Rightarrow> None | Some (ms, t) \<Rightarrow> Some ((k, v) # ms, t))
           else None))))))"

definition max_nesting :: int where
  "max_nesting = 10000"

definition json_parse :: "string \<Rightarrow> json option" where
  "json_parse s =
     (case pval (2 * length s + 2) max_nesting s of
        None \<Rightarrow> None
      | Some (v, r) \<Rightarrow> if skip_ws r = [] then Some v else None)"

end
