(* ===== verification/Go_Json_Facts.thy ===== *)
theory Go_Json_Facts
  imports Go_Json
begin

text \<open>
  Facts about the JSON model: decoded strings are valid UTF-8, quoting and unquoting are
  inverse, printed values are read back unchanged, every parse consumes input, and the fuel of
  \<open>json_parse\<close> is enough.
\<close>

declare unquote.simps [simp del] quote_body.simps [simp del]
  pval.simps [simp del] pelems.simps [simp del] pmembers.simps [simp del]

section \<open>UTF-8\<close>

lemma utf8_len_Nil [simp]: "utf8_len [] = 0"
  by (simp add: utf8_len_def)

lemma utf8_len_ascii: "byte c < 128 \<Longrightarrow> utf8_len (c # r) = 1"
  by (simp add: utf8_len_def)

lemma utf8_len_le: "utf8_len s \<le> length s"
  by (cases s) (auto simp: utf8_len_def Let_def)

lemma utf8_len_cases:
  assumes "utf8_len s \<noteq> 0"
  obtains (one) "s \<noteq> []" "byte (s ! 0) < 128" "utf8_len s = 1"
  | (two) "194 \<le> byte (s ! 0)" "byte (s ! 0) \<le> 223" "2 \<le> length s" "is_cont (s ! 1)"
      "utf8_len s = 2"
  | (three) "224 \<le> byte (s ! 0)" "byte (s ! 0) \<le> 239" "3 \<le> length s"
      "second_ok (s ! 0) (s ! 1)" "is_cont (s ! 2)" "utf8_len s = 3"
  | (four) "240 \<le> byte (s ! 0)" "byte (s ! 0) \<le> 244" "4 \<le> length s"
      "second_ok (s ! 0) (s ! 1)" "is_cont (s ! 2)" "is_cont (s ! 3)" "utf8_len s = 4"
proof -
  have "utf8_len s \<in> {1, 2, 3, 4}"
    using assms by (simp add: utf8_len_def Let_def split: if_split_asm)
  then show ?thesis
    using that by (auto simp: utf8_len_def Let_def split: if_split_asm)
qed

text \<open>The size depends on the sequence itself only.\<close>

lemma utf8_len_prefix_cong:
  assumes "utf8_len s \<noteq> 0" and "utf8_len s \<le> length t"
    and "\<And>i. i < utf8_len s \<Longrightarrow> t ! i = s ! i"
  shows "utf8_len t = utf8_len s"
  using assms(1)
proof (cases rule: utf8_len_cases)
  case one
  with assms(2) assms(3) [of 0] show ?thesis by (cases t) (auto simp: utf8_len_def)
next
  case two
  with assms(2) assms(3) [of 0] assms(3) [of 1] show ?thesis
    by (cases "t = []") (auto simp: utf8_len_def)
next
  case three
  with assms(2) assms(3) [of 0] assms(3) [of 1] assms(3) [of 2] show ?thesis
    by (cases "t = []") (auto simp: utf8_len_def)
next
  case four
  with assms(2) assms(3) [of 0] assms(3) [of 1] assms(3) [of 2] assms(3) [of 3] show ?thesis
    by (cases "t = []") (auto simp: utf8_len_def)
qed

lemma utf8_len_append: "utf8_len s \<noteq> 0 \<Longrightarrow> utf8_len (s @ t) = utf8_len s"
  using utf8_len_le [of s] by (intro utf8_len_prefix_cong) (auto simp: nth_append)

lemma utf8_len_take_append:
  "utf8_len s \<noteq> 0 \<Longrightarrow> utf8_len (take (utf8_len s) s @ t) = utf8_len s"
  using utf8_len_le [of s] by (intro utf8_len_prefix_cong) (auto simp: nth_append)

lemma utf8_len_take: "utf8_len s \<noteq> 0 \<Longrightarrow> utf8_len (take (utf8_len s) s) = utf8_len s"
  using utf8_len_take_append [of s "[]"] by simp

lemma valid_utf8_append: "valid_utf8 s \<Longrightarrow> valid_utf8 t \<Longrightarrow> valid_utf8 (s @ t)"
proof (induction s rule: valid_utf8.induct)
  case (2 c r)
  let ?n = "utf8_len (c # r)"
  from 2 have "?n \<noteq> 0" and "valid_utf8 (drop (?n - 1) r @ t)" by auto
  moreover have "?n - 1 \<le> length r" using utf8_len_le [of "c # r"] by simp
  moreover have "utf8_len (c # r @ t) = ?n"
    using utf8_len_append [of "c # r" t] \<open>?n \<noteq> 0\<close> by simp
  ultimately show ?case by simp
qed simp

lemma valid_utf8_unit:
  assumes "utf8_len s \<noteq> 0"
  shows "valid_utf8 (take (utf8_len s) s)"
proof -
  obtain c r where s: "s = c # r" using assms by (cases s) auto
  obtain m where m: "utf8_len s = Suc m" using assms by (cases "utf8_len s") auto
  then have "take (utf8_len s) s = c # take m r" using s by simp
  moreover have "utf8_len (c # take m r) = Suc m"
    using utf8_len_take [OF assms] calculation m by simp
  ultimately show ?thesis by simp
qed

lemma valid_utf8_ascii: "(\<And>c. c \<in> set s \<Longrightarrow> byte c < 128) \<Longrightarrow> valid_utf8 s"
  by (induction s) (auto simp: utf8_len_ascii)

lemma valid_utf8_replacement [simp]: "valid_utf8 replacement"
  by (simp add: replacement_def utf8_len_def second_ok_def is_cont_def)

lemma valid_utf8_three:
  fixes q m l :: nat
  assumes "q \<le> 15" "m \<le> 63" "l \<le> 63" "q = 0 \<longrightarrow> 32 \<le> m" "q = 13 \<longrightarrow> m \<le> 31"
  shows "valid_utf8 [char_of (224 + q), char_of (128 + m), char_of (128 + l)]"
proof -
  have "second_ok (char_of (224 + q)) (char_of (128 + m))" and "is_cont (char_of (128 + l))"
    using assms by (auto simp: second_ok_def is_cont_def)
  then have "utf8_len [char_of (224 + q), char_of (128 + m), char_of (128 + l)] = 3"
    using assms by (simp add: utf8_len_def)
  then show ?thesis by simp
qed

lemma valid_utf8_four:
  fixes q m l k :: nat
  assumes "q \<le> 4" "m \<le> 63" "l \<le> 63" "k \<le> 63" "q = 0 \<longrightarrow> 16 \<le> m" "q = 4 \<longrightarrow> m \<le> 15"
  shows "valid_utf8 [char_of (240 + q), char_of (128 + m), char_of (128 + l), char_of (128 + k)]"
proof -
  have "second_ok (char_of (240 + q)) (char_of (128 + m))"
    and "is_cont (char_of (128 + l))" and "is_cont (char_of (128 + k))"
    using assms by (auto simp: second_ok_def is_cont_def)
  then have "utf8_len [char_of (240 + q), char_of (128 + m), char_of (128 + l), char_of (128 + k)] = 4"
    using assms by (simp add: utf8_len_def)
  then show ?thesis by simp
qed

lemma div_mod_digit:
  fixes r :: nat
  assumes "r div (a * b) = q" "0 < b"
  shows "r div a mod b = r div a - q * b"
  using assms by (metis div_mult2_eq minus_div_mult_eq_mod)

lemma valid_utf8_encode: "valid_utf8 (utf8_encode r)"
proof -
  consider "r < 128" | "128 \<le> r" "r < 2048" | "2048 \<le> r" "is_surrogate r \<or> 1114111 < r"
    | "2048 \<le> r" "r < 65536" "\<not> is_surrogate r" | "65536 \<le> r" "r \<le> 1114111"
    by linarith
  then show ?thesis
  proof cases
    case 1
    then show ?thesis by (simp add: utf8_encode_def utf8_len_ascii)
  next
    case 2
    then have "2 \<le> r div 64" "r div 64 \<le> 31" by auto
    with 2 show ?thesis
      by (simp add: utf8_encode_def utf8_len_def is_cont_def)
  next
    case 3
    then show ?thesis by (simp add: utf8_encode_def)
  next
    case 4
    let ?q = "r div 4096" and ?m = "r div 64 mod 64"
    have "?q \<le> 15" "?m \<le> 63" "r mod 64 \<le> 63" using 4 by simp_all
    moreover have "?q = 0 \<longrightarrow> 32 \<le> ?m" using 4 div_mod_digit [of r 64 64] by auto
    moreover have "?m \<le> 31" if "?q = 13"
    proof -
      have "r < 55296" using 4 that by (auto simp: is_surrogate_def)
      then have "r div 64 < 864" by simp
      with that show ?thesis using div_mod_digit [of r 64 64] by simp
    qed
    ultimately have "valid_utf8 [char_of (224 + ?q), char_of (128 + ?m), char_of (128 + r mod 64)]"
      by (intro valid_utf8_three) auto
    with 4 show ?thesis by (simp add: utf8_encode_def)
  next
    case 5
    let ?q = "r div 262144" and ?m = "r div 4096 mod 64"
    have "?q \<le> 4" "?m \<le> 63" "r div 64 mod 64 \<le> 63" "r mod 64 \<le> 63" using 5 by simp_all
    moreover have "?q = 0 \<longrightarrow> 16 \<le> ?m" using 5 div_mod_digit [of r 4096 64] by auto
    moreover have "?q = 4 \<longrightarrow> ?m \<le> 15" using 5 div_mod_digit [of r 4096 64] by auto
    ultimately have "valid_utf8 [char_of (240 + ?q), char_of (128 + ?m),
        char_of (128 + r div 64 mod 64), char_of (128 + r mod 64)]"
      by (intro valid_utf8_four) auto
    with 5 show ?thesis by (simp add: utf8_encode_def is_surrogate_def)
  qed
qed

section \<open>Strings\<close>

lemma prepend_Some: "prepend p x = Some (t, r) \<longleftrightarrow> (\<exists>t'. x = Some (t', r) \<and> t = p @ t')"
  by (auto simp: prepend_def split: option.splits)

text \<open>One step of the string decoder: it stops at the closing quote, or it emits a valid
  piece and goes on with a shorter rest.\<close>

lemma unquote_step:
  assumes "unquote (c # s) = Some (t, r)" and "c \<noteq> CHR 0x22"
  obtains p s' t' where "t = p @ t'" "valid_utf8 p" "unquote s' = Some (t', r)"
    "length s' < length (c # s)"
proof -
  have esc: "valid_utf8 [x]" if "simple_escape e = Some x" for e x
  proof -
    have "byte x < 128" using that by (auto simp: simple_escape_def split: if_splits)
    then show ?thesis by (simp add: utf8_len_ascii)
  qed
  consider (bs) "c = CHR 0x5C" | (ascii) "c \<noteq> CHR 0x5C" "\<not> byte c < 32" "byte c < 128"
    | (multi) "128 \<le> byte c" "c \<noteq> CHR 0x5C"
    using assms by (fastforce simp: unquote.simps split: if_splits)
  then show ?thesis
  proof cases
    case bs
    with assms obtain e s1 where s: "s = e # s1" by (cases s) (auto simp: unquote.simps)
    show ?thesis
    proof (cases "e = CHR ''u''")
      case True
      with assms bs s obtain v where v: "hex4 s1 = Some v"
        by (auto simp: unquote.simps(2) split: option.splits)
      consider (pair) w where "55296 \<le> v" "v \<le> 56319" "low_surrogate (drop 4 s1) = Some w"
        | (lone) "55296 \<le> v" "v \<le> 56319" "low_surrogate (drop 4 s1) = None"
        | (plain) "\<not> (55296 \<le> v \<and> v \<le> 56319)"
        by (cases "low_surrogate (drop 4 s1)") auto
      then show ?thesis
      proof cases
        case pair
        with assms bs s True v show ?thesis
          by (auto simp: unquote.simps(2) prepend_Some valid_utf8_encode
              intro!: that [of _ _ "drop 10 s1"])
      next
        case lone
        with assms bs s True v show ?thesis
          by (auto simp: unquote.simps(2) prepend_Some intro!: that [of replacement _ "drop 4 s1"])
      next
        case plain
        with assms bs s True v show ?thesis
          by (auto simp: unquote.simps(2) prepend_Some valid_utf8_encode
              intro!: that [of _ _ "drop 4 s1"])
      qed
    next
      case False
      with assms bs s obtain x t' where x: "simple_escape e = Some x" "unquote s1 = Some (t', r)"
        "t = [x] @ t'"
        by (auto simp: unquote.simps(2) prepend_Some split: option.splits if_splits)
      show ?thesis by (rule that [OF x(3) esc [OF x(1)] x(2)]) (simp add: s)
    qed
  next
    case ascii
    with assms show ?thesis
      by (auto simp: unquote.simps(2) prepend_Some utf8_len_ascii intro!: that [of "[c]" _ s])
  next
    case multi
    let ?n = "utf8_len (c # s)"
    have c: "\<not> byte c < 32" "\<not> byte c < 128" using multi by auto
    show ?thesis
    proof (cases "?n = 0")
      case True
      with assms multi c show ?thesis
        by (auto simp: unquote.simps(2) prepend_Some intro: that [of replacement _ s])
    next
      case False
      with assms multi c obtain t' where "t = take ?n (c # s) @ t'"
        "unquote (drop (?n - 1) s) = Some (t', r)"
        by (auto simp: unquote.simps(2) prepend_Some Let_def)
      then show ?thesis using valid_utf8_unit [OF False] by (intro that) auto
    qed
  qed
qed

text \<open>Whatever the input, a decoded string is valid UTF-8, and the decoder consumes input.\<close>

lemma unquote_valid_shorter:
  "unquote s = Some (t, r) \<Longrightarrow> valid_utf8 t \<and> length r < length s"
proof (induction "length s" arbitrary: s t r rule: less_induct)
  case less
  from less.prems obtain c u where s: "s = c # u" by (cases s) (auto simp: unquote.simps)
  show ?case
  proof (cases "c = CHR 0x22")
    case True
    with less.prems s show ?thesis by (auto simp: unquote.simps)
  next
    case False
    with less.prems s obtain p s' t' where *: "t = p @ t'" "valid_utf8 p"
      "unquote s' = Some (t', r)" "length s' < length (c # u)"
      by (blast elim: unquote_step)
    then have "valid_utf8 t' \<and> length r < length s'" using less.hyps s by blast
    with * s show ?thesis by (auto intro: valid_utf8_append)
  qed
qed

lemmas unquote_valid = unquote_valid_shorter [THEN conjunct1]
lemmas unquote_shorter = unquote_valid_shorter [THEN conjunct2]

subsection \<open>Quoting and unquoting\<close>

lemma hex_val_hex_char: "n < 16 \<Longrightarrow> hex_val (hex_char n) = Some n"
  by (simp add: hex_val_def hex_char_def is_digit_def)

lemma hex4_escape:
  "a < 16 \<Longrightarrow> b < 16 \<Longrightarrow> c < 16 \<Longrightarrow> d < 16 \<Longrightarrow>
   hex4 (hex_char a # hex_char b # hex_char c # hex_char d # t) =
     Some (a * 4096 + b * 256 + c * 16 + d)"
  by (simp add: hex4_def hex_val_hex_char)

lemma hex_char_0: "CHR ''0'' = hex_char 0" and hex_char_2: "CHR ''2'' = hex_char 2"
  by (simp_all add: hex_char_def char_of_def bit_Suc_0_iff)

lemma unquote_u:
  assumes "hex4 (take 4 h) = Some v" "length h = 4" "\<not> (55296 \<le> v \<and> v \<le> 56319)"
  shows "unquote (CHR 0x5C # CHR ''u'' # h @ t) = prepend (utf8_encode v) (unquote t)"
proof -
  obtain a b c d where h: "h = [a, b, c, d]"
    using assms(2) by (auto simp: numeral_eq_Suc length_Suc_conv)
  then have "hex4 (h @ t) = Some v" using assms(1) by (simp add: hex4_def)
  with assms(3) h show ?thesis by (auto simp: unquote.simps(2))
qed

lemma unquote_escape_ascii:
  assumes "byte c < 128"
  shows "unquote (escape_ascii c @ t) = prepend [c] (unquote t)"
proof -
  let ?named = "c \<in> {CHR 0x22, CHR 0x5C, CHR 0x08, CHR 0x0C, CHR 0x0A, CHR 0x0D, CHR 0x09}"
  let ?hex = "byte c < 32 \<or> c = CHR 0x26 \<or> c = CHR 0x3C \<or> c = CHR 0x3E"
  show ?thesis
  proof (cases ?named)
    case True
    then show ?thesis
      by (auto simp: escape_ascii_def unquote.simps(2) simple_escape_def)
  next
    case named: False
    show ?thesis
    proof (cases ?hex)
      case True
      let ?h = "[CHR ''0'', CHR ''0'', hex_char (byte c div 16), hex_char (byte c mod 16)]"
      have "byte c div 16 < 16" using assms by simp
      then have "hex4 (take 4 ?h) = Some (byte c)"
        using hex4_escape [of 0 0 "byte c div 16" "byte c mod 16" "[]"] by (simp add: hex_char_0)
      then have "unquote (CHR 0x5C # CHR ''u'' # ?h @ t) =
          prepend (utf8_encode (byte c)) (unquote t)"
        using assms by (intro unquote_u) auto
      moreover have "utf8_encode (byte c) = [c]" using assms by (simp add: utf8_encode_def)
      ultimately show ?thesis using True named by (simp add: escape_ascii_def)
    next
      case False
      then show ?thesis using assms named by (simp add: escape_ascii_def unquote.simps(2))
    qed
  qed
qed

lemma line_sep_cases:
  assumes "line_sep s"
  obtains x t where "s = CHR 0xE2 # CHR 0x80 # x # t" "x = CHR 0xA8 \<or> x = CHR 0xA9"
  using assms by (auto simp: line_sep_def has_prefix_iff)

lemma unquote_line_sep:
  assumes "line_sep s"
  shows "unquote (escape_line_sep s @ t) = prepend (take 3 s) (unquote t)" and "utf8_len s = 3"
proof -
  obtain x r where s: "s = CHR 0xE2 # CHR 0x80 # x # r" and x: "x = CHR 0xA8 \<or> x = CHR 0xA9"
    using assms by (rule line_sep_cases)
  then show "utf8_len s = 3" by (auto simp: utf8_len_def second_ok_def is_cont_def)
  let ?d = "byte x mod 16"
  let ?h = "[CHR ''2'', CHR ''0'', CHR ''2'', hex_char ?d]"
  have "hex4 (take 4 ?h) = Some (8224 + ?d)"
    using hex4_escape [of 2 0 2 ?d "[]"] by (simp add: hex_char_0 hex_char_2)
  then have "unquote (CHR 0x5C # CHR ''u'' # ?h @ t) = prepend (utf8_encode (8224 + ?d)) (unquote t)"
    by (intro unquote_u) auto
  moreover have "utf8_encode (8224 + ?d) = [CHR 0xE2, CHR 0x80, x]"
    using x by (auto simp: utf8_encode_def is_surrogate_def char_of_def bit_Suc_0_iff)
  ultimately show "unquote (escape_line_sep s @ t) = prepend (take 3 s) (unquote t)"
    using s by (simp add: escape_line_sep_def)
qed

lemma unquote_unit:
  assumes "\<not> byte c < 128" "utf8_len (c # s) \<noteq> 0"
  shows "unquote (take (utf8_len (c # s)) (c # s) @ t) =
    prepend (take (utf8_len (c # s)) (c # s)) (unquote t)"
proof -
  let ?n = "utf8_len (c # s)"
  obtain m where m: "?n = Suc m" using assms(2) by (cases ?n) auto
  have le: "m \<le> length s" using utf8_len_le [of "c # s"] m by simp
  have len: "utf8_len (c # take m s @ t) = Suc m"
    using utf8_len_take_append [OF assms(2), of t] m by simp
  have "c \<noteq> CHR 0x22" "c \<noteq> CHR 0x5C" "\<not> byte c < 32" using assms(1) by auto
  with assms(1) le len m show ?thesis by (simp add: unquote.simps(2))
qed

theorem unquote_quote [go_json]:
  "valid_utf8 s \<Longrightarrow> unquote (quote_body s @ CHR 0x22 # r) = Some (s, r)"
proof (induction s rule: quote_body.induct)
  case 1
  then show ?case by (simp add: quote_body.simps unquote.simps)
next
  case (2 c s)
  let ?n = "utf8_len (c # s)"
  show ?case
  proof (cases "byte c < 128")
    case True
    with 2 have "unquote (quote_body s @ CHR 0x22 # r) = Some (s, r)" by (simp add: utf8_len_ascii)
    with True show ?thesis by (simp add: quote_body.simps(2) unquote_escape_ascii prepend_def)
  next
    case False
    from 2 have n: "?n \<noteq> 0" by simp
    have split: "take ?n (c # s) @ drop (?n - 1) s = c # s"
      using n by (cases ?n) auto
    have IH: "unquote (quote_body (drop (?n - 1) s) @ CHR 0x22 # r) = Some (drop (?n - 1) s, r)"
      using "2.IH" "2.prems" False n by (cases "line_sep (c # s)") auto
    show ?thesis
    proof (cases "line_sep (c # s)")
      case True
      with False n IH split show ?thesis
        by (simp add: quote_body.simps(2) unquote_line_sep prepend_def)
    next
      case nl: False
      have "quote_body (c # s) = take ?n (c # s) @ quote_body (drop (?n - 1) s)"
        using False n nl by (simp add: quote_body.simps(2) Let_def)
      then show ?thesis
        using unquote_unit [OF False n] IH split
        by (simp add: prepend_def del: take_Suc_Cons)
    qed
  qed
qed

section \<open>Numbers\<close>

text \<open>A byte that cannot continue a number.\<close>

definition num_stop :: "string \<Rightarrow> bool" where
  "num_stop r \<longleftrightarrow>
     (case r of [] \<Rightarrow> True
      | c # _ \<Rightarrow> \<not> is_digit c \<and> c \<noteq> CHR ''.'' \<and> c \<noteq> CHR ''e'' \<and> c \<noteq> CHR ''E'')"

lemma span_digits_append:
  "(\<And>c. c \<in> set ds \<Longrightarrow> is_digit c) \<Longrightarrow> num_stop r \<Longrightarrow> span_digits (ds @ r) = (ds, r)"
  by (induction ds) (cases r, auto simp: num_stop_def)

lemma frac_exp_stop:
  "num_stop r \<Longrightarrow> frac_part r = Some ([], r) \<and> exp_part r = Some ([], r)"
  by (cases r) (auto simp: num_stop_def frac_part_def exp_part_def)

lemma is_digit_0: "is_digit (CHR ''0'')"
  by (simp add: is_digit_def)

lemma digit_char_0_iff: "0 \<le> d \<Longrightarrow> d < 10 \<Longrightarrow> digit_char d = CHR ''0'' \<longleftrightarrow> d = 0"
  using byte_digit_char [of d] by (auto simp: digit_char_def char_of_def bit_Suc_0_iff)

lemma int_part_itoa:
  assumes "0 \<le> n" "num_stop r"
  shows "int_part (map digit_char (digits_of 10 n) @ r) = Some (map digit_char (digits_of 10 n), r)"
proof (cases "n = 0")
  case True
  then show ?thesis by (simp add: digits_of_zero int_part_def digit_char_0_iff)
next
  case False
  let ?s = "map digit_char (digits_of 10 n)"
  obtain d ds where ds: "digits_of 10 n = d # ds" by (cases "digits_of 10 n") auto
  have "0 < d" using digits_of_hd_pos [of 10 n] False assms ds by simp
  moreover have "d < 10" using digits10_bound [of n d] assms ds by simp
  ultimately have "digit_char d \<noteq> CHR ''0''" and "is_digit (digit_char d)"
    by (simp_all add: digit_char_0_iff digit_char_digit)
  then have "int_part (?s @ r) = Some (span_digits (?s @ r))" by (simp add: int_part_def ds)
  also have "span_digits (?s @ r) = (?s, r)"
    using digits10_chars [OF assms(1)] assms(2) by (intro span_digits_append) auto
  finally show ?thesis .
qed

lemma parse_number_itoa [go_json]:
  assumes "num_stop r"
  shows "parse_number (itoa i @ r) = Some (itoa i, r)"
proof (cases "i < 0")
  case True
  then show ?thesis
    using int_part_itoa [of "- i" r] frac_exp_stop [OF assms] assms
    by (simp add: parse_number_def minus_sign_def format_int_def)
next
  case False
  obtain c t where s: "map digit_char (digits_of 10 i) = c # t"
    by (cases "map digit_char (digits_of 10 i)") auto
  then have "c \<noteq> CHR ''-''" using format_hd_not_minus [of 10 i] False by simp
  then show ?thesis
    using int_part_itoa [of i r] frac_exp_stop [OF assms] assms False s
    by (simp add: parse_number_def minus_sign_def format_int_def)
qed

section \<open>Values\<close>

text \<open>The values that \<open>Marshal\<close> produces for the services' types: valid UTF-8 strings and
  decimal integers.\<close>

fun json_ok :: "json \<Rightarrow> bool"
  and elems_ok :: "json list \<Rightarrow> bool"
  and members_ok :: "(string \<times> json) list \<Rightarrow> bool" where
  "json_ok JNull = True"
| "json_ok (JBool b) = True"
| "json_ok (JNum l) = (\<exists>i. l = itoa i)"
| "json_ok (JStr s) = valid_utf8 s"
| "json_ok (JArr vs) = elems_ok vs"
| "json_ok (JObj ms) = members_ok ms"
| "elems_ok [] = True"
| "elems_ok (v # vs) = (json_ok v \<and> elems_ok vs)"
| "members_ok [] = True"
| "members_ok ((k, v) # ms) = (valid_utf8 k \<and> json_ok v \<and> members_ok ms)"

fun jdepth :: "json \<Rightarrow> int"
  and edepth :: "json list \<Rightarrow> int"
  and mdepth :: "(string \<times> json) list \<Rightarrow> int" where
  "jdepth JNull = 0"
| "jdepth (JBool b) = 0"
| "jdepth (JNum l) = 0"
| "jdepth (JStr s) = 0"
| "jdepth (JArr vs) = 1 + edepth vs"
| "jdepth (JObj ms) = 1 + mdepth ms"
| "edepth [] = 0"
| "edepth (v # vs) = max (jdepth v) (edepth vs)"
| "mdepth [] = 0"
| "mdepth ((k, v) # ms) = max (jdepth v) (mdepth ms)"

lemma depth_nonneg: "0 \<le> jdepth v" "0 \<le> edepth vs" "0 \<le> mdepth ms"
  by (induction v and vs and ms rule: jdepth_edepth_mdepth.induct) auto

lemma skip_ws_Nil [simp]: "skip_ws [] = []"
  by (simp add: skip_ws_def)

lemma skip_ws_nonws [simp]: "\<not> is_ws c \<Longrightarrow> skip_ws (c # r) = c # r"
  by (simp add: skip_ws_def)

lemma skip_ws_le: "length (skip_ws s) \<le> length s"
  by (simp add: skip_ws_def length_dropWhile_le)

lemma strip_lit_append [simp]: "strip_lit l (l @ r) = Some r"
  by (simp add: strip_lit_def has_prefix_iff)

lemma strip_lit_Cons: "strip_lit (c # l) (d # r) = (if c = d then strip_lit l r else None)"
  by (simp add: strip_lit_def)

lemma strip_lit_Nil [simp]: "strip_lit [] r = Some r"
  by (simp add: strip_lit_def)

lemma strip_lit_shorter: "strip_lit l s = Some r \<Longrightarrow> length r + length l = length s"
  by (auto simp: strip_lit_def has_prefix_iff split: if_splits)

text \<open>The first byte of a printed value.\<close>

definition value_start :: "char \<Rightarrow> bool" where
  "value_start c \<longleftrightarrow> \<not> is_ws c \<and> c \<noteq> CHR '']'' \<and> c \<noteq> CHR ''}''"

lemma number_start:
  assumes "c = CHR ''-'' \<or> is_digit c"
  shows "\<not> is_ws c" and "value_start c"
proof -
  show "\<not> is_ws c" using assms by (auto simp: is_ws_def is_digit_def)
  then show "value_start c" using assms by (auto simp: value_start_def is_digit_def)
qed

lemma itoa_Cons:
  obtains c t where "itoa i = c # t" "c = CHR ''-'' \<or> is_digit c"
proof (cases "i < 0")
  case True
  then show ?thesis using that by (simp add: format_int_def)
next
  case False
  obtain c t where s: "map digit_char (digits_of 10 i) = c # t"
    by (cases "map digit_char (digits_of 10 i)") auto
  then have "is_digit c" using itoa_hd_digit [of i] False by simp
  then show ?thesis using that False s by (simp add: format_int_def)
qed

lemma json_print_Cons:
  assumes "json_ok v"
  obtains c t where "json_print v = c # t" "value_start c"
proof (cases v)
  case (JNum l)
  with assms obtain i where "l = itoa i" by auto
  moreover obtain c t where "itoa i = c # t" "c = CHR ''-'' \<or> is_digit c" by (rule itoa_Cons)
  ultimately show ?thesis using that JNum number_start(2) by auto
next
  case (JBool b)
  then show ?thesis using that by (cases b) (auto simp: value_start_def is_ws_def)
qed (use that in \<open>auto simp: json_quote_def value_start_def is_ws_def split: if_splits\<close>)

lemma pval_number:
  assumes "num_stop r"
  shows "pval (Suc f) d (itoa i @ r) = Some (JNum (itoa i), r)"
proof -
  obtain c t where ct: "itoa i = c # t" and c: "c = CHR ''-'' \<or> is_digit c" by (rule itoa_Cons)
  have "parse_number (c # t @ r) = Some (c # t, r)" using parse_number_itoa [OF assms, of i] ct by simp
  moreover have "skip_ws (c # t @ r) = c # t @ r" using number_start(1) [OF c] by simp
  moreover have "c \<noteq> CHR 0x22" "c \<noteq> CHR ''[''" "c \<noteq> CHR ''{''" "c \<noteq> CHR ''n''" "c \<noteq> CHR ''t''"
    "c \<noteq> CHR ''f''" using c by (auto simp: is_digit_def)
  ultimately show ?thesis by (simp add: pval.simps ct strip_lit_Cons)
qed

lemma pval_quote:
  "valid_utf8 s \<Longrightarrow> pval (Suc f) d (json_quote s @ r) = Some (JStr s, r)"
  by (simp add: pval.simps json_quote_def is_ws_def unquote_quote)

lemma pmembers_quote:
  "valid_utf8 k \<Longrightarrow>
   pmembers (Suc f) d (json_quote k @ CHR '':'' # u) =
     (case pval f d u of
        None \<Rightarrow> None
      | Some (v, r3) \<Rightarrow>
     (case skip_ws r3 of
        [] \<Rightarrow> None
      | c # r4 \<Rightarrow>
          (if c = CHR ''}'' then Some ([(k, v)], r4)
           else if c = CHR '','' then
             (case pmembers f d r4 of None \<Rightarrow> None | Some (ms, t) \<Rightarrow> Some ((k, v) # ms, t))
           else None)))"
  by (simp add: pmembers.simps json_quote_def is_ws_def unquote_quote strip_lit_Cons)

lemma num_stop_delim:
  "num_stop (CHR '','' # r)" "num_stop (CHR '']'' # r)" "num_stop (CHR ''}'' # r)"
  by (simp_all add: num_stop_def is_digit_def)

lemma not_ws_delim [simp]:
  "\<not> is_ws (CHR '','')" "\<not> is_ws (CHR '']'')" "\<not> is_ws (CHR ''}'')" "\<not> is_ws (CHR ''['')"
  "\<not> is_ws (CHR ''{'')" "\<not> is_ws (CHR 0x22)" "\<not> is_ws (CHR ''n'')" "\<not> is_ws (CHR ''t'')"
  "\<not> is_ws (CHR ''f'')"
  by (simp_all add: is_ws_def)

lemma pval_print_gen:
  "json_ok v \<Longrightarrow> jdepth v \<le> d \<Longrightarrow> 2 * length (json_print v) < f \<Longrightarrow> num_stop r \<Longrightarrow>
     pval f d (json_print v @ r) = Some (v, r)"
  "elems_ok vs \<Longrightarrow> vs \<noteq> [] \<Longrightarrow> edepth vs \<le> d \<Longrightarrow> 2 * length (print_elems vs) + 1 < f \<Longrightarrow>
     pelems f d (print_elems vs @ CHR '']'' # r) = Some (vs, r)"
  "members_ok ms \<Longrightarrow> ms \<noteq> [] \<Longrightarrow> mdepth ms \<le> d \<Longrightarrow> 2 * length (print_members ms) + 1 < f \<Longrightarrow>
     pmembers f d (print_members ms @ CHR ''}'' # r) = Some (ms, r)"
proof (induction v and vs and ms arbitrary: d f r and d f r and d f r
    rule: json_print_print_elems_print_members.induct)
  case (1 d f r)
  then show ?case by (cases f) (auto simp: pval.simps strip_lit_Cons)
next
  case (2 b d f r)
  then show ?case by (cases f) (auto simp: pval.simps strip_lit_Cons)
next
  case (3 l d f r)
  then show ?case by (cases f) (auto simp: pval_number)
next
  case (4 s d f r)
  then show ?case by (cases f) (auto simp: pval_quote)
next
  case (5 vs d f r)
  then obtain f' where f: "f = Suc f'" by (cases f) auto
  show ?case
  proof (cases vs)
    case Nil
    with 5 f depth_nonneg(2) [of vs] show ?thesis by (simp add: pval.simps strip_lit_Cons)
  next
    case (Cons w ws)
    with 5 have "json_ok w" by simp
    then obtain c t where "json_print w = c # t" "value_start c" by (rule json_print_Cons)
    then have hd: "print_elems vs @ CHR '']'' # r =
        c # t @ (if ws = [] then [] else CHR '','' # print_elems ws) @ CHR '']'' # r"
      and c: "\<not> is_ws c" "c \<noteq> CHR '']''"
      using Cons by (auto simp: value_start_def)
    have "strip_lit '']'' (skip_ws (print_elems vs @ CHR '']'' # r)) = None"
      using c by (simp add: hd strip_lit_Cons)
    moreover have "pelems f' (d - 1) (print_elems vs @ CHR '']'' # r) = Some (vs, r)"
      using 5 Cons f by (intro "5.IH") auto
    moreover have "0 < d" using 5 depth_nonneg(2) [of vs] by simp
    ultimately show ?thesis using f by (simp add: pval.simps)
  qed
next
  case (6 ms d f r)
  then obtain f' where f: "f = Suc f'" by (cases f) auto
  show ?case
  proof (cases ms)
    case Nil
    with 6 f depth_nonneg(3) [of ms] show ?thesis by (simp add: pval.simps strip_lit_Cons)
  next
    case (Cons m ms')
    obtain k w where m: "m = (k, w)" by (cases m)
    have "strip_lit ''}'' (skip_ws (print_members ms @ CHR ''}'' # r)) = None"
      using Cons m by (simp add: json_quote_def strip_lit_Cons)
    moreover have "pmembers f' (d - 1) (print_members ms @ CHR ''}'' # r) = Some (ms, r)"
      using 6 Cons f by (intro "6.IH") auto
    moreover have "0 < d" using 6 depth_nonneg(3) [of ms] by simp
    ultimately show ?thesis using f by (simp add: pval.simps)
  qed
next
  case 7
  then show ?case by simp
next
  case (8 v vs d f r)
  then obtain f' where f: "f = Suc f'" by (cases f) auto
  show ?case
  proof (cases "vs = []")
    case True
    with 8 f have "pval f' d (json_print v @ CHR '']'' # r) = Some (v, CHR '']'' # r)"
      by (intro "8.IH"(1)) (auto simp: num_stop_delim)
    with True f show ?thesis by (simp add: pelems.simps)
  next
    case False
    have "pval f' d (json_print v @ CHR '','' # print_elems vs @ CHR '']'' # r) =
        Some (v, CHR '','' # print_elems vs @ CHR '']'' # r)"
      using 8 f False by (intro "8.IH"(1)) (auto simp: num_stop_delim)
    moreover have "pelems f' d (print_elems vs @ CHR '']'' # r) = Some (vs, r)"
      using 8 f False by (intro "8.IH"(2)) auto
    ultimately show ?thesis using False f by (simp add: pelems.simps)
  qed
next
  case 9
  then show ?case by simp
next
  case (10 k v ms d f r)
  then obtain f' where f: "f = Suc f'" by (cases f) auto
  have k: "valid_utf8 k" using 10 by simp
  show ?case
  proof (cases "ms = []")
    case True
    with 10 f have "pval f' d (json_print v @ CHR ''}'' # r) = Some (v, CHR ''}'' # r)"
      by (intro "10.IH"(1)) (auto simp: num_stop_delim)
    with True f k show ?thesis by (simp add: pmembers_quote)
  next
    case False
    have "pval f' d (json_print v @ CHR '','' # print_members ms @ CHR ''}'' # r) =
        Some (v, CHR '','' # print_members ms @ CHR ''}'' # r)"
      using 10 f False by (intro "10.IH"(1)) (auto simp: num_stop_delim)
    moreover have "pmembers f' d (print_members ms @ CHR ''}'' # r) = Some (ms, r)"
      using 10 f False by (intro "10.IH"(2)) auto
    ultimately show ?thesis using False f k by (simp add: pmembers_quote)
  qed
qed

theorem json_parse_print [go_json]:
  assumes "json_ok v" "jdepth v \<le> max_nesting"
  shows "json_parse (json_print v) = Some v"
  using pval_print_gen(1) [OF assms, of "2 * length (json_print v) + 2" "[]"]
  by (simp add: json_parse_def num_stop_def)

subsection \<open>The fuel is enough\<close>

lemma span_digits_length: "span_digits s = (ds, t) \<Longrightarrow> length ds + length t = length s"
  by (induction s arbitrary: ds t) (auto split: if_splits prod.splits)

lemma int_part_length: "int_part s = Some (i, t) \<Longrightarrow> length i + length t = length s \<and> i \<noteq> []"
  by (cases s) (auto simp: int_part_def dest!: span_digits_length split: if_splits prod.splits)

lemma frac_part_length: "frac_part s = Some (i, t) \<Longrightarrow> length i + length t = length s"
  by (cases s) (auto simp: frac_part_def dest!: span_digits_length split: if_splits prod.splits)

lemma exp_sign_length: "exp_sign s = (sg, t) \<Longrightarrow> length sg + length t = length s"
  by (cases s) (auto simp: exp_sign_def split: if_splits)

lemma minus_sign_length: "minus_sign s = (sg, t) \<Longrightarrow> length sg + length t = length s"
  by (cases s) (auto simp: minus_sign_def split: if_splits)

lemma exp_part_length: "exp_part s = Some (i, t) \<Longrightarrow> length i + length t = length s"
  by (cases s) (auto simp: exp_part_def dest!: span_digits_length exp_sign_length
      split: if_splits prod.splits)

lemma parse_number_shorter:
  assumes "parse_number s = Some (l, r)"
  shows "length r < length s"
proof -
  obtain sg u i u1 f u2 e where *: "minus_sign s = (sg, u)" "int_part u = Some (i, u1)"
    "frac_part u1 = Some (f, u2)" "exp_part u2 = Some (e, r)"
    using assms by (auto simp: parse_number_def split: option.splits prod.splits)
  then have "0 < length i" using int_part_length by blast
  moreover have "length i + length u1 = length u" using * int_part_length by blast
  ultimately show ?thesis
    using minus_sign_length [OF *(1)] frac_part_length [OF *(3)] exp_part_length [OF *(4)]
    by linarith
qed

lemma skip_ws_Cons_length: "skip_ws s = c # r \<Longrightarrow> length r < length s"
  using skip_ws_le [of s] by simp

lemma strip_lit_skip: "strip_lit l (skip_ws s) = Some r \<Longrightarrow> length r + length l \<le> length s"
  using strip_lit_shorter [of l "skip_ws s" r] skip_ws_le [of s] by simp

text \<open>Every successful parse consumes input.\<close>

lemma parse_shorter_aux:
  "(\<forall>d s v r. pval f d s = Some (v, r) \<longrightarrow> length r < length s) \<and>
   (\<forall>d s vs r. pelems f d s = Some (vs, r) \<longrightarrow> length r < length s) \<and>
   (\<forall>d s ms r. pmembers f d s = Some (ms, r) \<longrightarrow> length r < length s)"
proof (induction f)
  case 0
  then show ?case by (simp add: pval.simps pelems.simps pmembers.simps)
next
  case (Suc f)
  note V = Suc [THEN conjunct1, rule_format]
    and E = Suc [THEN conjunct2, THEN conjunct1, rule_format]
    and M = Suc [THEN conjunct2, THEN conjunct2, rule_format]
  have "length r < length s" if p: "pval (Suc f) d s = Some (v, r)" for d s v r
  proof -
    obtain c t where t: "skip_ws s = c # t" using p by (cases "skip_ws s") (auto simp: pval.simps)
    have "length r < length (c # t)"
      using p t skip_ws_le [of t]
      by (auto simp: pval.simps(2) split: if_splits option.splits
          dest!: unquote_shorter strip_lit_shorter parse_number_shorter E M)
    then show ?thesis using skip_ws_le [of s] t by simp
  qed
  moreover have "length r < length s" if p: "pelems (Suc f) d s = Some (vs, r)" for d s vs r
    using p
    by (auto simp: pelems.simps(2) split: if_splits option.splits list.splits
        dest!: V E skip_ws_Cons_length)
  moreover have "length r < length s" if p: "pmembers (Suc f) d s = Some (ms, r)" for d s ms r
    using p
    by (auto simp: pmembers.simps(2) split: if_splits option.splits list.splits
        dest!: V M skip_ws_Cons_length unquote_shorter strip_lit_skip)
  ultimately show ?case by blast
qed

lemmas parse_shorter =
  parse_shorter_aux [THEN conjunct1, rule_format]
  parse_shorter_aux [THEN conjunct2, THEN conjunct1, rule_format]
  parse_shorter_aux [THEN conjunct2, THEN conjunct2, rule_format]

lemma fuel_step_aux:
  "(\<forall>d s. 2 * length s < f \<longrightarrow> pval (Suc f) d s = pval f d s) \<and>
   (\<forall>d s. 2 * length s + 1 < f \<longrightarrow> pelems (Suc f) d s = pelems f d s) \<and>
   (\<forall>d s. 2 * length s + 1 < f \<longrightarrow> pmembers (Suc f) d s = pmembers f d s)"
proof (induction f)
  case 0
  then show ?case by simp
next
  case (Suc f)
  note V = Suc [THEN conjunct1, rule_format]
    and E = Suc [THEN conjunct2, THEN conjunct1, rule_format]
    and M = Suc [THEN conjunct2, THEN conjunct2, rule_format]
  have "pval (Suc (Suc f)) d s = pval (Suc f) d s" if len: "2 * length s < Suc f" for d s
  proof (cases "skip_ws s")
    case Nil
    then show ?thesis by (simp add: pval.simps(2))
  next
    case (Cons c t)
    then have "2 * length t + 1 < f" using len skip_ws_le [of s] by simp
    then have "pelems (Suc f) (d - 1) t = pelems f (d - 1) t"
      "pmembers (Suc f) (d - 1) t = pmembers f (d - 1) t"
      using E M by blast+
    then show ?thesis using Cons
      by (auto simp: pval.simps(2) [of "Suc f"] pval.simps(2) [of f] split: option.split)
  qed
  moreover have "pelems (Suc (Suc f)) d s = pelems (Suc f) d s" if len: "2 * length s + 1 < Suc f" for d s
  proof -
    have v: "pval (Suc f) d s = pval f d s" using V len by simp
    have "pelems (Suc f) d r' = pelems f d r'"
      if "pval f d s = Some (v, r)" "skip_ws r = c # r'" for v r c r'
      using len parse_shorter(1) [OF that(1)] skip_ws_Cons_length [OF that(2)] by (intro E) simp
    then show ?thesis
      by (auto simp: pelems.simps(2) [of "Suc f"] pelems.simps(2) [of f] v
          split: option.split list.split)
  qed
  moreover have "pmembers (Suc (Suc f)) d s = pmembers (Suc f) d s"
    if len: "2 * length s + 1 < Suc f" for d s
  proof -
    have le: "length r2 < length s" if "strip_lit [CHR 0x22] (skip_ws s) = Some q"
      "unquote q = Some (k, r1)" "strip_lit '':'' (skip_ws r1) = Some r2" for q k r1 r2
      using strip_lit_skip [OF that(1)] unquote_shorter [OF that(2)] strip_lit_skip [OF that(3)]
      by simp
    have v: "pval (Suc f) d r2 = pval f d r2" if "strip_lit [CHR 0x22] (skip_ws s) = Some q"
      "unquote q = Some (k, r1)" "strip_lit '':'' (skip_ws r1) = Some r2" for q k r1 r2
      using le [OF that] len by (intro V) simp
    have "pmembers (Suc f) d r4 = pmembers f d r4" if "strip_lit [CHR 0x22] (skip_ws s) = Some q"
      "unquote q = Some (k, r1)" "strip_lit '':'' (skip_ws r1) = Some r2"
      "pval f d r2 = Some (v, r3)" "skip_ws r3 = c # r4" for q k r1 r2 v r3 c r4
      using le [OF that(1-3)] len parse_shorter(1) [OF that(4)] skip_ws_Cons_length [OF that(5)]
      by (intro M) simp
    with v show ?thesis
      by (auto simp: pmembers.simps(2) [of "Suc f"] pmembers.simps(2) [of f]
          split: option.split list.split)
  qed
  ultimately show ?case by blast
qed

text \<open>More fuel than \<open>json_parse\<close> uses never changes its result.\<close>

theorem json_fuel_enough:
  assumes "2 * length s + 2 \<le> f"
  shows "pval f d s = pval (2 * length s + 2) d s"
  using assms
proof (induction f rule: dec_induct)
  case (step f)
  then show ?case using fuel_step_aux [THEN conjunct1, rule_format, of s f d] by simp
qed simp

subsection \<open>Strings of a parsed value\<close>

fun strings_ok :: "json \<Rightarrow> bool"
  and strings_ok_elems :: "json list \<Rightarrow> bool"
  and strings_ok_members :: "(string \<times> json) list \<Rightarrow> bool" where
  "strings_ok JNull = True"
| "strings_ok (JBool b) = True"
| "strings_ok (JNum l) = True"
| "strings_ok (JStr s) = valid_utf8 s"
| "strings_ok (JArr vs) = strings_ok_elems vs"
| "strings_ok (JObj ms) = strings_ok_members ms"
| "strings_ok_elems [] = True"
| "strings_ok_elems (v # vs) = (strings_ok v \<and> strings_ok_elems vs)"
| "strings_ok_members [] = True"
| "strings_ok_members ((k, v) # ms) = (valid_utf8 k \<and> strings_ok v \<and> strings_ok_members ms)"

lemma parse_strings_aux:
  "(\<forall>d s v r. pval f d s = Some (v, r) \<longrightarrow> strings_ok v) \<and>
   (\<forall>d s vs r. pelems f d s = Some (vs, r) \<longrightarrow> strings_ok_elems vs) \<and>
   (\<forall>d s ms r. pmembers f d s = Some (ms, r) \<longrightarrow> strings_ok_members ms)"
proof (induction f)
  case 0
  then show ?case by (simp add: pval.simps pelems.simps pmembers.simps)
next
  case (Suc f)
  note V = Suc [THEN conjunct1, rule_format]
    and E = Suc [THEN conjunct2, THEN conjunct1, rule_format]
    and M = Suc [THEN conjunct2, THEN conjunct2, rule_format]
  have "strings_ok v" if "pval (Suc f) d s = Some (v, r)" for d s v r
    using that
    by (auto simp: pval.simps(2) split: if_splits option.splits list.splits
        dest!: unquote_valid E M)
  moreover have "strings_ok_elems vs" if "pelems (Suc f) d s = Some (vs, r)" for d s vs r
    using that
    by (auto simp: pelems.simps(2) split: if_splits option.splits list.splits dest!: V E)
  moreover have "strings_ok_members ms" if "pmembers (Suc f) d s = Some (ms, r)" for d s ms r
    using that
    by (auto simp: pmembers.simps(2) split: if_splits option.splits list.splits
        dest!: V M unquote_valid)
  ultimately show ?case by blast
qed

lemma json_parse_strings_ok: "json_parse s = Some v \<Longrightarrow> strings_ok v"
  using parse_strings_aux by (fastforce simp: json_parse_def split: option.splits if_splits)

lemma strings_ok_member:
  "strings_ok_members ms \<Longrightarrow> (k, v) \<in> set ms \<Longrightarrow> valid_utf8 k \<and> strings_ok v"
  by (induction ms) auto

lemma valid_utf8_Cons_ascii [simp]: "byte c < 128 \<Longrightarrow> valid_utf8 (c # r) \<longleftrightarrow> valid_utf8 r"
  by (simp add: utf8_len_ascii)

declare valid_utf8.simps(2) [simp del]

end
