(* ===== verification/Go_Json_Struct.thy ===== *)
theory Go_Json_Struct
  imports Go_Json_Facts
begin

text \<open>
  How \<open>json.Unmarshal\<close> fills a struct. The members of the object are taken in order; each is
  assigned to the field whose name it matches, exactly or else by case folding, and ignored if
  there is none. \<open>null\<close> leaves a plain field alone and sets a pointer to nil. A value of the
  wrong type makes the call fail. Fields are independent of each other, so each getter below
  computes one field from the list of members.
\<close>

section \<open>Matching member names\<close>

text \<open>The folding of \<open>encoding/json\<close> maps ASCII letters to upper case; besides, the Kelvin
  sign folds to K and the long s to S.\<close>

fun fold_name :: "string \<Rightarrow> string" where
  "fold_name [] = []"
| "fold_name (c # r) =
     (if has_prefix [CHR 0xE2, CHR 0x84, CHR 0xAA] (c # r) then CHR ''K'' # fold_name (drop 2 r)
      else if has_prefix [CHR 0xC5, CHR 0xBF] (c # r) then CHR ''S'' # fold_name (drop 1 r)
      else upper_char c # fold_name r)"

definition matches :: "string list \<Rightarrow> string \<Rightarrow> string \<Rightarrow> bool" where
  "matches names n k \<longleftrightarrow> k = n \<or> (k \<notin> set names \<and> fold_name k = fold_name n)"

definition member_vals :: "string list \<Rightarrow> string \<Rightarrow> (string \<times> json) list \<Rightarrow> json list" where
  "member_vals names n ms = map snd [kv \<leftarrow> ms. matches names n (fst kv)]"

section \<open>Field values\<close>

fun as_string :: "json \<Rightarrow> string option" where
  "as_string (JStr s) = Some s"
| "as_string _ = None"

fun as_int :: "json \<Rightarrow> int option" where
  "as_int (JNum l) = parse_int l"
| "as_int _ = None"

fun as_bool :: "json \<Rightarrow> bool option" where
  "as_bool (JBool b) = Some b"
| "as_bool _ = None"

text \<open>A plain field: starts at its current value and is overwritten by each non-null member.\<close>

fun plain_field :: "(json \<Rightarrow> 'v option) \<Rightarrow> 'v \<Rightarrow> json list \<Rightarrow> 'v option" where
  "plain_field conv d [] = Some d"
| "plain_field conv d (v # vs) =
     (if v = JNull then plain_field conv d vs
      else (case conv v of None \<Rightarrow> None | Some x \<Rightarrow> plain_field conv x vs))"

text \<open>A pointer field.\<close>

fun ptr_field :: "(json \<Rightarrow> 'v option) \<Rightarrow> 'v option \<Rightarrow> json list \<Rightarrow> 'v option option" where
  "ptr_field conv d [] = Some d"
| "ptr_field conv d (v # vs) =
     (if v = JNull then ptr_field conv None vs
      else (case conv v of None \<Rightarrow> None | Some x \<Rightarrow> ptr_field conv (Some x) vs))"

text \<open>A \<open>json.RawMessage\<close> field keeps the text of the member's value. The services only pass it
  to \<open>json.Unmarshal\<close> again, so it is modelled by the value itself; nil is \<open>None\<close>.\<close>

definition raw_field :: "json list \<Rightarrow> json option" where
  "raw_field vs = (if vs = [] then None else Some (last vs))"

definition get_string :: "string list \<Rightarrow> (string \<times> json) list \<Rightarrow> string \<Rightarrow> string option" where
  "get_string names ms n = plain_field as_string '''' (member_vals names n ms)"

definition get_int :: "string list \<Rightarrow> (string \<times> json) list \<Rightarrow> string \<Rightarrow> int option" where
  "get_int names ms n = plain_field as_int 0 (member_vals names n ms)"

definition get_bool :: "string list \<Rightarrow> (string \<times> json) list \<Rightarrow> string \<Rightarrow> bool option" where
  "get_bool names ms n = plain_field as_bool False (member_vals names n ms)"

definition ptr_string :: "string list \<Rightarrow> (string \<times> json) list \<Rightarrow> string \<Rightarrow> string option option" where
  "ptr_string names ms n = ptr_field as_string None (member_vals names n ms)"

definition ptr_int :: "string list \<Rightarrow> (string \<times> json) list \<Rightarrow> string \<Rightarrow> int option option" where
  "ptr_int names ms n = ptr_field as_int None (member_vals names n ms)"

definition ptr_bool :: "string list \<Rightarrow> (string \<times> json) list \<Rightarrow> string \<Rightarrow> bool option option" where
  "ptr_bool names ms n = ptr_field as_bool None (member_vals names n ms)"

definition get_raw :: "string list \<Rightarrow> (string \<times> json) list \<Rightarrow> string \<Rightarrow> json option" where
  "get_raw names ms n = raw_field (member_vals names n ms)"

text \<open>Unmarshalling \<open>null\<close> into a struct leaves it alone; anything but an object is an error.\<close>

definition object_members :: "json \<Rightarrow> (string \<times> json) list option" where
  "object_members v = (case v of JNull \<Rightarrow> Some [] | JObj ms \<Rightarrow> Some ms | _ \<Rightarrow> None)"

section \<open>Compact\<close>

text \<open>\<open>json.Marshal\<close> of a \<open>json.RawMessage\<close> checks the text and copies it without the white
  space outside strings and with the HTML-sensitive characters escaped. The flags say whether
  the position is inside a string and after a backslash.\<close>

fun compact :: "bool \<Rightarrow> bool \<Rightarrow> string \<Rightarrow> string" where
  "compact q e [] = []"
| "compact q e (c # r) =
     (if \<not> q \<and> is_ws c then compact q False r
      else if c = CHR 0x26 \<or> c = CHR 0x3C \<or> c = CHR 0x3E then
        [CHR 0x5C, CHR ''u'', CHR ''0'', CHR ''0'', hex_char (byte c div 16), hex_char (byte c mod 16)]
          @ compact q False r
      else if line_sep (c # r) then escape_line_sep (c # r) @ compact q False (drop 2 r)
      else c # compact (if c = CHR 0x22 \<and> \<not> e then \<not> q else q) (q \<and> c = CHR 0x5C \<and> \<not> e) r)"

definition marshal_raw :: "string \<Rightarrow> go_error + string" where
  "marshal_raw t = (case json_parse t of None \<Rightarrow> Inl ErrJson | Some _ \<Rightarrow> Inr (compact False False t))"

section \<open>Facts\<close>

text \<open>No name of the object differs from a field name only by case.\<close>

definition no_clash :: "string list \<Rightarrow> string set \<Rightarrow> bool" where
  "no_clash names ks \<longleftrightarrow>
     (\<forall>k \<in> ks. k \<in> set names \<or> (\<forall>n \<in> set names. fold_name k \<noteq> fold_name n))"

lemma member_vals_map_of:
  assumes "distinct (map fst ms)" "no_clash names (fst ` set ms)" "n \<in> set names"
  shows "member_vals names n ms = (case map_of ms n of None \<Rightarrow> [] | Some v \<Rightarrow> [v])"
proof -
  have "matches names n k \<longleftrightarrow> k = n" if "k \<in> fst ` set ms" for k
    using assms(2,3) that by (auto simp: matches_def no_clash_def)
  then have "[kv \<leftarrow> ms. matches names n (fst kv)] = [kv \<leftarrow> ms. fst kv = n]"
    by (intro filter_cong) auto
  moreover have "map snd [kv \<leftarrow> ms. fst kv = n] = (case map_of ms n of None \<Rightarrow> [] | Some v \<Rightarrow> [v])"
    using assms(1) by (induction ms) (auto simp: filter_empty_conv split: option.splits
        dest: map_of_eq_None_iff [THEN iffD1] intro: rev_image_eqI)
  ultimately show ?thesis by (simp add: member_vals_def)
qed

lemma plain_field_valid:
  assumes "plain_field as_string d vs = Some s" "valid_utf8 d" "\<And>v. v \<in> set vs \<Longrightarrow> strings_ok v"
  shows "valid_utf8 s"
  using assms
proof (induction vs arbitrary: d)
  case (Cons v vs)
  have "strings_ok v" using Cons.prems(3) by simp
  with Cons show ?case by (cases v) (auto split: if_splits)
qed simp

lemma plain_field_range:
  assumes "plain_field as_int d vs = Some i" "in_i64 d"
  shows "in_i64 i"
  using assms
proof (induction vs arbitrary: d)
  case (Cons v vs)
  then show ?case by (cases v) (auto split: if_splits option.splits dest: parse_int_range)
qed simp

lemma ptr_field_valid:
  assumes "ptr_field as_string d vs = Some (Some s)" "\<forall>x. d = Some x \<longrightarrow> valid_utf8 x"
    "\<And>v. v \<in> set vs \<Longrightarrow> strings_ok v"
  shows "valid_utf8 s"
  using assms
proof (induction vs arbitrary: d)
  case (Cons v vs)
  have "strings_ok v" using Cons.prems(3) by simp
  with Cons show ?case by (cases v) (auto split: if_splits)
qed simp

lemma ptr_field_range:
  assumes "ptr_field as_int d vs = Some (Some i)" "\<forall>x. d = Some x \<longrightarrow> in_i64 x"
  shows "in_i64 i"
  using assms
proof (induction vs arbitrary: d)
  case (Cons v vs)
  then show ?case by (cases v) (auto split: if_splits option.splits dest: parse_int_range)
qed simp

lemma member_vals_ok:
  "strings_ok_members ms \<Longrightarrow> v \<in> set (member_vals names n ms) \<Longrightarrow> strings_ok v"
  by (auto simp: member_vals_def dest: strings_ok_member)

text \<open>What the getters return is well-formed: valid UTF-8 and 64-bit integers.\<close>

lemma get_string_valid:
  "get_string names ms n = Some s \<Longrightarrow> strings_ok_members ms \<Longrightarrow> valid_utf8 s"
  unfolding get_string_def by (rule plain_field_valid) (auto intro: member_vals_ok)

lemma get_int_range: "get_int names ms n = Some i \<Longrightarrow> in_i64 i"
  unfolding get_int_def by (rule plain_field_range) (auto simp: in_i64_def)

lemma ptr_string_valid:
  "ptr_string names ms n = Some (Some s) \<Longrightarrow> strings_ok_members ms \<Longrightarrow> valid_utf8 s"
  unfolding ptr_string_def by (rule ptr_field_valid) (auto intro: member_vals_ok)

lemma ptr_int_range: "ptr_int names ms n = Some (Some i) \<Longrightarrow> in_i64 i"
  unfolding ptr_int_def by (rule ptr_field_range) auto

lemma get_raw_ok: "get_raw names ms n = Some v \<Longrightarrow> strings_ok_members ms \<Longrightarrow> strings_ok v"
  by (auto simp: get_raw_def raw_field_def split: if_splits intro!: member_vals_ok [OF _ last_in_set])

lemma object_members_ok: "object_members v = Some ms \<Longrightarrow> strings_ok v \<Longrightarrow> strings_ok_members ms"
  by (auto simp: object_members_def split: json.splits)

end
