(* ===== verification/Rmu_Domain.thy ===== *)
theory Rmu_Domain
  imports Go_Json_Struct
begin

text \<open>
  The data of the read-model updater (\<open>read-model-updater/domain\<close>): event types, events and
  their payloads as \<open>encoding/json\<close> decodes them (\<open>events.go\<close>), and the table entities with
  their JSON form (\<open>entities.go\<close>). The lemmas show that everything decoded is well-formed and
  that the JSON of an entity is read back.
\<close>

section \<open>Events (events.go)\<close>

definition TaskCreated :: string where [simp]: "TaskCreated = ''task-created''"
definition TaskUpdated :: string where [simp]: "TaskUpdated = ''task-updated''"
definition TaskCompleted :: string where [simp]: "TaskCompleted = ''task-completed''"
definition TaskReopened :: string where [simp]: "TaskReopened = ''task-reopened''"
definition UserCreated :: string where [simp]: "UserCreated = ''user-created''"
definition UserLoggedIn :: string where [simp]: "UserLoggedIn = ''user-logged-in''"
definition UserLoggedOut :: string where [simp]: "UserLoggedOut = ''user-logged-out''"
definition UserSettingsCreated :: string where
  [simp]: "UserSettingsCreated = ''user-settings-created''"
definition UserSettingsUpdated :: string where
  [simp]: "UserSettingsUpdated = ''user-settings-updated''"

record event =
  ev_ID :: string
  ev_EntityID :: string
  ev_EntityType :: string
  ev_Type :: string
  ev_Data :: "json option"
  ev_Timestamp :: int
  ev_UserID :: string

record user_event_data =
  ue_Name :: string
  ue_Email :: string

record task_created_event_data =
  tc_Title :: string
  tc_Notes :: string
  tc_Category :: string
  tc_Order :: int

record task_updated_event_data =
  tu_Title :: "string option"
  tu_Notes :: "string option"
  tu_Category :: "string option"
  tu_Order :: "int option"
  tu_Done :: "bool option"

record user_settings_event_data =
  us_TasksPerCategory :: int
  us_ShowDoneTasks :: bool

record user_settings_updated_event_data =
  uu_TasksPerCategory :: "int option"
  uu_ShowDoneTasks :: "bool option"

text \<open>\<open>json.Unmarshal\<close> of a text, and of a raw message (a nil message is no JSON text).\<close>

definition unmarshal_text :: "(json \<Rightarrow> 'a option) \<Rightarrow> string \<Rightarrow> go_error + 'a" where
  "unmarshal_text dec t =
     (case json_parse t of
        None \<Rightarrow> Inl ErrJson
      | Some v \<Rightarrow> (case dec v of None \<Rightarrow> Inl ErrJson | Some x \<Rightarrow> Inr x))"

definition unmarshal_raw :: "(json \<Rightarrow> 'a option) \<Rightarrow> json option \<Rightarrow> go_error + 'a" where
  "unmarshal_raw dec raw =
     (case raw of
        None \<Rightarrow> Inl ErrJson
      | Some v \<Rightarrow> (case dec v of None \<Rightarrow> Inl ErrJson | Some x \<Rightarrow> Inr x))"

definition event_names :: "string list" where
  "event_names =
     [''Id'', ''EntityId'', ''EntityType'', ''Type'', ''Data'', ''Timestamp'', ''UserId'']"

definition decode_event :: "json \<Rightarrow> event option" where
  "decode_event v = do {
     ms \<leftarrow> object_members v;
     i \<leftarrow> get_string event_names ms ''Id'';
     ei \<leftarrow> get_string event_names ms ''EntityId'';
     et \<leftarrow> get_string event_names ms ''EntityType'';
     ty \<leftarrow> get_string event_names ms ''Type'';
     ts \<leftarrow> get_int event_names ms ''Timestamp'';
     u \<leftarrow> get_string event_names ms ''UserId'';
     Some \<lparr>ev_ID = i, ev_EntityID = ei, ev_EntityType = et, ev_Type = ty,
           ev_Data = get_raw event_names ms ''Data'', ev_Timestamp = ts, ev_UserID = u\<rparr>
   }"

definition decode_user_event_data :: "json \<Rightarrow> user_event_data option" where
  "decode_user_event_data v = do {
     ms \<leftarrow> object_members v;
     n \<leftarrow> get_string [''name'', ''email''] ms ''name'';
     e \<leftarrow> get_string [''name'', ''email''] ms ''email'';
     Some \<lparr>ue_Name = n, ue_Email = e\<rparr>
   }"

definition task_data_names :: "string list" where
  "task_data_names = [''title'', ''notes'', ''category'', ''order'']"

definition decode_task_created :: "json \<Rightarrow> task_created_event_data option" where
  "decode_task_created v = do {
     ms \<leftarrow> object_members v;
     t \<leftarrow> get_string task_data_names ms ''title'';
     n \<leftarrow> get_string task_data_names ms ''notes'';
     c \<leftarrow> get_string task_data_names ms ''category'';
     r \<leftarrow> get_int task_data_names ms ''order'';
     Some \<lparr>tc_Title = t, tc_Notes = n, tc_Category = c, tc_Order = r\<rparr>
   }"

definition task_updated_names :: "string list" where
  "task_updated_names = [''title'', ''notes'', ''category'', ''order'', ''done'']"

definition decode_task_updated :: "json \<Rightarrow> task_updated_event_data option" where
  "decode_task_updated v = do {
     ms \<leftarrow> object_members v;
     t \<leftarrow> ptr_string task_updated_names ms ''title'';
     n \<leftarrow> ptr_string task_updated_names ms ''notes'';
     c \<leftarrow> ptr_string task_updated_names ms ''category'';
     r \<leftarrow> ptr_int task_updated_names ms ''order'';
     d \<leftarrow> ptr_bool task_updated_names ms ''done'';
     Some \<lparr>tu_Title = t, tu_Notes = n, tu_Category = c, tu_Order = r, tu_Done = d\<rparr>
   }"

definition settings_names :: "string list" where
  "settings_names = [''tasksPerCategory'', ''showDoneTasks'']"

definition decode_user_settings :: "json \<Rightarrow> user_settings_event_data option" where
  "decode_user_settings v = do {
     ms \<leftarrow> object_members v;
     t \<leftarrow> get_int settings_names ms ''tasksPerCategory'';
     s \<leftarrow> get_bool settings_names ms ''showDoneTasks'';
     Some \<lparr>us_TasksPerCategory = t, us_ShowDoneTasks = s\<rparr>
   }"

definition decode_user_settings_updated :: "json \<Rightarrow> user_settings_updated_event_data option" where
  "decode_user_settings_updated v = do {
     ms \<leftarrow> object_members v;
     t \<leftarrow> ptr_int settings_names ms ''tasksPerCategory'';
     s \<leftarrow> ptr_bool settings_names ms ''showDoneTasks'';
     Some \<lparr>uu_TasksPerCategory = t, uu_ShowDoneTasks = s\<rparr>
   }"

section \<open>Entities (entities.go)\<close>

record task_entity =
  te_PartitionKey :: string
  te_RowKey :: string
  te_Title :: string
  te_Notes :: string
  te_Category :: string
  te_Order :: int
  te_Done :: bool
  te_EventTimestamp :: int
  te_ETag :: string

record task_update =
  tup_PartitionKey :: string
  tup_RowKey :: string
  tup_Title :: "string option"
  tup_Notes :: "string option"
  tup_Category :: "string option"
  tup_Order :: "int option"
  tup_Done :: "bool option"
  tup_EventTimestamp :: "int option"

record user_entity =
  ue_PartitionKey :: string
  ue_RowKey :: string
  ue_EntName :: string
  ue_EntEmail :: string

record user_settings_entity =
  se_PartitionKey :: string
  se_RowKey :: string
  se_TasksPerCategory :: int
  se_ShowDoneTasks :: bool
  se_EventTimestamp :: int

record user_settings_update =
  su_PartitionKey :: string
  su_RowKey :: string
  su_TasksPerCategory :: "int option"
  su_ShowDoneTasks :: "bool option"
  su_EventTimestamp :: "int option"

text \<open>\<open>json.Marshal\<close>: \<open>omitempty\<close> leaves out an empty string or a nil pointer; the option
  \<open>string\<close> writes an integer as a quoted decimal.\<close>

definition omit_empty :: "string \<Rightarrow> string \<Rightarrow> (string \<times> json) list" where
  "omit_empty n s = (if s = '''' then [] else [(n, JStr s)])"

definition omit_nil :: "string \<Rightarrow> ('v \<Rightarrow> json) \<Rightarrow> 'v option \<Rightarrow> (string \<times> json) list" where
  "omit_nil n f p = (case p of None \<Rightarrow> [] | Some x \<Rightarrow> [(n, f x)])"

definition JInt :: "int \<Rightarrow> json" where
  "JInt i = JNum (itoa i)"

definition JIntStr :: "int \<Rightarrow> json" where
  "JIntStr i = JStr (itoa i)"

definition task_entity_members :: "task_entity \<Rightarrow> (string \<times> json) list" where
  "task_entity_members e =
     [(''PartitionKey'', JStr (te_PartitionKey e)), (''RowKey'', JStr (te_RowKey e))]
     @ omit_empty ''Title'' (te_Title e) @ omit_empty ''Notes'' (te_Notes e)
     @ omit_empty ''Category'' (te_Category e)
     @ [(''Order'', JInt (te_Order e)), (''Done'', JBool (te_Done e)),
        (''EventTimestamp'', JIntStr (te_EventTimestamp e))]"

definition task_update_members :: "task_update \<Rightarrow> (string \<times> json) list" where
  "task_update_members u =
     [(''PartitionKey'', JStr (tup_PartitionKey u)), (''RowKey'', JStr (tup_RowKey u))]
     @ omit_nil ''Title'' JStr (tup_Title u) @ omit_nil ''Notes'' JStr (tup_Notes u)
     @ omit_nil ''Category'' JStr (tup_Category u) @ omit_nil ''Order'' JInt (tup_Order u)
     @ omit_nil ''Done'' JBool (tup_Done u) @ omit_nil ''EventTimestamp'' JIntStr (tup_EventTimestamp u)"

definition user_entity_members :: "user_entity \<Rightarrow> (string \<times> json) list" where
  "user_entity_members e =
     [(''PartitionKey'', JStr (ue_PartitionKey e)), (''RowKey'', JStr (ue_RowKey e))]
     @ omit_empty ''Name'' (ue_EntName e) @ omit_empty ''Email'' (ue_EntEmail e)"

definition user_settings_members :: "user_settings_entity \<Rightarrow> (string \<times> json) list" where
  "user_settings_members e =
     [(''PartitionKey'', JStr (se_PartitionKey e)), (''RowKey'', JStr (se_RowKey e)),
      (''TasksPerCategory'', JInt (se_TasksPerCategory e)),
      (''ShowDoneTasks'', JBool (se_ShowDoneTasks e)),
      (''EventTimestamp'', JIntStr (se_EventTimestamp e))]"

definition user_settings_update_members :: "user_settings_update \<Rightarrow> (string \<times> json) list" where
  "user_settings_update_members u =
     [(''PartitionKey'', JStr (su_PartitionKey u)), (''RowKey'', JStr (su_RowKey u))]
     @ omit_nil ''TasksPerCategory'' JInt (su_TasksPerCategory u)
     @ omit_nil ''ShowDoneTasks'' JBool (su_ShowDoneTasks u)
     @ omit_nil ''EventTimestamp'' JIntStr (su_EventTimestamp u)"

section \<open>Facts\<close>

lemma unmarshal_text_Inr:
  "unmarshal_text dec t = Inr x \<longleftrightarrow> (\<exists>v. json_parse t = Some v \<and> dec v = Some x)"
  by (auto simp: unmarshal_text_def split: option.splits)

lemma unmarshal_raw_Inr:
  "unmarshal_raw dec raw = Inr x \<longleftrightarrow> (\<exists>v. raw = Some v \<and> dec v = Some x)"
  by (auto simp: unmarshal_raw_def split: option.splits)

text \<open>The strings and integers of an event that came from JSON are well-formed.\<close>

definition event_ok :: "event \<Rightarrow> bool" where
  "event_ok ev \<longleftrightarrow>
     valid_utf8 (ev_ID ev) \<and> valid_utf8 (ev_EntityID ev) \<and> valid_utf8 (ev_EntityType ev) \<and>
     valid_utf8 (ev_Type ev) \<and> valid_utf8 (ev_UserID ev) \<and> in_i64 (ev_Timestamp ev) \<and>
     (\<forall>v. ev_Data ev = Some v \<longrightarrow> strings_ok v)"

lemma decode_event_ok:
  assumes "decode_event v = Some ev" "strings_ok v"
  shows "event_ok ev"
  using assms
  by (auto simp: decode_event_def event_ok_def bind_eq_Some_conv dest: object_members_ok
      intro: get_string_valid get_int_range get_raw_ok)

lemma unmarshal_event_ok: "unmarshal_text decode_event t = Inr ev \<Longrightarrow> event_ok ev"
  by (auto simp: unmarshal_text_Inr intro: decode_event_ok json_parse_strings_ok)

lemma decode_task_created_ok:
  assumes "decode_task_created v = Some d" "strings_ok v"
  shows "valid_utf8 (tc_Title d)" "valid_utf8 (tc_Notes d)" "valid_utf8 (tc_Category d)"
    "in_i64 (tc_Order d)"
  using assms
  by (auto simp: decode_task_created_def bind_eq_Some_conv dest: object_members_ok
      intro: get_string_valid get_int_range)

lemma decode_task_updated_ok:
  assumes "decode_task_updated v = Some d" "strings_ok v"
  shows "tu_Title d = Some s \<Longrightarrow> valid_utf8 s" "tu_Notes d = Some s \<Longrightarrow> valid_utf8 s"
    "tu_Category d = Some s \<Longrightarrow> valid_utf8 s" "tu_Order d = Some i \<Longrightarrow> in_i64 i"
  using assms
  by (auto simp: decode_task_updated_def bind_eq_Some_conv dest: object_members_ok
      intro: ptr_string_valid ptr_int_range)

lemma decode_user_settings_ok:
  "decode_user_settings v = Some d \<Longrightarrow> in_i64 (us_TasksPerCategory d)"
  by (auto simp: decode_user_settings_def bind_eq_Some_conv intro: get_int_range)

lemma decode_user_settings_updated_ok:
  "decode_user_settings_updated v = Some d \<Longrightarrow> uu_TasksPerCategory d = Some i \<Longrightarrow> in_i64 i"
  by (auto simp: decode_user_settings_updated_def bind_eq_Some_conv intro: ptr_int_range)

text \<open>Well-formed entities and updates: their JSON text is read back.\<close>

definition task_entity_ok :: "task_entity \<Rightarrow> bool" where
  "task_entity_ok e \<longleftrightarrow>
     valid_utf8 (te_PartitionKey e) \<and> valid_utf8 (te_RowKey e) \<and> valid_utf8 (te_Title e) \<and>
     valid_utf8 (te_Notes e) \<and> valid_utf8 (te_Category e) \<and> in_i64 (te_Order e) \<and>
     in_i64 (te_EventTimestamp e)"

definition opt_all :: "('v \<Rightarrow> bool) \<Rightarrow> 'v option \<Rightarrow> bool" where
  "opt_all P x \<longleftrightarrow> (case x of None \<Rightarrow> True | Some y \<Rightarrow> P y)"

definition task_update_ok :: "task_update \<Rightarrow> bool" where
  "task_update_ok u \<longleftrightarrow>
     valid_utf8 (tup_PartitionKey u) \<and> valid_utf8 (tup_RowKey u) \<and>
     opt_all valid_utf8 (tup_Title u) \<and> opt_all valid_utf8 (tup_Notes u) \<and>
     opt_all valid_utf8 (tup_Category u) \<and> opt_all in_i64 (tup_Order u) \<and>
     opt_all in_i64 (tup_EventTimestamp u)"

lemma members_ok_append [simp]: "members_ok (xs @ ys) \<longleftrightarrow> members_ok xs \<and> members_ok ys"
  by (induction xs) auto

lemma mdepth_append [simp]: "mdepth (xs @ ys) = max (mdepth xs) (mdepth ys)"
  by (induction xs) (auto simp: depth_nonneg)

lemma itoa_ascii: "c \<in> set (itoa i) \<Longrightarrow> byte c < 128"
proof -
  assume c: "c \<in> set (itoa i)"
  have "byte c < 128" if "is_digit c" using that by (simp add: is_digit_def)
  with c show ?thesis
    using digits10_chars [of i c] digits10_chars [of "- i" c]
    by (auto simp: format_int_def split: if_splits)
qed

lemma valid_utf8_itoa [simp]: "valid_utf8 (itoa i)"
  by (rule valid_utf8_ascii) (rule itoa_ascii)

lemma json_ok_JInt [simp]: "json_ok (JInt i)" "json_ok (JIntStr i)" "jdepth (JInt i) = 0"
  "jdepth (JIntStr i) = 0"
  by (auto simp: JInt_def JIntStr_def)

lemma omit_empty_ok [simp]:
  "members_ok (omit_empty n s) \<longleftrightarrow> (s \<noteq> '''' \<longrightarrow> valid_utf8 n \<and> valid_utf8 s)"
  "mdepth (omit_empty n s) = 0"
  by (auto simp: omit_empty_def)

lemma omit_nil_ok [simp]:
  "members_ok (omit_nil n f p) \<longleftrightarrow> opt_all (\<lambda>x. valid_utf8 n \<and> json_ok (f x)) p"
  "(\<And>x. jdepth (f x) = 0) \<Longrightarrow> mdepth (omit_nil n f p) = 0"
  by (auto simp: omit_nil_def opt_all_def split: option.splits)

lemma parse_members:
  "members_ok ms \<Longrightarrow> mdepth ms < max_nesting \<Longrightarrow> json_parse (json_print (JObj ms)) = Some (JObj ms)"
  by (rule json_parse_print) auto

lemma parse_task_entity:
  "task_entity_ok e \<Longrightarrow>
   json_parse (json_print (JObj (task_entity_members e))) = Some (JObj (task_entity_members e))"
  by (rule parse_members)
    (auto simp: task_entity_members_def task_entity_ok_def max_nesting_def)

lemma parse_task_update:
  "task_update_ok u \<Longrightarrow>
   json_parse (json_print (JObj (task_update_members u))) = Some (JObj (task_update_members u))"
  by (rule parse_members)
    (auto simp: task_update_members_def task_update_ok_def max_nesting_def opt_all_def
      split: option.splits)

end
