(* ===== verification/Table_Client.thy ===== *)
theory Table_Client
  imports Rmu_Domain "HOL-Library.List_Lexorder"
begin

text \<open>
  The Azure Tables client (\<open>aztables.Client\<close>) is third-party code: a value of type
  \<open>'w table_client\<close>, whose operations act on the outside world \<open>'w\<close>, is an argument of every
  definition that calls it. The locale \<open>azure_table\<close> states the documented behaviour the services
  rely on: optimistic concurrency with ETags, insertion that refuses an existing key, merging
  updates, and rejected requests that change nothing. A reference table, which satisfies these
  laws, shows that they are consistent; witnesses run on it.
\<close>

section \<open>The client\<close>

record list_page =
  lp_Entities :: "string list"
  lp_NextPartitionKey :: "string option"
  lp_NextRowKey :: "string option"

text \<open>\<open>GetEntity\<close> returns the entity as a JSON text with its ETag. \<open>UpdateEntity\<close> is the call in
  merge mode with an \<open>If-Match\<close> value. \<open>ListPage\<close> is \<open>NewListEntitiesPager\<close> followed by one
  \<open>NextPage\<close>: filter, select clause, page size and continuation keys; \<open>None\<close> if the pager has
  no page.\<close>

record 'w table_client =
  GetEntity :: "string \<Rightarrow> string \<Rightarrow> 'w \<Rightarrow> (go_error + string \<times> string) \<times> 'w"
  AddEntity :: "string \<Rightarrow> 'w \<Rightarrow> go_error option \<times> 'w"
  UpdateEntity :: "string \<Rightarrow> string \<Rightarrow> 'w \<Rightarrow> go_error option \<times> 'w"
  UpsertEntity :: "string \<Rightarrow> 'w \<Rightarrow> go_error option \<times> 'w"
  ListPage :: "string \<Rightarrow> string \<Rightarrow> int \<Rightarrow> string option \<Rightarrow> string option \<Rightarrow> 'w \<Rightarrow>
                 (go_error + list_page) option \<times> 'w"

definition ETagAny :: string where
  "ETagAny = ''*''"

section \<open>The documented behaviour\<close>

type_synonym props = "string \<rightharpoonup> json"
type_synonym key = "string \<times> string"
type_synonym table = "key \<rightharpoonup> props \<times> string"

text \<open>Names that the service adds to an entity: OData annotations, which contain a dot, and the
  system property \<open>Timestamp\<close>.\<close>

definition is_meta :: "string \<Rightarrow> bool" where
  "is_meta n \<longleftrightarrow> CHR ''.'' \<in> set n \<or> n = ''Timestamp''"

definition members_key :: "(string \<times> json) list \<Rightarrow> key \<Rightarrow> bool" where
  "members_key ms k \<longleftrightarrow> distinct (map fst ms) \<and>
     map_of ms ''PartitionKey'' = Some (JStr (fst k)) \<and> map_of ms ''RowKey'' = Some (JStr (snd k))"

text \<open>\<open>tbl w\<close> is the content of the table, \<open>issued w\<close> the ETags handed out so far: the service
  never reuses one. The error value \<open>ErrConcurrencyConflict\<close> is created by the storage package
  only, never by the client.\<close>

locale azure_table =
  fixes cl :: "'w table_client"
    and tbl :: "'w \<Rightarrow> table"
    and issued :: "'w \<Rightarrow> string set"
    and tinv :: "'w \<Rightarrow> bool"
  assumes current: "tinv w \<Longrightarrow> tbl w k = Some (p, et) \<Longrightarrow> et \<in> issued w \<and> et \<noteq> '''' \<and> et \<noteq> ETagAny"
    and get_ok: "tinv w \<Longrightarrow> GetEntity cl pk rk w = (Inr (val, et), w') \<Longrightarrow>
        tinv w' \<and> tbl w' = tbl w \<and> issued w' = issued w \<and>
        (\<exists>vs p. tbl w (pk, rk) = Some (p, et) \<and> json_parse val = Some (JObj vs) \<and>
           distinct (map fst vs) \<and> (\<forall>n. \<not> is_meta n \<longrightarrow> map_of vs n = p n))"
    and get_err: "tinv w \<Longrightarrow> GetEntity cl pk rk w = (Inl e, w') \<Longrightarrow>
        tinv w' \<and> tbl w' = tbl w \<and> issued w' = issued w \<and>
        (has_status 404 e \<longrightarrow> tbl w (pk, rk) = None)"
    and add_ok: "tinv w \<Longrightarrow> AddEntity cl payload w = (None, w') \<Longrightarrow>
        json_parse payload = Some (JObj ms) \<Longrightarrow> members_key ms k \<Longrightarrow>
        tinv w' \<and> tbl w k = None \<and>
        (\<exists>et. et \<notin> issued w \<and> issued w' = insert et (issued w) \<and>
           tbl w' = (tbl w)(k \<mapsto> (map_of ms, et)))"
    and add_err: "tinv w \<Longrightarrow> AddEntity cl payload w = (Some e, w') \<Longrightarrow>
        tinv w' \<and> tbl w' = tbl w \<and> issued w' = issued w"
    and upd_ok: "tinv w \<Longrightarrow> UpdateEntity cl payload im w = (None, w') \<Longrightarrow>
        json_parse payload = Some (JObj ms) \<Longrightarrow> members_key ms k \<Longrightarrow>
        tinv w' \<and>
        (\<exists>p et0 et. tbl w k = Some (p, et0) \<and> (im = ETagAny \<or> im = et0) \<and>
           et \<notin> issued w \<and> issued w' = insert et (issued w) \<and>
           tbl w' = (tbl w)(k \<mapsto> (p ++ map_of ms, et)))"
    and upd_err: "tinv w \<Longrightarrow> UpdateEntity cl payload im w = (Some e, w') \<Longrightarrow>
        tinv w' \<and> tbl w' = tbl w \<and> issued w' = issued w \<and> e \<noteq> ErrConcurrencyConflict"
    and upd_conflict: "tinv w \<Longrightarrow> UpdateEntity cl payload im w = (Some e, w') \<Longrightarrow>
        has_status 412 e \<Longrightarrow> json_parse payload = Some (JObj ms) \<Longrightarrow> members_key ms k \<Longrightarrow>
        (\<exists>p et0. tbl w k = Some (p, et0) \<and> im \<noteq> ETagAny \<and> im \<noteq> et0)"
    and ups_ok: "tinv w \<Longrightarrow> UpsertEntity cl payload w = (None, w') \<Longrightarrow>
        json_parse payload = Some (JObj ms) \<Longrightarrow> members_key ms k \<Longrightarrow>
        tinv w' \<and>
        (\<exists>p et. et \<notin> issued w \<and> issued w' = insert et (issued w) \<and>
           tbl w' = (tbl w)(k \<mapsto> (p, et)) \<and>
           (p = map_of ms \<or> (\<exists>p0 et0. tbl w k = Some (p0, et0) \<and> p = p0 ++ map_of ms)))"
    and ups_err: "tinv w \<Longrightarrow> UpsertEntity cl payload w = (Some e, w') \<Longrightarrow>
        tinv w' \<and> tbl w' = tbl w \<and> issued w' = issued w"

section \<open>A reference table\<close>

text \<open>Rows in the order of insertion, with a counter that numbers the ETags.\<close>

record ref_table =
  rt_rows :: "(key \<times> (string \<times> json) list \<times> nat) list"
  rt_next :: nat

definition empty_table :: ref_table where
  "empty_table = \<lparr>rt_rows = [], rt_next = 0\<rparr>"

definition etag_of :: "nat \<Rightarrow> string" where
  "etag_of n = ''W/'' @ itoa (int n)"

definition merge_members ::
  "(string \<times> json) list \<Rightarrow> (string \<times> json) list \<Rightarrow> (string \<times> json) list" where
  "merge_members ms0 ms = [kv \<leftarrow> ms0. fst kv \<notin> fst ` set ms] @ ms"

text \<open>Payloads the reference table accepts: flat objects of strings, integers and booleans under
  names that are not annotations, with both keys, which are neither empty nor longer than 1024
  bytes. Anything else is answered with status 400.\<close>

definition key_ok :: "key \<Rightarrow> bool" where
  "key_ok k \<longleftrightarrow> fst k \<noteq> '''' \<and> snd k \<noteq> '''' \<and> length (fst k) \<le> 1024 \<and> length (snd k) \<le> 1024"

fun flat_value :: "json \<Rightarrow> bool" where
  "flat_value (JStr s) = valid_utf8 s"
| "flat_value (JNum l) = (case parse_int l of None \<Rightarrow> False | Some i \<Rightarrow> l = itoa i)"
| "flat_value (JBool b) = True"
| "flat_value _ = False"

definition accept :: "string \<Rightarrow> (key \<times> (string \<times> json) list) option" where
  "accept payload =
     (case json_parse payload of
        Some (JObj ms) \<Rightarrow>
          (if distinct (map fst ms) \<and>
              list_all (\<lambda>kv. \<not> is_meta (fst kv) \<and> valid_utf8 (fst kv) \<and> flat_value (snd kv)) ms
           then (case (map_of ms ''PartitionKey'', map_of ms ''RowKey'') of
                   (Some (JStr pk), Some (JStr rk)) \<Rightarrow>
                     (if key_ok (pk, rk) then Some ((pk, rk), ms) else None)
                 | _ \<Rightarrow> None)
           else None)
      | _ \<Rightarrow> None)"

definition rt_put :: "key \<Rightarrow> (string \<times> json) list \<Rightarrow> ref_table \<Rightarrow> ref_table" where
  "rt_put k ms t =
     \<lparr>rt_rows = (k, ms, rt_next t) # [row \<leftarrow> rt_rows t. fst row \<noteq> k], rt_next = Suc (rt_next t)\<rparr>"

definition rt_text :: "(string \<times> json) list \<Rightarrow> nat \<Rightarrow> string" where
  "rt_text ms n = json_print (JObj ((''odata.etag'', JStr (etag_of n)) # ms))"

definition rt_get :: "string \<Rightarrow> string \<Rightarrow> ref_table \<Rightarrow> go_error + string \<times> string" where
  "rt_get pk rk t =
     (case map_of (rt_rows t) (pk, rk) of
        None \<Rightarrow> Inl (ResponseError 404 ''ResourceNotFound'' ''not found'')
      | Some (ms, n) \<Rightarrow> Inr (rt_text ms n, etag_of n))"

definition bad_request :: go_error where
  "bad_request = ResponseError 400 ''InvalidInput'' ''bad request''"

definition rt_add :: "string \<Rightarrow> ref_table \<Rightarrow> go_error option \<times> ref_table" where
  "rt_add payload t =
     (case accept payload of
        None \<Rightarrow> (Some bad_request, t)
      | Some (k, ms) \<Rightarrow>
          (case map_of (rt_rows t) k of
             Some _ \<Rightarrow> (Some (ResponseError 409 ''EntityAlreadyExists'' ''exists''), t)
           | None \<Rightarrow> (None, rt_put k ms t)))"

definition rt_update :: "string \<Rightarrow> string \<Rightarrow> ref_table \<Rightarrow> go_error option \<times> ref_table" where
  "rt_update payload im t =
     (case accept payload of
        None \<Rightarrow> (Some bad_request, t)
      | Some (k, ms) \<Rightarrow>
          (case map_of (rt_rows t) k of
             None \<Rightarrow> (Some (ResponseError 404 ''ResourceNotFound'' ''not found''), t)
           | Some (ms0, n) \<Rightarrow>
               (if im = ETagAny \<or> im = etag_of n then (None, rt_put k (merge_members ms0 ms) t)
                else (Some (ResponseError 412 ''UpdateConditionNotSatisfied'' ''conflict''), t))))"

definition rt_upsert :: "string \<Rightarrow> ref_table \<Rightarrow> go_error option \<times> ref_table" where
  "rt_upsert payload t =
     (case accept payload of
        None \<Rightarrow> (Some bad_request, t)
      | Some (k, ms) \<Rightarrow>
          (case map_of (rt_rows t) k of
             None \<Rightarrow> (None, rt_put k ms t)
           | Some (ms0, _) \<Rightarrow> (None, rt_put k (merge_members ms0 ms) t)))"

text \<open>Listing one partition: rows with the partition key between the quotes of the filter, sorted
  by row key, from the continuation row key on.\<close>

definition filter_user :: "string \<Rightarrow> string" where
  "filter_user f = takeWhile (\<lambda>c. c \<noteq> CHR 0x27) (drop 17 f)"

definition rt_partition :: "string \<Rightarrow> ref_table \<Rightarrow> (string \<times> (string \<times> json) list) list" where
  "rt_partition pk t =
     sort_key (\<lambda>row. map byte (fst row))
       [(snd (fst row), fst (snd row)). row \<leftarrow> rt_rows t, fst (fst row) = pk]"

definition select_members :: "string \<Rightarrow> (string \<times> json) list \<Rightarrow> (string \<times> json) list" where
  "select_members sel ms = [kv \<leftarrow> ms. fst kv \<in> set (split_all CHR '','' sel)]"

definition rt_list ::
  "string \<Rightarrow> string \<Rightarrow> int \<Rightarrow> string option \<Rightarrow> ref_table \<Rightarrow> list_page" where
  "rt_list f sel n nrk t =
     (let pk = filter_user f;
          rows = rt_partition pk t;
          rest = (case nrk of None \<Rightarrow> rows | Some rk \<Rightarrow> dropWhile (\<lambda>row. fst row \<noteq> rk) rows);
          page = take (nat n) rest;
          after = drop (nat n) rest
      in \<lparr>lp_Entities = map (\<lambda>row. json_print (JObj (select_members sel (snd row)))) page,
          lp_NextPartitionKey = (if after = [] then None else Some pk),
          lp_NextRowKey = (if after = [] then None else Some (fst (hd after)))\<rparr>)"

text \<open>The client of a reference table that is a component of the world, reached by \<open>sel\<close> and
  \<open>put\<close>.\<close>

definition ref_client :: "('w \<Rightarrow> ref_table) \<Rightarrow> (ref_table \<Rightarrow> 'w \<Rightarrow> 'w) \<Rightarrow> 'w table_client" where
  "ref_client sel put =
     \<lparr>GetEntity = (\<lambda>pk rk w. (rt_get pk rk (sel w), w)),
      AddEntity = (\<lambda>payload w. case rt_add payload (sel w) of (r, t) \<Rightarrow> (r, put t w)),
      UpdateEntity = (\<lambda>payload im w. case rt_update payload im (sel w) of (r, t) \<Rightarrow> (r, put t w)),
      UpsertEntity = (\<lambda>payload w. case rt_upsert payload (sel w) of (r, t) \<Rightarrow> (r, put t w)),
      ListPage = (\<lambda>f s n npk nrk w. (Some (Inr (rt_list f s n nrk (sel w))), w))\<rparr>"

subsection \<open>The reference table satisfies the laws\<close>

definition rt_tbl :: "ref_table \<Rightarrow> table" where
  "rt_tbl t k = map_option (\<lambda>(ms, n). (map_of ms, etag_of n)) (map_of (rt_rows t) k)"

definition rt_issued :: "ref_table \<Rightarrow> string set" where
  "rt_issued t = etag_of ` {..< rt_next t}"

definition row_ok :: "(string \<times> json) list \<Rightarrow> bool" where
  "row_ok ms \<longleftrightarrow> distinct (map fst ms) \<and>
     (\<forall>kv \<in> set ms. \<not> is_meta (fst kv) \<and> valid_utf8 (fst kv) \<and> flat_value (snd kv))"

definition rt_inv :: "ref_table \<Rightarrow> bool" where
  "rt_inv t \<longleftrightarrow> distinct (map fst (rt_rows t)) \<and>
     (\<forall>k ms n. map_of (rt_rows t) k = Some (ms, n) \<longrightarrow> n < rt_next t \<and> row_ok ms \<and> key_ok k)"

lemma rt_invD:
  "rt_inv t \<Longrightarrow> map_of (rt_rows t) k = Some (ms, n) \<Longrightarrow> n < rt_next t \<and> row_ok ms \<and> key_ok k"
  unfolding rt_inv_def by blast

lemma etag_of_inj [simp]: "etag_of m = etag_of n \<longleftrightarrow> m = n"
  using format_int_inj [of 10 "int m" "int n"] by (auto simp: etag_of_def)

lemma etag_of_not_any [simp]: "etag_of n \<noteq> ETagAny" "etag_of n \<noteq> ''''" "ETagAny \<noteq> etag_of n"
  by (auto simp: etag_of_def ETagAny_def)

lemma flat_value_ok: "flat_value v \<Longrightarrow> json_ok v \<and> jdepth v = 0"
  by (cases v) (auto split: option.splits)

lemma members_ok_flat:
  "(\<And>kv. kv \<in> set ms \<Longrightarrow> valid_utf8 (fst kv) \<and> flat_value (snd kv)) \<Longrightarrow> members_ok ms \<and> mdepth ms = 0"
  by (induction ms) (fastforce dest: flat_value_ok)+

lemma rt_tbl_put: "rt_tbl (rt_put k ms t) = (rt_tbl t)(k \<mapsto> (map_of ms, etag_of (rt_next t)))"
proof
  fix k'
  have "map_of [row \<leftarrow> rt_rows t. fst row \<noteq> k] k' = map_of (rt_rows t) k'" if "k' \<noteq> k"
    using that map_of_filter_keys [of "\<lambda>x. x \<noteq> k" k' "rt_rows t"] by simp
  then show "rt_tbl (rt_put k ms t) k' = ((rt_tbl t)(k \<mapsto> (map_of ms, etag_of (rt_next t)))) k'"
    by (simp add: rt_tbl_def rt_put_def)
qed

lemma rt_inv_put:
  assumes "rt_inv t" "row_ok ms" "key_ok k"
  shows "rt_inv (rt_put k ms t)"
  unfolding rt_inv_def
proof (intro conjI allI impI)
  show "distinct (map fst (rt_rows (rt_put k ms t)))"
    using assms(1) by (auto simp: rt_inv_def rt_put_def distinct_map_filter)
next
  fix k' ms' n
  assume *: "map_of (rt_rows (rt_put k ms t)) k' = Some (ms', n)"
  have "n < rt_next (rt_put k ms t) \<and> row_ok ms' \<and> key_ok k'"
  proof (cases "k' = k")
    case True
    with * assms show ?thesis by (auto simp: rt_put_def)
  next
    case False
    then have "map_of [row \<leftarrow> rt_rows t. fst row \<noteq> k] k' = map_of (rt_rows t) k'"
      using map_of_filter_keys [of "\<lambda>x. x \<noteq> k" k' "rt_rows t"] by simp
    with * False have "map_of (rt_rows t) k' = Some (ms', n)" by (simp add: rt_put_def)
    then show ?thesis using rt_invD [OF assms(1), of k' ms' n] by (simp add: rt_put_def)
  qed
  then show "n < rt_next (rt_put k ms t)" "row_ok ms'" "key_ok k'" by simp_all
qed

lemma rt_issued_put: "rt_issued (rt_put k ms t) = insert (etag_of (rt_next t)) (rt_issued t)"
  by (simp add: rt_issued_def rt_put_def lessThan_Suc)

lemma rt_fresh: "etag_of (rt_next t) \<notin> rt_issued t"
  by (auto simp: rt_issued_def)

lemma accept_row_ok: "accept payload = Some (k, ms) \<Longrightarrow> row_ok ms \<and> key_ok k"
  by (auto simp: accept_def row_ok_def list_all_iff split: option.splits json.splits if_splits)

lemma accept_parse:
  "accept payload = Some (k', ms') \<Longrightarrow> json_parse payload = Some (JObj ms) \<Longrightarrow> members_key ms k \<Longrightarrow>
   k' = k \<and> ms' = ms"
  by (cases k) (auto simp: accept_def members_key_def split: if_splits)

lemma map_of_merge: "map_of (merge_members ms0 ms) = map_of ms0 ++ map_of ms"
proof
  fix n
  show "map_of (merge_members ms0 ms) n = (map_of ms0 ++ map_of ms) n"
  proof (cases "n \<in> fst ` set ms")
    case True
    then have "map_of [kv \<leftarrow> ms0. fst kv \<notin> fst ` set ms] n = None"
      by (simp add: map_of_eq_None_iff image_iff)
    moreover obtain v where "map_of ms n = Some v"
      using True map_of_eq_None_iff [of ms n] by (cases "map_of ms n") auto
    ultimately show ?thesis by (simp add: merge_members_def map_add_def)
  next
    case False
    then have "map_of ms n = None" by (simp add: map_of_eq_None_iff)
    moreover have "map_of [kv \<leftarrow> ms0. fst kv \<notin> fst ` set ms] n = map_of ms0 n"
      using map_of_filter_keys [of "\<lambda>x. x \<notin> fst ` set ms" n ms0] False by simp
    ultimately show ?thesis
      by (simp add: merge_members_def map_add_def split: option.split)
  qed
qed

lemma row_ok_merge: "row_ok ms0 \<Longrightarrow> row_ok ms \<Longrightarrow> row_ok (merge_members ms0 ms)"
  by (auto simp: row_ok_def merge_members_def distinct_map_filter)

lemma rt_tbl_None: "rt_tbl t k = None \<longleftrightarrow> map_of (rt_rows t) k = None"
  by (simp add: rt_tbl_def)

lemma rt_get_text:
  assumes "row_ok ms"
  shows "json_parse (rt_text ms n) =
    Some (JObj ((''odata.etag'', JStr (etag_of n)) # ms))"
proof -
  have "members_ok ms \<and> mdepth ms = 0"
    using assms by (intro members_ok_flat) (auto simp: row_ok_def)
  then show ?thesis unfolding rt_text_def
    by (intro parse_members) (auto simp: etag_of_def max_nesting_def)
qed

lemma rt_get_Inr:
  "rt_get pk rk t = Inr (val, et) \<Longrightarrow>
   \<exists>ms n. map_of (rt_rows t) (pk, rk) = Some (ms, n) \<and> val = rt_text ms n \<and> et = etag_of n"
  by (cases "map_of (rt_rows t) (pk, rk)") (auto simp: rt_get_def)

lemma rt_get_Inl:
  "rt_get pk rk t = Inl e \<Longrightarrow> map_of (rt_rows t) (pk, rk) = None"
  by (cases "map_of (rt_rows t) (pk, rk)") (auto simp: rt_get_def)

text \<open>Every component of a world that is reached by a lawful selector is an Azure table.\<close>

lemma ref_client_azure_table:
  assumes lens: "\<And>t w. sel (put t w) = t"
  shows "azure_table (ref_client sel put) (\<lambda>w. rt_tbl (sel w)) (\<lambda>w. rt_issued (sel w))
    (\<lambda>w. rt_inv (sel w))"
proof (unfold_locales, goal_cases)
  case (1 w k p et)
  then show ?case
    by (auto simp: rt_tbl_def rt_issued_def dest: rt_invD)
next
  case (2 w pk rk val et w')
  then have "rt_get pk rk (sel w) = Inr (val, et)" and w': "w' = w"
    by (auto simp: ref_client_def)
  then obtain ms n where row: "map_of (rt_rows (sel w)) (pk, rk) = Some (ms, n)"
    and v: "val = rt_text ms n" "et = etag_of n"
    using rt_get_Inr by blast
  then have ok: "row_ok ms" using 2 by (auto dest: rt_invD)
  let ?vs = "(''odata.etag'', JStr (etag_of n)) # ms"
  have meta: "is_meta ''odata.etag''" by (simp add: is_meta_def)
  then have "distinct (map fst ?vs)" using ok by (auto simp: row_ok_def)
  moreover have "\<forall>n. \<not> is_meta n \<longrightarrow> map_of ?vs n = map_of ms n" using meta by auto
  moreover have "json_parse val = Some (JObj ?vs)" using rt_get_text [OF ok] v by simp
  moreover have "rt_tbl (sel w) (pk, rk) = Some (map_of ms, et)" using row v by (simp add: rt_tbl_def)
  ultimately show ?case using 2(1) w' by blast
next
  case (3 w pk rk e w')
  then show ?case by (auto simp: ref_client_def rt_tbl_None dest: rt_get_Inl)
next
  case (4 w payload w' ms k)
  then obtain k' ms' where acc: "accept payload = Some (k', ms')"
    and new: "map_of (rt_rows (sel w)) k' = None" and w': "w' = put (rt_put k' ms' (sel w)) w"
    by (auto simp: ref_client_def rt_add_def split: option.splits prod.splits)
  have eq: "k' = k" "ms' = ms" using accept_parse [OF acc 4(3,4)] by auto
  show ?case
    using 4(1) new accept_row_ok [OF acc] rt_fresh [of "sel w"]
    by (auto simp: w' eq lens rt_tbl_put rt_issued_put rt_inv_put rt_tbl_None)
next
  case (5 w payload e w')
  then show ?case
    by (auto simp: ref_client_def rt_add_def lens split: option.splits prod.splits)
next
  case (6 w payload im w' ms k)
  then obtain k' ms' ms0 n where acc: "accept payload = Some (k', ms')"
    and row: "map_of (rt_rows (sel w)) k' = Some (ms0, n)" and im: "im = ETagAny \<or> im = etag_of n"
    and w': "w' = put (rt_put k' (merge_members ms0 ms') (sel w)) w"
    by (auto simp: ref_client_def rt_update_def split: option.splits prod.splits if_splits)
  have eq: "k' = k" "ms' = ms" using accept_parse [OF acc 6(3,4)] by auto
  have "row_ok (merge_members ms0 ms) \<and> key_ok k"
    using 6(1) row accept_row_ok [OF acc] eq by (auto dest: rt_invD intro!: row_ok_merge)
  then show ?case
    using 6(1) row im rt_fresh [of "sel w"]
    by (auto simp: w' eq lens rt_tbl_put rt_issued_put map_of_merge rt_inv_put rt_tbl_def [of _ k])
next
  case (7 w payload im e w')
  then show ?case
    by (auto simp: ref_client_def rt_update_def lens bad_request_def
        split: option.splits prod.splits if_splits)
next
  case (8 w payload im e w' ms k)
  then show ?case
    using accept_parse [OF _ 8(4,5)]
    by (auto simp: ref_client_def rt_update_def rt_tbl_def has_status_def bad_request_def
        split: option.splits prod.splits if_splits)
next
  case (9 w payload w' ms k)
  then obtain k' ms' where acc: "accept payload = Some (k', ms')"
    by (auto simp: ref_client_def rt_upsert_def split: option.splits)
  have eq: "k' = k" "ms' = ms" using accept_parse [OF acc 9(3,4)] by auto
  note ok = accept_row_ok [OF acc, unfolded eq]
  show ?case
  proof (cases "map_of (rt_rows (sel w)) k")
    case None
    then have "w' = put (rt_put k ms (sel w)) w"
      using 9(2) acc eq by (simp add: ref_client_def rt_upsert_def)
    then show ?thesis
      using 9(1) ok rt_fresh [of "sel w"]
      by (auto simp: lens rt_tbl_put rt_issued_put rt_inv_put
          intro!: exI [of _ "map_of ms"] exI [of _ "etag_of (rt_next (sel w))"])
  next
    case (Some row)
    then obtain ms0 n where row: "map_of (rt_rows (sel w)) k = Some (ms0, n)" by (cases row) auto
    then have w': "w' = put (rt_put k (merge_members ms0 ms) (sel w)) w"
      using 9(2) acc eq by (simp add: ref_client_def rt_upsert_def)
    have "row_ok (merge_members ms0 ms) \<and> key_ok k"
      using 9(1) row ok by (auto dest: rt_invD intro!: row_ok_merge)
    then show ?thesis
      using 9(1) row rt_fresh [of "sel w"]
      by (auto simp: w' lens rt_tbl_put rt_issued_put map_of_merge rt_inv_put rt_tbl_def [of _ k]
          intro!: exI [of _ "map_of ms0 ++ map_of ms"] exI [of _ "etag_of (rt_next (sel w))"])
  qed
next
  case (10 w payload e w')
  then show ?case
    by (auto simp: ref_client_def rt_upsert_def lens split: option.splits prod.splits)
qed

end
