(* ===== verification/Go_Time.thy ===== *)
theory Go_Time
  imports Go_Text
begin

text \<open>
  \<open>time.Parse(time.RFC3339Nano, s)\<close> followed by \<open>UnixNano\<close>, with the leniencies of the Go
  parser: an hour of one digit, a comma before the fraction, any number of fraction digits (nine
  are used), and zone offsets of up to 24 hours and 60 minutes.
\<close>

definition nth_digit :: "string \<Rightarrow> nat \<Rightarrow> bool" where
  "nth_digit s i \<longleftrightarrow> i < length s \<and> is_digit (s ! i)"

definition digit_of :: "char \<Rightarrow> int" where
  "digit_of c = int (byte c) - 48"

definition getnum :: "bool \<Rightarrow> string \<Rightarrow> (int \<times> string) option" where
  "getnum fixed s =
     (if \<not> nth_digit s 0 then None
      else if \<not> nth_digit s 1 then (if fixed then None else Some (digit_of (s ! 0), drop 1 s))
      else Some (10 * digit_of (s ! 0) + digit_of (s ! 1), drop 2 s))"

definition get_year :: "string \<Rightarrow> (int \<times> string) option" where
  "get_year s =
     (if 4 \<le> length s \<and> list_all is_digit (take 4 s)
      then Some (foldl (\<lambda>a c. 10 * a + digit_of c) 0 (take 4 s), drop 4 s) else None)"

definition skip_char :: "char \<Rightarrow> string \<Rightarrow> string option" where
  "skip_char c s = (case s of [] \<Rightarrow> None | d # r \<Rightarrow> if d = c then Some r else None)"

text \<open>\<open>stdFracSecond9\<close>: the nanoseconds, 0 if there is no fraction.\<close>

definition get_fraction :: "string \<Rightarrow> int \<times> string" where
  "get_fraction s =
     (if s \<noteq> [] \<and> (hd s = CHR ''.'' \<or> hd s = CHR '','') \<and> nth_digit s 1
      then (let ds = takeWhile is_digit (tl s); nine = take 9 ds
            in (foldl (\<lambda>a c. 10 * a + digit_of c) 0 nine * 10 ^ (9 - length nine),
                drop (length ds) (tl s)))
      else (0, s))"

text \<open>\<open>stdISO8601ColonTZ\<close>: the offset in seconds.\<close>

definition get_zone :: "string \<Rightarrow> (int \<times> string) option" where
  "get_zone s =
     (if s \<noteq> [] \<and> hd s = CHR ''Z'' then Some (0, tl s)
      else if length s < 6 \<or> s ! 3 \<noteq> CHR '':'' then None
      else (case (getnum True (take 2 (drop 1 s)), getnum True (take 2 (drop 4 s))) of
              (Some (hr, _), Some (mm, _)) \<Rightarrow>
                (if hr > 24 \<or> mm > 60 then None
                 else if s ! 0 = CHR ''+'' then Some ((hr * 60 + mm) * 60, drop 6 s)
                 else if s ! 0 = CHR ''-'' then Some (- ((hr * 60 + mm) * 60), drop 6 s)
                 else None)
            | _ \<Rightarrow> None))"

section \<open>The calendar\<close>

definition leap :: "int \<Rightarrow> bool" where
  "leap y \<longleftrightarrow> y mod 4 = 0 \<and> (y mod 100 \<noteq> 0 \<or> y mod 400 = 0)"

definition month_days :: "int \<Rightarrow> int list" where
  "month_days y = [31, if leap y then 29 else 28, 31, 30, 31, 30, 31, 31, 30, 31, 30, 31]"

text \<open>Days since 1 January 1970.\<close>

definition epoch_days :: "int \<Rightarrow> int \<Rightarrow> int \<Rightarrow> int" where
  "epoch_days y m d =
     365 * (y - 1970) + ((y - 1) div 4 - (y - 1) div 100 + (y - 1) div 400 - 477)
     + sum_list (take (nat (m - 1)) (month_days y)) + d - 1"

definition unix_nano :: "int \<Rightarrow> int \<Rightarrow> int" where
  "unix_nano secs nsec = i64 (secs * 1000000000 + nsec)"

definition parse_rfc3339 :: "string \<Rightarrow> int option" where
  "parse_rfc3339 s0 = do {
     (y, s) \<leftarrow> get_year s0;
     s \<leftarrow> skip_char CHR ''-'' s;
     (mo, s) \<leftarrow> getnum True s;
     s \<leftarrow> (if mo < 1 \<or> mo > 12 then None else skip_char CHR ''-'' s);
     (d, s) \<leftarrow> getnum True s;
     s \<leftarrow> skip_char CHR ''T'' s;
     (h, s) \<leftarrow> getnum False s;
     s \<leftarrow> (if h \<ge> 24 then None else skip_char CHR '':'' s);
     (mi, s) \<leftarrow> getnum True s;
     s \<leftarrow> (if mi \<ge> 60 then None else skip_char CHR '':'' s);
     (sec, s) \<leftarrow> getnum True s;
     (nsec, s) \<leftarrow> (if sec \<ge> 60 then None else Some (get_fraction s));
     (off, s) \<leftarrow> get_zone s;
     (if s \<noteq> [] \<or> d < 1 \<or> d > month_days y ! nat (mo - 1) then None
      else Some (unix_nano (((epoch_days y mo d * 24 + h) * 60 + mi) * 60 + sec - off) nsec))
   }"

section \<open>Facts\<close>

text \<open>A decimal integer is no timestamp: the fifth character of a timestamp is a hyphen.\<close>

lemma itoa_tl_digit: "c \<in> set (tl (itoa i)) \<Longrightarrow> is_digit c"
proof -
  assume c: "c \<in> set (tl (itoa i))"
  show ?thesis
  proof (cases "i < 0")
    case True
    with c show ?thesis using digits10_chars [of "- i" c] by (simp add: format_int_def)
  next
    case False
    then have "c \<in> set (tl (map digit_char (digits_of 10 i)))" using c by (simp add: format_int_def)
    from list.set_sel(2) [OF _ this] have "c \<in> set (map digit_char (digits_of 10 i))" by simp
    with False show ?thesis using digits10_chars [of i c] by simp
  qed
qed

lemma parse_rfc3339_hyphen:
  assumes "parse_rfc3339 s = Some t"
  shows "CHR ''-'' \<in> set (tl s)"
proof -
  obtain y r r' where "get_year s = Some (y, r)" "skip_char CHR ''-'' r = Some r'"
    using assms by (auto simp: parse_rfc3339_def bind_eq_Some_conv)
  then have "CHR ''-'' \<in> set (drop 4 s)"
    by (auto simp: get_year_def skip_char_def split: if_splits list.splits)
  then show ?thesis
    by (cases s) (auto dest: in_set_dropD)
qed

lemma parse_rfc3339_itoa [simp]: "parse_rfc3339 (itoa i) = None"
proof (rule ccontr)
  assume "parse_rfc3339 (itoa i) \<noteq> None"
  then obtain t where "parse_rfc3339 (itoa i) = Some t" by auto
  from itoa_tl_digit [OF parse_rfc3339_hyphen [OF this]] show False
    by (simp add: is_digit_def)
qed

text \<open>The result fits into 64 bits.\<close>

lemma parse_rfc3339_range: "parse_rfc3339 s = Some t \<Longrightarrow> in_i64 t"
  by (auto simp: parse_rfc3339_def unix_nano_def bind_eq_Some_conv split: if_splits prod.splits)

lemma epoch_days_example: "epoch_days 1970 1 1 = 0" "epoch_days 2000 2 29 = 11016"
  by (simp_all add: epoch_days_def month_days_def leap_def)

lemma parse_rfc3339_example:
  "parse_rfc3339 ''2024-02-29T12:30:05.25+01:00'' = Some 1709206205250000000"
  by code_simp

end
