(* ===== verification/Task_Store.thy ===== *)
theory Task_Store
  imports Rmu_Storage
begin

text \<open>
  The interface \<open>TaskStorage\<close> between the task service and the storage package
  (\<open>read-model-updater/domain/task_service.go\<close>). The locale \<open>task_store\<close> states what the
  service may assume: the store is a map from keys to task entities, reads return its current
  value, an insertion refuses an existing key, a conditional update merges the given fields if the
  ETag is current, and a conflict is reported only if it is not. The operations of
  \<open>Rmu_Storage\<close> over an Azure table satisfy it.
\<close>

section \<open>The contract\<close>

definition ent_key :: "task_entity \<Rightarrow> key" where
  "ent_key e = (te_PartitionKey e, te_RowKey e)"

definition upd_key :: "task_update \<Rightarrow> key" where
  "upd_key u = (tup_PartitionKey u, tup_RowKey u)"

definition or_old :: "'v \<Rightarrow> 'v option \<Rightarrow> 'v" where
  "or_old x p = (case p of None \<Rightarrow> x | Some y \<Rightarrow> y)"

lemma or_old_simps [simp]: "or_old x None = x" "or_old x (Some y) = y"
  by (simp_all add: or_old_def)

text \<open>A merge: the fields that are present replace the old ones.\<close>

definition merge_task :: "task_update \<Rightarrow> task_entity \<Rightarrow> task_entity" where
  "merge_task u e = e\<lparr>
     te_Title := or_old (te_Title e) (tup_Title u),
     te_Notes := or_old (te_Notes e) (tup_Notes u),
     te_Category := or_old (te_Category e) (tup_Category u),
     te_Order := or_old (te_Order e) (tup_Order u),
     te_Done := or_old (te_Done e) (tup_Done u),
     te_EventTimestamp := or_old (te_EventTimestamp e) (tup_EventTimestamp u)\<rparr>"

locale task_store =
  fixes get :: "string \<Rightarrow> string \<Rightarrow> 'w \<Rightarrow> (go_error + task_entity option) \<times> 'w"
    and ins :: "task_entity \<Rightarrow> 'w \<Rightarrow> go_error option \<times> 'w"
    and upd :: "task_update \<Rightarrow> string \<Rightarrow> 'w \<Rightarrow> go_error option \<times> 'w"
    and view :: "'w \<Rightarrow> key \<Rightarrow> task_entity option"
    and inv :: "'w \<Rightarrow> bool"
  assumes keyed: "inv w \<Longrightarrow> view w k = Some e \<Longrightarrow> ent_key e = k \<and> te_ETag e \<notin> {'''', ETagAny}"
    and get_law: "inv w \<Longrightarrow> get pk rk w = (r, w') \<Longrightarrow>
        inv w' \<and> view w' = view w \<and> (\<forall>x. r = Inr x \<longrightarrow> x = view w (pk, rk))"
    and ins_ok: "inv w \<Longrightarrow> task_entity_ok e \<Longrightarrow> ins e w = (None, w') \<Longrightarrow>
        inv w' \<and> view w (ent_key e) = None \<and>
        (\<exists>et. view w' = (view w)(ent_key e \<mapsto> e\<lparr>te_ETag := et\<rparr>))"
    and ins_err: "inv w \<Longrightarrow> ins e w = (Some err, w') \<Longrightarrow> inv w' \<and> view w' = view w"
    and upd_ok: "inv w \<Longrightarrow> task_update_ok u \<Longrightarrow> upd u et w = (None, w') \<Longrightarrow>
        inv w' \<and> (\<exists>e et'. view w (upd_key u) = Some e \<and> (et \<in> {'''', ETagAny} \<or> et = te_ETag e) \<and>
          view w' = (view w)(upd_key u \<mapsto> (merge_task u e)\<lparr>te_ETag := et'\<rparr>))"
    and upd_err: "inv w \<Longrightarrow> upd u et w = (Some err, w') \<Longrightarrow> inv w' \<and> view w' = view w"
    and upd_conflict: "inv w \<Longrightarrow> task_update_ok u \<Longrightarrow>
        upd u et w = (Some ErrConcurrencyConflict, w') \<Longrightarrow>
        \<exists>e. view w (upd_key u) = Some e \<and> et \<noteq> te_ETag e"

section \<open>Task rows\<close>

text \<open>A row that the updater can read: exactly its own property names, with the right types.\<close>

definition opt_str :: "json option \<Rightarrow> bool" where
  "opt_str v \<longleftrightarrow> v = None \<or> (\<exists>s. v = Some (JStr s))"

definition opt_int :: "json option \<Rightarrow> bool" where
  "opt_int v \<longleftrightarrow> v = None \<or> (\<exists>l i. v = Some (JNum l) \<and> parse_int l = Some i)"

definition opt_bool :: "json option \<Rightarrow> bool" where
  "opt_bool v \<longleftrightarrow> v = None \<or> (\<exists>b. v = Some (JBool b))"

definition task_row :: "key \<Rightarrow> props \<Rightarrow> bool" where
  "task_row k p \<longleftrightarrow>
     dom p \<subseteq> set task_names \<and> p ''PartitionKey'' = Some (JStr (fst k)) \<and>
     p ''RowKey'' = Some (JStr (snd k)) \<and> opt_str (p ''Title'') \<and> opt_str (p ''Notes'') \<and>
     opt_str (p ''Category'') \<and> opt_int (p ''Order'') \<and> opt_bool (p ''Done'')"

definition str_of :: "json option \<Rightarrow> string" where
  "str_of v = (case v of Some (JStr s) \<Rightarrow> s | _ \<Rightarrow> '''')"

definition int_of :: "json option \<Rightarrow> int" where
  "int_of v = (case v of Some (JNum l) \<Rightarrow> (case parse_int l of Some i \<Rightarrow> i | None \<Rightarrow> 0) | _ \<Rightarrow> 0)"

definition bool_of :: "json option \<Rightarrow> bool" where
  "bool_of v = (case v of Some (JBool b) \<Rightarrow> b | _ \<Rightarrow> False)"

definition row_task :: "props \<times> string \<Rightarrow> task_entity" where
  "row_task pe = (let p = fst pe in
     \<lparr>te_PartitionKey = str_of (p ''PartitionKey''), te_RowKey = str_of (p ''RowKey''),
      te_Title = str_of (p ''Title''), te_Notes = str_of (p ''Notes''),
      te_Category = str_of (p ''Category''), te_Order = int_of (p ''Order''),
      te_Done = bool_of (p ''Done''), te_EventTimestamp = parseTimestamp (p ''EventTimestamp''),
      te_ETag = snd pe\<rparr>)"

definition task_view :: "table \<Rightarrow> key \<Rightarrow> task_entity option" where
  "task_view t k = map_option row_task (t k)"

definition task_table_ok :: "table \<Rightarrow> bool" where
  "task_table_ok t \<longleftrightarrow> (\<forall>k p et. t k = Some (p, et) \<longrightarrow> task_row k p)"

lemma task_table_okD: "task_table_ok t \<Longrightarrow> t k = Some (p, et) \<Longrightarrow> task_row k p"
  unfolding task_table_ok_def by blast

subsection \<open>Reading a row\<close>

lemma fold_name_dot: "CHR ''.'' \<in> set n \<Longrightarrow> CHR ''.'' \<in> set (fold_name n)"
proof (induction n rule: fold_name.induct)
  case (2 c r)
  have kelvin: "CHR ''.'' \<in> set (drop 2 r)"
    if "has_prefix [CHR 0xE2, CHR 0x84, CHR 0xAA] (c # r)"
    using that 2(4) by (auto simp: has_prefix_iff)
  have long_s: "CHR ''.'' \<in> set (drop 1 r)" if "has_prefix [CHR 0xC5, CHR 0xBF] (c # r)"
    using that 2(4) by (auto simp: has_prefix_iff)
  have "upper_char CHR ''.'' = CHR ''.''" by (simp add: upper_char_def)
  with kelvin long_s 2 show ?case
    by (cases "has_prefix [CHR 0xE2, CHR 0x84, CHR 0xAA] (c # r)";
        cases "has_prefix [CHR 0xC5, CHR 0xBF] (c # r)") (auto simp del: has_prefix.simps)
qed simp

lemma no_clash_meta:
  assumes "dom p \<subseteq> set names" "\<forall>n. \<not> is_meta n \<longrightarrow> map_of vs n = p n"
    and "\<forall>n \<in> set names. CHR ''.'' \<notin> set (fold_name n) \<and> fold_name n \<noteq> ''TIMESTAMP''"
  shows "no_clash names (fst ` set vs)"
  unfolding no_clash_def
proof
  fix k assume k: "k \<in> fst ` set vs"
  show "k \<in> set names \<or> (\<forall>n \<in> set names. fold_name k \<noteq> fold_name n)"
  proof (cases "is_meta k")
    case True
    then have "CHR ''.'' \<in> set (fold_name k) \<or> fold_name k = ''TIMESTAMP''"
      unfolding is_meta_def using fold_name_dot [of k]
      by (auto simp: upper_char_def char_of_def bit_Suc_0_iff)
    with assms(3) show ?thesis by metis
  next
    case False
    with k assms(2) have "p k \<noteq> None" by (metis map_of_eq_None_iff)
    with assms(1) show ?thesis by auto
  qed
qed

lemma task_names_fold:
  "\<forall>n \<in> set task_names. CHR ''.'' \<notin> set (fold_name n) \<and> fold_name n \<noteq> ''TIMESTAMP''"
  by (simp add: task_names_def upper_char_def char_of_def bit_Suc_0_iff)

lemma plain_field_opt:
  "opt_str v \<Longrightarrow> plain_field as_string '''' (case v of None \<Rightarrow> [] | Some x \<Rightarrow> [x]) = Some (str_of v)"
  "opt_int v \<Longrightarrow> plain_field as_int 0 (case v of None \<Rightarrow> [] | Some x \<Rightarrow> [x]) = Some (int_of v)"
  "opt_bool v \<Longrightarrow> plain_field as_bool False (case v of None \<Rightarrow> [] | Some x \<Rightarrow> [x]) = Some (bool_of v)"
  by (auto simp: opt_str_def opt_int_def opt_bool_def str_of_def int_of_def bool_of_def)

lemma raw_field_opt: "raw_field (case v of None \<Rightarrow> [] | Some x \<Rightarrow> [x]) = v"
  by (cases v) (auto simp: raw_field_def)

lemma decode_task_row_ok:
  assumes row: "task_row k p" and dist: "distinct (map fst vs)"
    and vs: "\<forall>n. \<not> is_meta n \<longrightarrow> map_of vs n = p n"
  shows "decode_task_row (JObj vs) = Some (row_task (p, ''''))"
proof -
  have clash: "no_clash task_names (fst ` set vs)"
    using row by (intro no_clash_meta [OF _ vs task_names_fold]) (simp add: task_row_def)
  have mv: "member_vals task_names n vs = (case p n of None \<Rightarrow> [] | Some x \<Rightarrow> [x])"
    if "n \<in> set task_names" for n
  proof -
    have "\<not> is_meta n" using that by (auto simp: task_names_def is_meta_def)
    then show ?thesis using member_vals_map_of [OF dist clash that] vs by simp
  qed
  have names: "''PartitionKey'' \<in> set task_names" "''RowKey'' \<in> set task_names"
    "''Title'' \<in> set task_names" "''Notes'' \<in> set task_names" "''Category'' \<in> set task_names"
    "''Order'' \<in> set task_names" "''Done'' \<in> set task_names" "''EventTimestamp'' \<in> set task_names"
    by (simp_all add: task_names_def)
  have keys: "opt_str (p ''PartitionKey'')" "opt_str (p ''RowKey'')"
    using row by (auto simp: task_row_def opt_str_def)
  show ?thesis
    using row unfolding task_row_def
    by (simp add: decode_task_row_def object_members_def get_string_def get_int_def get_bool_def
        get_raw_def names mv plain_field_opt raw_field_opt keys row_task_def str_of_def)
qed

subsection \<open>Writing a row\<close>

lemma map_of_omit_empty:
  "map_of (omit_empty n s) m = (if m = n \<and> s \<noteq> '''' then Some (JStr s) else None)"
  by (simp add: omit_empty_def)

lemma map_of_omit_nil: "map_of (omit_nil n f p) m = (if m = n then map_option f p else None)"
  by (cases p) (simp_all add: omit_nil_def)

lemma map_of_app: "map_of (xs @ ys) n = (case map_of xs n of None \<Rightarrow> map_of ys n | Some v \<Rightarrow> Some v)"
  by (simp add: map_add_def)

lemma parseTimestamp_JIntStr [simp]: "in_i64 i \<Longrightarrow> parseTimestamp (Some (JIntStr i)) = i"
  by (simp add: parseTimestamp_def JIntStr_def parse_int_itoa)

lemmas member_lookup = map_of_omit_empty map_of_omit_nil map_of_app map_add_def

lemma task_entity_keys:
  "distinct (map fst (task_entity_members e))" "members_key (task_entity_members e) (ent_key e)"
  by (auto simp: task_entity_members_def members_key_def ent_key_def omit_empty_def)

lemma task_update_keys:
  "distinct (map fst (task_update_members u))" "members_key (task_update_members u) (upd_key u)"
  by (auto simp: task_update_members_def members_key_def upd_key_def omit_nil_def split: option.splits)

lemma task_entity_lookup:
  "map_of (task_entity_members e) ''PartitionKey'' = Some (JStr (te_PartitionKey e))"
  "map_of (task_entity_members e) ''RowKey'' = Some (JStr (te_RowKey e))"
  "map_of (task_entity_members e) ''Title'' =
     (if te_Title e = '''' then None else Some (JStr (te_Title e)))"
  "map_of (task_entity_members e) ''Notes'' =
     (if te_Notes e = '''' then None else Some (JStr (te_Notes e)))"
  "map_of (task_entity_members e) ''Category'' =
     (if te_Category e = '''' then None else Some (JStr (te_Category e)))"
  "map_of (task_entity_members e) ''Order'' = Some (JInt (te_Order e))"
  "map_of (task_entity_members e) ''Done'' = Some (JBool (te_Done e))"
  "map_of (task_entity_members e) ''EventTimestamp'' = Some (JIntStr (te_EventTimestamp e))"
  by (simp_all add: task_entity_members_def omit_empty_def)

lemma task_update_lookup:
  "map_of (task_update_members u) ''PartitionKey'' = Some (JStr (tup_PartitionKey u))"
  "map_of (task_update_members u) ''RowKey'' = Some (JStr (tup_RowKey u))"
  "map_of (task_update_members u) ''Title'' = map_option JStr (tup_Title u)"
  "map_of (task_update_members u) ''Notes'' = map_option JStr (tup_Notes u)"
  "map_of (task_update_members u) ''Category'' = map_option JStr (tup_Category u)"
  "map_of (task_update_members u) ''Order'' = map_option JInt (tup_Order u)"
  "map_of (task_update_members u) ''Done'' = map_option JBool (tup_Done u)"
  "map_of (task_update_members u) ''EventTimestamp'' = map_option JIntStr (tup_EventTimestamp u)"
  by (simp_all add: task_update_members_def omit_nil_def split: option.splits)

lemma task_entity_dom: "dom (map_of (task_entity_members e)) \<subseteq> set task_names"
  by (auto simp: dom_map_of_conv_image_fst task_entity_members_def omit_empty_def task_names_def)

lemma task_update_dom: "dom (map_of (task_update_members u)) \<subseteq> set task_names"
  by (auto simp: dom_map_of_conv_image_fst task_update_members_def omit_nil_def task_names_def
      split: option.splits)

lemma opt_JInt [simp]: "in_i64 i \<Longrightarrow> opt_int (Some (JInt i))" "in_i64 i \<Longrightarrow> int_of (Some (JInt i)) = i"
  by (simp_all add: opt_int_def int_of_def JInt_def)

lemma opt_simps [simp]: "opt_str None" "opt_str (Some (JStr s))" "opt_int None" "opt_bool None"
  "opt_bool (Some (JBool b))" "str_of None = ''''" "str_of (Some (JStr s)) = s"
  "bool_of (Some (JBool b)) = b" "int_of None = 0" "bool_of None = False"
  by (simp_all add: opt_str_def opt_int_def opt_bool_def str_of_def bool_of_def int_of_def)

lemma entity_row:
  assumes "task_entity_ok e"
  shows "task_row (ent_key e) (map_of (task_entity_members e))"
    "row_task (map_of (task_entity_members e), et) = e\<lparr>te_ETag := et\<rparr>"
  using assms task_entity_dom [of e]
  by (auto simp: task_row_def row_task_def task_entity_lookup ent_key_def task_entity_ok_def)

lemma map_add_opt: "(p ++ q) n = (case q n of None \<Rightarrow> p n | Some v \<Rightarrow> Some v)"
  by (simp add: map_add_def)

lemma update_row:
  assumes "task_row (upd_key u) p" "task_update_ok u"
  shows "task_row (upd_key u) (p ++ map_of (task_update_members u))"
    "row_task (p ++ map_of (task_update_members u), et') =
       (merge_task u (row_task (p, et)))\<lparr>te_ETag := et'\<rparr>"
  using assms task_update_dom [of u]
  by (auto simp: task_row_def row_task_def map_add_opt task_update_lookup upd_key_def
      task_update_ok_def opt_all_def merge_task_def or_old_def split: option.splits)

section \<open>The storage package keeps the contract\<close>

text \<open>A storage whose task table behaves as documented.\<close>

locale task_table =
  fixes st :: "'w rmu_storage"
    and tbl :: "'w \<Rightarrow> table"
    and issued :: "'w \<Rightarrow> string set"
    and tinv :: "'w \<Rightarrow> bool"
  assumes azure: "azure_table (st_taskTable st) tbl issued tinv"
begin

lemma GetTask_law:
  assumes "tinv w" "task_table_ok (tbl w)" "GetTask st pk rk w = (r, w')"
  shows "tinv w' \<and> tbl w' = tbl w \<and> issued w' = issued w \<and>
    (\<forall>x. r = Inr x \<longrightarrow> x = task_view (tbl w) (pk, rk))"
proof (cases "GetEntity (st_taskTable st) pk rk w")
  case (Pair res w1)
  show ?thesis
  proof (cases res)
    case (Inl e)
    with Pair assms show ?thesis
      using azure_table.get_err [OF azure assms(1), of pk rk e w1]
      by (auto simp: GetTask_def task_view_def split: if_splits)
  next
    case (Inr ve)
    then obtain val et where res: "res = Inr (val, et)" by (cases ve) auto
    obtain vs p where row: "tbl w (pk, rk) = Some (p, et)" and v: "json_parse val = Some (JObj vs)"
      "distinct (map fst vs)" "\<forall>n. \<not> is_meta n \<longrightarrow> map_of vs n = p n"
      and w1: "tinv w1" "tbl w1 = tbl w" "issued w1 = issued w"
      using azure_table.get_ok [OF azure assms(1), of pk rk val et w1] Pair res by auto
    note task_table_okD [OF assms(2) row]
    then have "unmarshal_text decode_task_row val = Inr (row_task (p, ''''))"
      using decode_task_row_ok [of "(pk, rk)" p vs] v by (simp add: unmarshal_text_def)
    with Pair res assms(3) w1 row show ?thesis
      by (auto simp: GetTask_def task_view_def row_task_def)
  qed
qed

lemma InsertTask_law:
  assumes "tinv w" "task_table_ok (tbl w)" "task_entity_ok e" "InsertTask st e w = (None, w')"
  shows "tinv w'" "task_table_ok (tbl w')" "task_view (tbl w) (ent_key e) = None"
    "\<exists>et. task_view (tbl w') = (task_view (tbl w))(ent_key e \<mapsto> e\<lparr>te_ETag := et\<rparr>)"
proof -
  obtain et where new: "tinv w'" "tbl w (ent_key e) = None"
    and tbl': "tbl w' = (tbl w)(ent_key e \<mapsto> (map_of (task_entity_members e), et))"
    using azure_table.add_ok [OF azure assms(1) _ parse_task_entity [OF assms(3)] task_entity_keys(2)]
      assms(4) by (auto simp: InsertTask_def)
  show "tinv w'" "task_view (tbl w) (ent_key e) = None" using new by (simp_all add: task_view_def)
  show "task_table_ok (tbl w')"
    using assms(2) entity_row(1) [OF assms(3)] by (auto simp: tbl' task_table_ok_def)
  show "\<exists>et. task_view (tbl w') = (task_view (tbl w))(ent_key e \<mapsto> e\<lparr>te_ETag := et\<rparr>)"
    using entity_row(2) [OF assms(3)]
    by (intro exI [of _ et]) (auto simp: task_view_def tbl' fun_eq_iff)
qed

lemma UpdateTask_law:
  assumes "tinv w" "task_table_ok (tbl w)" "task_update_ok u" "UpdateTask st u et w = (None, w')"
  shows "tinv w'" "task_table_ok (tbl w')"
    "\<exists>e et'. task_view (tbl w) (upd_key u) = Some e \<and> (et \<in> {'''', ETagAny} \<or> et = te_ETag e) \<and>
       task_view (tbl w') = (task_view (tbl w))(upd_key u \<mapsto> (merge_task u e)\<lparr>te_ETag := et'\<rparr>)"
proof -
  let ?im = "if et \<noteq> '''' then et else ETagAny"
  have upd: "UpdateEntity (st_taskTable st) (json_print (JObj (task_update_members u))) ?im w = (None, w')"
    using assms(4) by (auto simp: UpdateTask_def Let_def split: prod.splits option.splits if_splits)
  obtain p et0 et1 where row: "tinv w'" "tbl w (upd_key u) = Some (p, et0)" "?im = ETagAny \<or> ?im = et0"
    and tbl': "tbl w' = (tbl w)(upd_key u \<mapsto> (p ++ map_of (task_update_members u), et1))"
    using azure_table.upd_ok [OF azure assms(1) upd parse_task_update [OF assms(3)] task_update_keys(2)]
    by blast
  note p = task_table_okD [OF assms(2) row(2)]
  note upd_row = update_row [OF p assms(3)]
  show "tinv w'" by (rule row)
  show "task_table_ok (tbl w')" using assms(2) upd_row(1) by (auto simp: tbl' task_table_ok_def)
  have "et \<in> {'''', ETagAny} \<or> et = et0" using row(3) by (auto split: if_splits)
  then show "\<exists>e et'. task_view (tbl w) (upd_key u) = Some e \<and>
      (et \<in> {'''', ETagAny} \<or> et = te_ETag e) \<and>
      task_view (tbl w') = (task_view (tbl w))(upd_key u \<mapsto> (merge_task u e)\<lparr>te_ETag := et'\<rparr>)"
    using upd_row(2) [of et1 et0] row(2)
    by (intro exI [of _ "row_task (p, et0)"] exI [of _ et1])
      (auto simp: task_view_def tbl' fun_eq_iff row_task_def)
qed

lemma UpdateTask_err:
  assumes "tinv w" "UpdateTask st u et w = (Some err, w')"
  shows "tinv w' \<and> tbl w' = tbl w"
  using assms azure_table.upd_err [OF azure assms(1)]
  by (fastforce simp: UpdateTask_def Let_def split: prod.splits option.splits if_splits)

lemma UpdateTask_conflict:
  assumes "tinv w" "task_update_ok u" "UpdateTask st u et w = (Some ErrConcurrencyConflict, w')"
  shows "\<exists>e. task_view (tbl w) (upd_key u) = Some e \<and> et \<noteq> te_ETag e"
proof -
  let ?im = "if et \<noteq> '''' then et else ETagAny"
  have "\<not> has_status 412 ErrConcurrencyConflict" by (simp add: has_status_def)
  then obtain e where
    upd: "UpdateEntity (st_taskTable st) (json_print (JObj (task_update_members u))) ?im w = (Some e, w')"
      and "has_status 412 e \<or> e = ErrConcurrencyConflict"
    using assms(3) by (auto simp: UpdateTask_def Let_def split: prod.splits option.splits if_splits)
  then have "has_status 412 e" using azure_table.upd_err [OF azure assms(1) upd] by auto
  then obtain p et0 where "tbl w (upd_key u) = Some (p, et0)" "?im \<noteq> ETagAny" "?im \<noteq> et0"
    using azure_table.upd_conflict [OF azure assms(1) upd _ parse_task_update [OF assms(2)]
        task_update_keys(2)] by blast
  then show ?thesis by (auto simp: task_view_def row_task_def split: if_splits)
qed

end

sublocale task_table \<subseteq> ts: task_store "GetTask st" "InsertTask st" "UpdateTask st"
  "\<lambda>w. task_view (tbl w)" "\<lambda>w. tinv w \<and> task_table_ok (tbl w)"
proof (unfold_locales, goal_cases)
  case (1 w k e)
  then obtain p et where row: "tbl w k = Some (p, et)" "e = row_task (p, et)"
    by (auto simp: task_view_def)
  then show ?case
    using 1 task_table_okD [of "tbl w" k p et] azure_table.current [OF azure, of w k p et]
    by (auto simp: row_task_def task_row_def ent_key_def)
next
  case (2 w pk rk r w')
  then show ?case using GetTask_law [of w pk rk r w'] by auto
next
  case (3 w e w')
  then show ?case using InsertTask_law [of w e w'] by blast
next
  case (4 w e err w')
  then show ?case
    using azure_table.add_err [OF azure, of w] by (auto simp: InsertTask_def)
next
  case (5 w u et w')
  then show ?case using UpdateTask_law [of w u et w'] by blast
next
  case (6 w u et err w')
  then show ?case using UpdateTask_err [of w u et err w'] by auto
next
  case (7 w u et w')
  then show ?case using UpdateTask_conflict [of w u et w'] by blast
qed

context task_table
begin

lemma is_task_store: "task_store (GetTask st) (InsertTask st) (UpdateTask st)
    (\<lambda>w. task_view (tbl w)) (\<lambda>w. tinv w \<and> task_table_ok (tbl w))"
  by (rule ts.task_store_axioms)

end

end
