(* ===== verification/Task_Service.thy ===== *)
theory Task_Service
  imports Task_Store
begin

text \<open>
  \<open>TaskService\<close> (\<open>read-model-updater/domain/task_service.go\<close>): applying one task event to the
  read model, with the retry loop on concurrency conflicts. \<open>task_effect\<close> is the abstract
  specification, a function from the stored task to the new one or to a refusal; the lemmas show
  that \<open>task_Apply\<close> returns and implements it.
\<close>

section \<open>The service\<close>

record 'w task_storage =
  ts_GetTask :: "string \<Rightarrow> string \<Rightarrow> 'w \<Rightarrow> (go_error + task_entity option) \<times> 'w"
  ts_InsertTask :: "task_entity \<Rightarrow> 'w \<Rightarrow> go_error option \<times> 'w"
  ts_UpdateTask :: "task_update \<Rightarrow> string \<Rightarrow> 'w \<Rightarrow> go_error option \<times> 'w"

text \<open>\<open>*Storage\<close> as a \<open>TaskStorage\<close>.\<close>

definition as_task_storage :: "'w rmu_storage \<Rightarrow> 'w task_storage" where
  "as_task_storage st =
     \<lparr>ts_GetTask = GetTask st, ts_InsertTask = InsertTask st, ts_UpdateTask = UpdateTask st\<rparr>"

definition task_err :: "event \<Rightarrow> string \<Rightarrow> go_error" where
  "task_err ev m = ErrText (''task '' @ ev_EntityID ev @ '' '' @ m)"

definition created_entity :: "event \<Rightarrow> task_created_event_data \<Rightarrow> task_entity" where
  "created_entity ev d =
     \<lparr>te_PartitionKey = ev_UserID ev, te_RowKey = ev_EntityID ev, te_Title = tc_Title d,
      te_Notes = tc_Notes d, te_Category = tc_Category d, te_Order = tc_Order d, te_Done = False,
      te_EventTimestamp = ev_Timestamp ev, te_ETag = ''''\<rparr>"

definition changed_update :: "event \<Rightarrow> task_updated_event_data \<Rightarrow> task_update" where
  "changed_update ev d =
     \<lparr>tup_PartitionKey = ev_UserID ev, tup_RowKey = ev_EntityID ev, tup_Title = tu_Title d,
      tup_Notes = tu_Notes d, tup_Category = tu_Category d, tup_Order = tu_Order d,
      tup_Done = tu_Done d, tup_EventTimestamp = Some (ev_Timestamp ev)\<rparr>"

definition done_update :: "event \<Rightarrow> bool \<Rightarrow> task_update" where
  "done_update ev b =
     \<lparr>tup_PartitionKey = ev_UserID ev, tup_RowKey = ev_EntityID ev, tup_Title = None,
      tup_Notes = None, tup_Category = None, tup_Order = None, tup_Done = Some b,
      tup_EventTimestamp = Some (ev_Timestamp ev)\<rparr>"

definition no_fields :: "task_update \<Rightarrow> bool" where
  "no_fields u \<longleftrightarrow> tup_Title u = None \<and> tup_Notes u = None \<and> tup_Category u = None \<and>
     tup_Order u = None \<and> tup_Done u = None"

text \<open>The loop of the three updating branches, which differ in the update and in the text of the
  staleness error. Another updater may change the entity between the read and the write; then the
  conditional update fails and the entity is read again.\<close>

partial_function (option) retry_update ::
  "'w task_storage \<Rightarrow> event \<Rightarrow> task_update \<Rightarrow> string \<Rightarrow> task_entity \<Rightarrow> 'w \<Rightarrow>
   (go_error option \<times> 'w) option" where
  "retry_update st ev u stale ent w =
     (if ev_Timestamp ev \<le> te_EventTimestamp ent then Some (Some (task_err ev stale), w)
      else (case ts_UpdateTask st u (te_ETag ent) w of
              (None, w1) \<Rightarrow> Some (None, w1)
            | (Some e, w1) \<Rightarrow>
                (if e \<noteq> ErrConcurrencyConflict then Some (Some e, w1)
                 else (case ts_GetTask st (ev_UserID ev) (ev_EntityID ev) w1 of
                         (Inl e', w2) \<Rightarrow> Some (Some e', w2)
                       | (Inr None, w2) \<Rightarrow> Some (Some (task_err ev ''not found''), w2)
                       | (Inr (Some ent'), w2) \<Rightarrow> retry_update st ev u stale ent' w2))))"

definition apply_created ::
  "'w task_storage \<Rightarrow> event \<Rightarrow> 'w \<Rightarrow> go_error option \<times> 'w" where
  "apply_created st ev w =
     (case unmarshal_raw decode_task_created (ev_Data ev) of
        Inl e \<Rightarrow> (Some e, w)
      | Inr d \<Rightarrow>
          (case ts_GetTask st (ev_UserID ev) (ev_EntityID ev) w of
             (Inl e, w1) \<Rightarrow> (Some e, w1)
           | (Inr (Some _), w1) \<Rightarrow> (Some (task_err ev ''already exists''), w1)
           | (Inr None, w1) \<Rightarrow> ts_InsertTask st (created_entity ev d) w1))"

definition apply_updated ::
  "'w task_storage \<Rightarrow> event \<Rightarrow> 'w \<Rightarrow> (go_error option \<times> 'w) option" where
  "apply_updated st ev w =
     (case unmarshal_raw decode_task_updated (ev_Data ev) of
        Inl e \<Rightarrow> Some (Some e, w)
      | Inr d \<Rightarrow>
          (case ts_GetTask st (ev_UserID ev) (ev_EntityID ev) w of
             (Inl e, w1) \<Rightarrow> Some (Some e, w1)
           | (Inr None, w1) \<Rightarrow> Some (Some (task_err ev ''not found''), w1)
           | (Inr (Some ent), w1) \<Rightarrow>
               (let u = changed_update ev d in
                if no_fields u then Some (Some (task_err ev ''update had no fields''), w1)
                else retry_update st ev u ''received stale update'' ent w1)))"

definition apply_done ::
  "'w task_storage \<Rightarrow> event \<Rightarrow> bool \<Rightarrow> string \<Rightarrow> 'w \<Rightarrow> (go_error option \<times> 'w) option" where
  "apply_done st ev b stale w =
     (case ts_GetTask st (ev_UserID ev) (ev_EntityID ev) w of
        (Inl e, w1) \<Rightarrow> Some (Some e, w1)
      | (Inr None, w1) \<Rightarrow> Some (Some (task_err ev ''not found''), w1)
      | (Inr (Some ent), w1) \<Rightarrow> retry_update st ev (done_update ev b) stale ent w1)"

definition task_Apply ::
  "'w task_storage \<Rightarrow> event \<Rightarrow> 'w \<Rightarrow> (go_error option \<times> 'w) option" where
  "task_Apply st ev w =
     (if ev_Type ev = TaskCreated then Some (apply_created st ev w)
      else if ev_Type ev = TaskUpdated then apply_updated st ev w
      else if ev_Type ev = TaskCompleted then apply_done st ev True ''received stale completion'' w
      else if ev_Type ev = TaskReopened then apply_done st ev False ''received stale reopen'' w
      else Some (Some (ErrText (''unknown task event '' @ ev_Type ev)), w))"

section \<open>Specification\<close>

text \<open>The update that an event of one of the updating types asks for, with its staleness
  message.\<close>

definition event_update :: "event \<Rightarrow> go_error + task_update \<times> string" where
  "event_update ev =
     (if ev_Type ev = TaskUpdated then
        (case unmarshal_raw decode_task_updated (ev_Data ev) of
           Inl e \<Rightarrow> Inl e
         | Inr d \<Rightarrow> Inr (changed_update ev d, ''received stale update''))
      else if ev_Type ev = TaskCompleted then Inr (done_update ev True, ''received stale completion'')
      else if ev_Type ev = TaskReopened then Inr (done_update ev False, ''received stale reopen'')
      else Inl (ErrText (''unknown task event '' @ ev_Type ev)))"

text \<open>What an event makes of the stored task: a refusal or the new task.\<close>

definition task_effect :: "event \<Rightarrow> task_entity option \<Rightarrow> go_error + task_entity" where
  "task_effect ev old =
     (if ev_Type ev = TaskCreated then
        (case unmarshal_raw decode_task_created (ev_Data ev) of
           Inl e \<Rightarrow> Inl e
         | Inr d \<Rightarrow> (case old of Some _ \<Rightarrow> Inl (task_err ev ''already exists'')
                               | None \<Rightarrow> Inr (created_entity ev d)))
      else (case event_update ev of
              Inl e \<Rightarrow> Inl e
            | Inr (u, stale) \<Rightarrow>
                (case old of
                   None \<Rightarrow> Inl (task_err ev ''not found'')
                 | Some e \<Rightarrow>
                     (if no_fields u then Inl (task_err ev ''update had no fields'')
                      else if ev_Timestamp ev \<le> te_EventTimestamp e then Inl (task_err ev stale)
                      else Inr (merge_task u e)))))"

definition ev_key :: "event \<Rightarrow> key" where
  "ev_key ev = (ev_UserID ev, ev_EntityID ev)"

subsection \<open>What the service sends is well-formed\<close>

lemma created_entity_ok:
  "event_ok ev \<Longrightarrow> unmarshal_raw decode_task_created (ev_Data ev) = Inr d \<Longrightarrow>
   task_entity_ok (created_entity ev d) \<and> ent_key (created_entity ev d) = ev_key ev"
  by (auto simp: unmarshal_raw_Inr event_ok_def task_entity_ok_def created_entity_def ent_key_def
      ev_key_def intro: decode_task_created_ok)

lemma event_update_ok:
  assumes "event_ok ev" "event_update ev = Inr (u, stale)"
  shows "task_update_ok u" "upd_key u = ev_key ev" "tup_EventTimestamp u = Some (ev_Timestamp ev)"
proof -
  have changed: "task_update_ok (changed_update ev d)"
    if "unmarshal_raw decode_task_updated (ev_Data ev) = Inr d" for d
    using that assms(1)
    by (auto simp: unmarshal_raw_Inr event_ok_def task_update_ok_def changed_update_def opt_all_def
        split: option.splits intro: decode_task_updated_ok)
  have fin: "task_update_ok (done_update ev b)" for b
    using assms(1) by (simp add: task_update_ok_def done_update_def event_ok_def opt_all_def)
  show "task_update_ok u" "upd_key u = ev_key ev" "tup_EventTimestamp u = Some (ev_Timestamp ev)"
    using assms(2) changed fin
    by (auto simp: event_update_def upd_key_def ev_key_def changed_update_def done_update_def
        split: if_splits sum.splits)
qed

section \<open>The service implements the specification\<close>

text \<open>An application that succeeds stores exactly the task of the specification, with a new ETag;
  one that fails changes no task.\<close>

definition task_outcome ::
  "event \<Rightarrow> (key \<Rightarrow> task_entity option) \<Rightarrow> go_error option \<Rightarrow> (key \<Rightarrow> task_entity option) \<Rightarrow> bool" where
  "task_outcome ev v r v' \<longleftrightarrow>
     (case r of
        None \<Rightarrow> (\<exists>e et. task_effect ev (v (ev_key ev)) = Inr e \<and> v' = v(ev_key ev \<mapsto> e\<lparr>te_ETag := et\<rparr>))
      | Some _ \<Rightarrow> v' = v)"

lemma task_Apply_update:
  assumes "event_update ev = Inr (u, stale)"
  shows "task_Apply st ev w =
    (case ts_GetTask st (ev_UserID ev) (ev_EntityID ev) w of
       (Inl e, w1) \<Rightarrow> Some (Some e, w1)
     | (Inr None, w1) \<Rightarrow> Some (Some (task_err ev ''not found''), w1)
     | (Inr (Some ent), w1) \<Rightarrow>
         (if no_fields u then Some (Some (task_err ev ''update had no fields''), w1)
          else retry_update st ev u stale ent w1))"
  using assms
  by (auto simp: event_update_def task_Apply_def apply_updated_def apply_done_def Let_def
      no_fields_def done_update_def split: if_splits sum.splits prod.splits option.splits)

lemma task_Apply_malformed:
  assumes "event_update ev = Inl e" "ev_Type ev \<noteq> TaskCreated"
  shows "task_Apply st ev w = Some (Some e, w)"
  using assms
  by (auto simp: event_update_def task_Apply_def apply_updated_def split: if_splits sum.splits)

lemma event_update_type: "event_update ev = Inr us \<Longrightarrow> ev_Type ev \<noteq> TaskCreated"
  by (auto simp: event_update_def)

context task_store
begin

abbreviation svc :: "'w task_storage" where
  "svc \<equiv> \<lparr>ts_GetTask = get, ts_InsertTask = ins, ts_UpdateTask = upd\<rparr>"

text \<open>Between a read and the following update nobody else acts here, so one round is enough.\<close>

lemma retry_once:
  assumes "inv w" "view w (upd_key u) = Some ent" "task_update_ok u"
    "te_EventTimestamp ent < ev_Timestamp ev"
  shows "retry_update svc ev u stale ent w = Some (upd u (te_ETag ent) w)"
proof -
  obtain r w1 where upd: "upd u (te_ETag ent) w = (r, w1)" by fastforce
  then have "r \<noteq> Some ErrConcurrencyConflict" using upd_conflict [OF assms(1,3)] assms(2) by auto
  then show ?thesis
    using assms(4) upd by (subst retry_update.simps) (auto split: option.splits)
qed

lemma apply_update_law:
  assumes "inv w" "event_ok ev" "event_update ev = Inr (u, stale)"
  shows "\<exists>r w'. task_Apply svc ev w = Some (r, w') \<and> inv w' \<and>
    task_outcome ev (view w) r (view w') \<and>
    (\<forall>err. task_effect ev (view w (ev_key ev)) = Inl err \<longrightarrow>
       r = Some err \<or> (\<exists>e w1. get (ev_UserID ev) (ev_EntityID ev) w = (Inl e, w1) \<and> r = Some e))"
proof -
  note u = event_update_ok [OF assms(2,3)] event_update_type [OF assms(3)]
  obtain res w1 where get: "get (ev_UserID ev) (ev_EntityID ev) w = (res, w1)" by fastforce
  note g = get_law [OF assms(1) get]
  show ?thesis
  proof (cases res)
    case (Inl e)
    with get g show ?thesis
      by (simp add: task_Apply_update [OF assms(3)] task_outcome_def)
  next
    case (Inr x)
    then have x: "x = view w (ev_key ev)" using g by (simp add: ev_key_def)
    show ?thesis
    proof (cases x)
      case None
      with x get g Inr u show ?thesis
        by (simp add: task_Apply_update [OF assms(3)] task_outcome_def task_effect_def assms(3))
    next
      case (Some ent)
      have ap: "task_Apply svc ev w =
          (if no_fields u then Some (Some (task_err ev ''update had no fields''), w1)
           else retry_update svc ev u stale ent w1)"
        using get Inr Some by (simp add: task_Apply_update [OF assms(3)])
      have vw: "view w (ev_key ev) = Some ent" using x Some by simp
      show ?thesis
      proof (cases "no_fields u \<or> ev_Timestamp ev \<le> te_EventTimestamp ent")
        case True
        then have "task_Apply svc ev w = Some (Some (task_err ev
            (if no_fields u then ''update had no fields'' else stale)), w1)"
          by (auto simp: ap retry_update.simps)
        with True vw g u show ?thesis
          by (auto simp: task_outcome_def task_effect_def assms(3))
      next
        case False
        obtain r w2 where upd: "upd u (te_ETag ent) w1 = (r, w2)" by fastforce
        have vk: "view w1 (upd_key u) = Some ent" using vw g u(2) by simp
        have app: "task_Apply svc ev w = Some (r, w2)"
          using ap False retry_once [of w1 u ent ev stale] g vk u(1) upd by auto
        have eff: "task_effect ev (view w (ev_key ev)) = Inr (merge_task u ent)"
          using False vw u by (simp add: task_effect_def assms(3))
        show ?thesis
        proof (cases r)
          case None
          with upd_ok [of w1 u "te_ETag ent" w2] g upd u(1,2) vk app eff show ?thesis
            by (auto simp: task_outcome_def)
        next
          case (Some err)
          with upd_err [of w1 u "te_ETag ent" err w2] g upd app eff show ?thesis
            by (auto simp: task_outcome_def)
        qed
      qed
    qed
  qed
qed

lemma apply_created_law:
  assumes "inv w" "event_ok ev" "ev_Type ev = TaskCreated"
  shows "\<exists>r w'. task_Apply svc ev w = Some (r, w') \<and> inv w' \<and>
    task_outcome ev (view w) r (view w') \<and>
    (\<forall>err. task_effect ev (view w (ev_key ev)) = Inl err \<longrightarrow>
       r = Some err \<or> (\<exists>e w1. get (ev_UserID ev) (ev_EntityID ev) w = (Inl e, w1) \<and> r = Some e))"
proof (cases "unmarshal_raw decode_task_created (ev_Data ev)")
  case (Inl e)
  with assms show ?thesis
    by (simp add: task_Apply_def apply_created_def task_outcome_def task_effect_def)
next
  case (Inr d)
  note ent = created_entity_ok [OF assms(2) Inr]
  obtain res w1 where get: "get (ev_UserID ev) (ev_EntityID ev) w = (res, w1)" by fastforce
  note g = get_law [OF assms(1) get]
  have app: "task_Apply svc ev w = Some (case res of Inl e \<Rightarrow> (Some e, w1)
      | Inr (Some _) \<Rightarrow> (Some (task_err ev ''already exists''), w1)
      | Inr None \<Rightarrow> ins (created_entity ev d) w1)"
    using assms(3) Inr get
    by (simp add: task_Apply_def apply_created_def split: sum.splits option.splits)
  show ?thesis
  proof (cases "res = Inr None")
    case False
    then show ?thesis
      using g assms(3) get Inr
      by (cases res) (auto simp: app task_outcome_def task_effect_def ev_key_def split: option.splits)
  next
    case True
    then have vk: "view w (ev_key ev) = None" using g by (simp add: ev_key_def)
    obtain r w2 where ins: "ins (created_entity ev d) w1 = (r, w2)" by fastforce
    have eff: "task_effect ev (view w (ev_key ev)) = Inr (created_entity ev d)"
      using assms(3) Inr vk by (simp add: task_effect_def)
    show ?thesis
    proof (cases r)
      case None
      with True ins app eff g ent ins_ok [of w1 "created_entity ev d" w2] show ?thesis
        by (auto simp: task_outcome_def)
    next
      case (Some err)
      with True ins app eff g ins_err [of w1 "created_entity ev d" err w2] show ?thesis
        by (auto simp: task_outcome_def)
    qed
  qed
qed

theorem apply_law:
  assumes "inv w" "event_ok ev"
  shows "\<exists>r w'. task_Apply svc ev w = Some (r, w') \<and> inv w' \<and>
    task_outcome ev (view w) r (view w') \<and>
    (\<forall>err. task_effect ev (view w (ev_key ev)) = Inl err \<longrightarrow>
       r = Some err \<or> (\<exists>e w1. get (ev_UserID ev) (ev_EntityID ev) w = (Inl e, w1) \<and> r = Some e))"
proof (cases "ev_Type ev = TaskCreated")
  case True
  with assms show ?thesis by (rule apply_created_law)
next
  case False
  show ?thesis
  proof (cases "event_update ev")
    case (Inl e)
    with False assms show ?thesis
      using task_Apply_malformed [OF Inl False, of svc w]
      by (auto simp: task_outcome_def task_effect_def)
  next
    case (Inr us)
    then obtain u stale where "event_update ev = Inr (u, stale)" by (cases us) auto
    with assms show ?thesis by (rule apply_update_law)
  qed
qed

end

section \<open>Consequences for the specification\<close>

text \<open>What an accepted event leaves behind carries the event's timestamp, and it is later than
  the timestamp of what it replaces.\<close>

lemma task_effect_timestamp:
  assumes "event_ok ev" "task_effect ev old = Inr e"
  shows "te_EventTimestamp e = ev_Timestamp ev" "ent_key e = (case old of None \<Rightarrow> ev_key ev | Some o' \<Rightarrow> ent_key o')"
    "old = Some e0 \<Longrightarrow> te_EventTimestamp e0 < ev_Timestamp ev"
  using assms event_update_ok(3) [OF assms(1)]
  by (auto simp: task_effect_def created_entity_def merge_task_def ent_key_def ev_key_def
      split: if_splits sum.splits option.splits)

text \<open>An event that was accepted is refused when it is delivered again.\<close>

lemma task_effect_again:
  assumes "event_ok ev" "task_effect ev old = Inr e" "te_EventTimestamp e' = te_EventTimestamp e"
  shows "\<exists>err. task_effect ev (Some e') = Inl err"
  using assms task_effect_timestamp(1) [OF assms(1,2)]
  by (auto simp: task_effect_def split: if_splits sum.splits option.splits)

end
