(* ===== verification/User_Service.thy ===== *)
theory User_Service
  imports Task_Store
begin

text \<open>
  \<open>UserService\<close> (\<open>read-model-updater/domain/user_service.go\<close>): applying user and settings
  events. The locale \<open>settings_store\<close> is the part of the interface \<open>UserStorage\<close> that keeps
  settings; \<open>settings_effect\<close> is the abstract specification of a settings event.
\<close>

section \<open>The service\<close>

record 'w user_storage =
  us_UpsertUser :: "user_entity \<Rightarrow> 'w \<Rightarrow> go_error option \<times> 'w"
  us_GetUserSettings :: "string \<Rightarrow> 'w \<Rightarrow> (go_error + user_settings_entity option) \<times> 'w"
  us_UpsertUserSettings :: "user_settings_entity \<Rightarrow> 'w \<Rightarrow> go_error option \<times> 'w"
  us_UpdateUserSettings :: "user_settings_update \<Rightarrow> 'w \<Rightarrow> go_error option \<times> 'w"

definition as_user_storage :: "'w rmu_storage \<Rightarrow> 'w user_storage" where
  "as_user_storage st =
     \<lparr>us_UpsertUser = UpsertUser st, us_GetUserSettings = GetUserSettings st,
      us_UpsertUserSettings = UpsertUserSettings st, us_UpdateUserSettings = UpdateUserSettings st\<rparr>"

definition settings_err :: "event \<Rightarrow> string \<Rightarrow> go_error" where
  "settings_err ev m = ErrText (''settings '' @ ev_EntityID ev @ '' '' @ m)"

definition user_of_event :: "event \<Rightarrow> user_event_data \<Rightarrow> user_entity" where
  "user_of_event ev d =
     \<lparr>ue_PartitionKey = ev_EntityID ev, ue_RowKey = ev_EntityID ev, ue_EntName = ue_Name d,
      ue_EntEmail = ue_Email d\<rparr>"

definition created_settings :: "event \<Rightarrow> user_settings_event_data \<Rightarrow> user_settings_entity" where
  "created_settings ev d =
     \<lparr>se_PartitionKey = ev_EntityID ev, se_RowKey = ev_EntityID ev,
      se_TasksPerCategory = us_TasksPerCategory d, se_ShowDoneTasks = us_ShowDoneTasks d,
      se_EventTimestamp = ev_Timestamp ev\<rparr>"

definition initial_settings ::
  "event \<Rightarrow> user_settings_updated_event_data \<Rightarrow> user_settings_entity" where
  "initial_settings ev d =
     \<lparr>se_PartitionKey = ev_EntityID ev, se_RowKey = ev_EntityID ev,
      se_TasksPerCategory = or_old 0 (uu_TasksPerCategory d),
      se_ShowDoneTasks = or_old False (uu_ShowDoneTasks d), se_EventTimestamp = ev_Timestamp ev\<rparr>"

definition settings_update_of ::
  "event \<Rightarrow> user_settings_updated_event_data \<Rightarrow> user_settings_update" where
  "settings_update_of ev d =
     \<lparr>su_PartitionKey = ev_EntityID ev, su_RowKey = ev_EntityID ev,
      su_TasksPerCategory = uu_TasksPerCategory d, su_ShowDoneTasks = uu_ShowDoneTasks d,
      su_EventTimestamp = Some (ev_Timestamp ev)\<rparr>"

definition apply_user_created :: "'w user_storage \<Rightarrow> event \<Rightarrow> 'w \<Rightarrow> go_error option \<times> 'w" where
  "apply_user_created st ev w =
     (case unmarshal_raw decode_user_event_data (ev_Data ev) of
        Inl e \<Rightarrow> (Some e, w)
      | Inr d \<Rightarrow> us_UpsertUser st (user_of_event ev d) w)"

definition apply_settings_created ::
  "'w user_storage \<Rightarrow> event \<Rightarrow> 'w \<Rightarrow> go_error option \<times> 'w" where
  "apply_settings_created st ev w =
     (case unmarshal_raw decode_user_settings (ev_Data ev) of
        Inl e \<Rightarrow> (Some e, w)
      | Inr d \<Rightarrow>
          (case us_GetUserSettings st (ev_EntityID ev) w of
             (Inl e, w1) \<Rightarrow> (Some e, w1)
           | (Inr (Some _), w1) \<Rightarrow> (Some (settings_err ev ''already exists''), w1)
           | (Inr None, w1) \<Rightarrow> us_UpsertUserSettings st (created_settings ev d) w1))"

definition apply_settings_updated ::
  "'w user_storage \<Rightarrow> event \<Rightarrow> 'w \<Rightarrow> go_error option \<times> 'w" where
  "apply_settings_updated st ev w =
     (case unmarshal_raw decode_user_settings_updated (ev_Data ev) of
        Inl e \<Rightarrow> (Some e, w)
      | Inr d \<Rightarrow>
          (case us_GetUserSettings st (ev_EntityID ev) w of
             (Inl e, w1) \<Rightarrow> (Some e, w1)
           | (Inr None, w1) \<Rightarrow> us_UpsertUserSettings st (initial_settings ev d) w1
           | (Inr (Some ent), w1) \<Rightarrow>
               (if ev_Timestamp ev \<le> se_EventTimestamp ent
                then (Some (settings_err ev ''received stale update''), w1)
                else (let u = settings_update_of ev d in
                      if su_TasksPerCategory u \<noteq> None \<or> su_ShowDoneTasks u \<noteq> None
                      then us_UpdateUserSettings st u w1
                      else (Some (settings_err ev ''update had no fields''), w1)))))"

definition user_Apply :: "'w user_storage \<Rightarrow> event \<Rightarrow> 'w \<Rightarrow> go_error option \<times> 'w" where
  "user_Apply st ev w =
     (if ev_Type ev = UserCreated then apply_user_created st ev w
      else if ev_Type ev = UserLoggedIn then (None, w)
      else if ev_Type ev = UserLoggedOut then (None, w)
      else if ev_Type ev = UserSettingsCreated then apply_settings_created st ev w
      else if ev_Type ev = UserSettingsUpdated then apply_settings_updated st ev w
      else (Some (ErrText (''unknown user event '' @ ev_Type ev)), w))"

section \<open>Specification\<close>

definition merge_settings :: "user_settings_update \<Rightarrow> user_settings_entity \<Rightarrow> user_settings_entity" where
  "merge_settings u e = e\<lparr>
     se_TasksPerCategory := or_old (se_TasksPerCategory e) (su_TasksPerCategory u),
     se_ShowDoneTasks := or_old (se_ShowDoneTasks e) (su_ShowDoneTasks u),
     se_EventTimestamp := or_old (se_EventTimestamp e) (su_EventTimestamp u)\<rparr>"

text \<open>What an event makes of the stored settings of its entity: a refusal, or the settings
  afterwards. Events that do not concern settings leave them alone.\<close>

definition settings_effect ::
  "event \<Rightarrow> user_settings_entity option \<Rightarrow> go_error + user_settings_entity option" where
  "settings_effect ev old =
     (if ev_Type ev = UserCreated then
        (case unmarshal_raw decode_user_event_data (ev_Data ev) of Inl e \<Rightarrow> Inl e | Inr _ \<Rightarrow> Inr old)
      else if ev_Type ev \<in> {UserLoggedIn, UserLoggedOut} then Inr old
      else if ev_Type ev = UserSettingsCreated then
        (case unmarshal_raw decode_user_settings (ev_Data ev) of
           Inl e \<Rightarrow> Inl e
         | Inr d \<Rightarrow> (case old of Some _ \<Rightarrow> Inl (settings_err ev ''already exists'')
                               | None \<Rightarrow> Inr (Some (created_settings ev d))))
      else if ev_Type ev = UserSettingsUpdated then
        (case unmarshal_raw decode_user_settings_updated (ev_Data ev) of
           Inl e \<Rightarrow> Inl e
         | Inr d \<Rightarrow>
             (case old of
                None \<Rightarrow> Inr (Some (initial_settings ev d))
              | Some e \<Rightarrow>
                  (if ev_Timestamp ev \<le> se_EventTimestamp e
                   then Inl (settings_err ev ''received stale update'')
                   else if uu_TasksPerCategory d = None \<and> uu_ShowDoneTasks d = None
                   then Inl (settings_err ev ''update had no fields'')
                   else Inr (Some (merge_settings (settings_update_of ev d) e)))))
      else Inl (ErrText (''unknown user event '' @ ev_Type ev)))"

definition settings_ok :: "user_settings_entity \<Rightarrow> bool" where
  "settings_ok e \<longleftrightarrow> valid_utf8 (se_PartitionKey e) \<and> se_RowKey e = se_PartitionKey e \<and>
     in_i64 (se_TasksPerCategory e) \<and> in_i64 (se_EventTimestamp e)"

definition settings_update_ok :: "user_settings_update \<Rightarrow> bool" where
  "settings_update_ok u \<longleftrightarrow> valid_utf8 (su_PartitionKey u) \<and> su_RowKey u = su_PartitionKey u \<and>
     opt_all in_i64 (su_TasksPerCategory u) \<and> opt_all in_i64 (su_EventTimestamp u)"

section \<open>The contract of the settings store\<close>

locale settings_store =
  fixes upsert_user :: "user_entity \<Rightarrow> 'w \<Rightarrow> go_error option \<times> 'w"
    and get :: "string \<Rightarrow> 'w \<Rightarrow> (go_error + user_settings_entity option) \<times> 'w"
    and upsert :: "user_settings_entity \<Rightarrow> 'w \<Rightarrow> go_error option \<times> 'w"
    and update :: "user_settings_update \<Rightarrow> 'w \<Rightarrow> go_error option \<times> 'w"
    and view :: "'w \<Rightarrow> string \<Rightarrow> user_settings_entity option"
    and inv :: "'w \<Rightarrow> bool"
  assumes user_law: "inv w \<Longrightarrow> upsert_user ue w = (res, w') \<Longrightarrow> inv w' \<and> view w' = view w"
    and get_law: "inv w \<Longrightarrow> get i w = (r, w') \<Longrightarrow>
        inv w' \<and> view w' = view w \<and> (\<forall>x. r = Inr x \<longrightarrow> x = view w i)"
    and upsert_ok: "inv w \<Longrightarrow> settings_ok s \<Longrightarrow> upsert s w = (None, w') \<Longrightarrow>
        inv w' \<and> view w' = (view w)(se_PartitionKey s \<mapsto> s)"
    and upsert_err: "inv w \<Longrightarrow> upsert s w = (Some err, w') \<Longrightarrow> inv w' \<and> view w' = view w"
    and update_ok: "inv w \<Longrightarrow> settings_update_ok u \<Longrightarrow> update u w = (None, w') \<Longrightarrow>
        inv w' \<and> (\<exists>s. view w (su_PartitionKey u) = Some s \<and>
          view w' = (view w)(su_PartitionKey u \<mapsto> merge_settings u s))"
    and update_err: "inv w \<Longrightarrow> update u w = (Some err, w') \<Longrightarrow> inv w' \<and> view w' = view w"
begin

abbreviation usvc :: "'w user_storage" where
  "usvc \<equiv> \<lparr>us_UpsertUser = upsert_user, us_GetUserSettings = get, us_UpsertUserSettings = upsert,
     us_UpdateUserSettings = update\<rparr>"

end

lemma settings_of_event_ok:
  "event_ok ev \<Longrightarrow> unmarshal_raw decode_user_settings (ev_Data ev) = Inr d \<Longrightarrow>
   settings_ok (created_settings ev d)"
  by (auto simp: unmarshal_raw_Inr settings_ok_def created_settings_def event_ok_def
      dest: decode_user_settings_ok)

lemma settings_update_of_ok:
  assumes "event_ok ev" "unmarshal_raw decode_user_settings_updated (ev_Data ev) = Inr d"
  shows "settings_ok (initial_settings ev d)" "settings_update_ok (settings_update_of ev d)"
  using assms
  by (auto simp: unmarshal_raw_Inr settings_ok_def initial_settings_def event_ok_def
      settings_update_ok_def settings_update_of_def opt_all_def in_i64_def or_old_def
      split: option.splits
      dest: decode_user_settings_updated_ok)

text \<open>A successful application leaves the settings of the specification, a failed one changes
  none.\<close>

definition settings_outcome ::
  "event \<Rightarrow> (string \<Rightarrow> user_settings_entity option) \<Rightarrow> go_error option \<Rightarrow>
   (string \<Rightarrow> user_settings_entity option) \<Rightarrow> bool" where
  "settings_outcome ev v r v' \<longleftrightarrow>
     (case r of
        None \<Rightarrow> (\<exists>s. settings_effect ev (v (ev_EntityID ev)) = Inr s \<and> v' = v(ev_EntityID ev := s))
      | Some _ \<Rightarrow> v' = v)"

context settings_store
begin

theorem user_apply_law:
  assumes "inv w" "event_ok ev" "user_Apply usvc ev w = (r, w')"
  shows "inv w' \<and> settings_outcome ev (view w) r (view w')"
proof -
  obtain g w1 where get: "get (ev_EntityID ev) w = (g, w1)" by fastforce
  note g = get_law [OF assms(1) get]
  have user: "inv w' \<and> settings_outcome ev (view w) r (view w')" if "ev_Type ev = UserCreated"
    using that assms(3) user_law [OF assms(1)] assms(1)
    by (auto simp: user_Apply_def apply_user_created_def settings_outcome_def settings_effect_def
        fun_upd_idem split: sum.splits option.splits)
  have created: "inv w' \<and> settings_outcome ev (view w) r (view w')"
    if ty: "ev_Type ev = UserSettingsCreated"
  proof (cases "unmarshal_raw decode_user_settings (ev_Data ev)")
    case (Inl e)
    with assms ty show ?thesis
      by (auto simp: user_Apply_def apply_settings_created_def settings_outcome_def)
  next
    case (Inr d)
    with ty assms(3) get g settings_of_event_ok [OF assms(2) Inr]
      upsert_ok [of w1 "created_settings ev d" w'] upsert_err [of w1 "created_settings ev d" _ w']
    show ?thesis
      by (auto simp: user_Apply_def apply_settings_created_def settings_outcome_def
          settings_effect_def created_settings_def split: sum.splits option.splits)
  qed
  have updated: "inv w' \<and> settings_outcome ev (view w) r (view w')"
    if ty: "ev_Type ev = UserSettingsUpdated"
  proof (cases "unmarshal_raw decode_user_settings_updated (ev_Data ev)")
    case (Inl e)
    with assms ty show ?thesis
      by (auto simp: user_Apply_def apply_settings_updated_def settings_outcome_def)
  next
    case (Inr d)
    note ok = settings_update_of_ok [OF assms(2) Inr]
    have init: "inv w' \<and> settings_outcome ev (view w) r (view w')" if "g = Inr None"
      using that ty assms(3) get g Inr ok(1) upsert_ok [of w1 "initial_settings ev d" w']
        upsert_err [of w1 "initial_settings ev d" _ w']
      by (auto simp: user_Apply_def apply_settings_updated_def settings_outcome_def
          settings_effect_def initial_settings_def split: sum.splits option.splits)
    have upd: "inv w' \<and> settings_outcome ev (view w) r (view w')" if "g \<noteq> Inr None"
      using that ty assms(3) get g Inr ok(2) update_ok [of w1 "settings_update_of ev d" w']
        update_err [of w1 "settings_update_of ev d" _ w']
      by (auto simp: user_Apply_def apply_settings_updated_def settings_outcome_def Let_def
          settings_effect_def settings_update_of_def split: sum.splits option.splits if_splits)
    from init upd show ?thesis by blast
  qed
  show ?thesis
  proof (cases "ev_Type ev \<in> {UserCreated, UserSettingsCreated, UserSettingsUpdated}")
    case True
    with user created updated show ?thesis by blast
  next
    case False
    with assms show ?thesis
      by (auto simp: user_Apply_def settings_outcome_def settings_effect_def fun_upd_idem
          split: if_splits)
  qed
qed

end

section \<open>The storage package keeps the contract\<close>

definition settings_row :: "key \<Rightarrow> props \<Rightarrow> bool" where
  "settings_row k p \<longleftrightarrow>
     dom p \<subseteq> set settings_row_names \<and> p ''PartitionKey'' = Some (JStr (fst k)) \<and>
     p ''RowKey'' = Some (JStr (snd k)) \<and> opt_int (p ''TasksPerCategory'') \<and>
     opt_bool (p ''ShowDoneTasks'')"

definition row_settings :: "props \<Rightarrow> user_settings_entity" where
  "row_settings p =
     \<lparr>se_PartitionKey = str_of (p ''PartitionKey''), se_RowKey = str_of (p ''RowKey''),
      se_TasksPerCategory = int_of (p ''TasksPerCategory''),
      se_ShowDoneTasks = bool_of (p ''ShowDoneTasks''),
      se_EventTimestamp = parseTimestamp (p ''EventTimestamp'')\<rparr>"

definition settings_view :: "table \<Rightarrow> string \<Rightarrow> user_settings_entity option" where
  "settings_view t i = map_option (\<lambda>pe. row_settings (fst pe)) (t (i, i))"

definition settings_table_ok :: "table \<Rightarrow> bool" where
  "settings_table_ok t \<longleftrightarrow> (\<forall>k p et. t k = Some (p, et) \<longrightarrow> settings_row k p)"

lemma settings_table_okD: "settings_table_ok t \<Longrightarrow> t k = Some (p, et) \<Longrightarrow> settings_row k p"
  unfolding settings_table_ok_def by blast

lemma settings_names_fold:
  "\<forall>n \<in> set settings_row_names. CHR ''.'' \<notin> set (fold_name n) \<and> fold_name n \<noteq> ''TIMESTAMP''"
  by (simp add: settings_row_names_def upper_char_def char_of_def bit_Suc_0_iff)

lemma decode_settings_row_ok:
  assumes row: "settings_row k p" and dist: "distinct (map fst vs)"
    and vs: "\<forall>n. \<not> is_meta n \<longrightarrow> map_of vs n = p n"
  shows "decode_settings_row (JObj vs) = Some (row_settings p)"
proof -
  have clash: "no_clash settings_row_names (fst ` set vs)"
    using row by (intro no_clash_meta [OF _ vs settings_names_fold]) (simp add: settings_row_def)
  have mv: "member_vals settings_row_names n vs = (case p n of None \<Rightarrow> [] | Some x \<Rightarrow> [x])"
    if "n \<in> set settings_row_names" for n
  proof -
    have "\<not> is_meta n" using that by (auto simp: settings_row_names_def is_meta_def)
    then show ?thesis using member_vals_map_of [OF dist clash that] vs by simp
  qed
  have names: "''PartitionKey'' \<in> set settings_row_names" "''RowKey'' \<in> set settings_row_names"
    "''TasksPerCategory'' \<in> set settings_row_names" "''ShowDoneTasks'' \<in> set settings_row_names"
    "''EventTimestamp'' \<in> set settings_row_names"
    by (simp_all add: settings_row_names_def)
  show ?thesis
    using row unfolding settings_row_def
    by (simp add: decode_settings_row_def object_members_def get_string_def get_int_def
        get_bool_def get_raw_def names mv plain_field_opt raw_field_opt row_settings_def)
qed

lemma settings_members_ok:
  assumes "settings_ok s"
  shows "json_parse (json_print (JObj (user_settings_members s))) = Some (JObj (user_settings_members s))"
    "members_key (user_settings_members s) (se_PartitionKey s, se_PartitionKey s)"
    "settings_row (se_PartitionKey s, se_PartitionKey s) (map_of (user_settings_members s))"
    "row_settings (map_of (user_settings_members s)) = s"
    "dom (map_of (user_settings_members s)) = set settings_row_names"
proof -
  show "json_parse (json_print (JObj (user_settings_members s))) = Some (JObj (user_settings_members s))"
    using assms
    by (intro parse_members) (auto simp: user_settings_members_def settings_ok_def max_nesting_def)
  show d: "dom (map_of (user_settings_members s)) = set settings_row_names"
    by (auto simp: user_settings_members_def settings_row_names_def split: if_splits)
  show "members_key (user_settings_members s) (se_PartitionKey s, se_PartitionKey s)"
    using assms by (simp add: user_settings_members_def members_key_def settings_ok_def)
  show "settings_row (se_PartitionKey s, se_PartitionKey s) (map_of (user_settings_members s))"
    unfolding settings_row_def d using assms by (simp add: user_settings_members_def settings_ok_def)
  show "row_settings (map_of (user_settings_members s)) = s"
    using assms by (simp add: user_settings_members_def row_settings_def settings_ok_def)
qed

lemma settings_update_lookup:
  "map_of (user_settings_update_members u) ''PartitionKey'' = Some (JStr (su_PartitionKey u))"
  "map_of (user_settings_update_members u) ''RowKey'' = Some (JStr (su_RowKey u))"
  "map_of (user_settings_update_members u) ''TasksPerCategory'' = map_option JInt (su_TasksPerCategory u)"
  "map_of (user_settings_update_members u) ''ShowDoneTasks'' = map_option JBool (su_ShowDoneTasks u)"
  "map_of (user_settings_update_members u) ''EventTimestamp'' = map_option JIntStr (su_EventTimestamp u)"
  by (simp_all add: user_settings_update_members_def omit_nil_def split: option.splits)

lemma settings_update_members_ok:
  assumes "settings_update_ok u"
  shows "json_parse (json_print (JObj (user_settings_update_members u))) =
      Some (JObj (user_settings_update_members u))"
    "members_key (user_settings_update_members u) (su_PartitionKey u, su_PartitionKey u)"
proof -
  show "json_parse (json_print (JObj (user_settings_update_members u))) =
      Some (JObj (user_settings_update_members u))"
    using assms
    by (intro parse_members)
      (auto simp: user_settings_update_members_def settings_update_ok_def max_nesting_def opt_all_def
        split: option.splits)
  show "members_key (user_settings_update_members u) (su_PartitionKey u, su_PartitionKey u)"
    using assms
    by (auto simp: user_settings_update_members_def members_key_def settings_update_ok_def
        omit_nil_def split: option.splits)
qed

lemma settings_update_row:
  assumes "settings_row (i, i) p" "settings_update_ok u" "su_PartitionKey u = i"
  shows "settings_row (i, i) (p ++ map_of (user_settings_update_members u))"
    "row_settings (p ++ map_of (user_settings_update_members u)) = merge_settings u (row_settings p)"
proof -
  have "dom (map_of (user_settings_update_members u)) \<subseteq> set settings_row_names"
    by (auto simp: dom_map_of_conv_image_fst user_settings_update_members_def omit_nil_def
        settings_row_names_def split: option.splits)
  then show "settings_row (i, i) (p ++ map_of (user_settings_update_members u))"
    "row_settings (p ++ map_of (user_settings_update_members u)) = merge_settings u (row_settings p)"
    using assms
    by (auto simp: settings_row_def row_settings_def map_add_opt settings_update_lookup
        settings_update_ok_def opt_all_def merge_settings_def or_old_def split: option.splits)
qed

text \<open>A storage whose settings table behaves as documented, and whose user table is another
  one.\<close>

locale settings_table =
  fixes st :: "'w rmu_storage"
    and tbl :: "'w \<Rightarrow> table"
    and issued :: "'w \<Rightarrow> string set"
    and tinv :: "'w \<Rightarrow> bool"
  assumes azure: "azure_table (st_settingsTable st) tbl issued tinv"
    and separate: "tinv w \<Longrightarrow> UpsertEntity (st_userTable st) payload w = (res, w') \<Longrightarrow>
        tinv w' \<and> tbl w' = tbl w"
begin

lemma GetUserSettings_law:
  assumes "tinv w" "settings_table_ok (tbl w)" "GetUserSettings st i w = (r, w')"
  shows "tinv w' \<and> tbl w' = tbl w \<and> (\<forall>x. r = Inr x \<longrightarrow> x = settings_view (tbl w) i)"
proof (cases "GetEntity (st_settingsTable st) i i w")
  case (Pair res w1)
  show ?thesis
  proof (cases res)
    case (Inl e)
    with Pair assms show ?thesis
      using azure_table.get_err [OF azure assms(1), of i i e w1]
      by (auto simp: GetUserSettings_def settings_view_def split: if_splits)
  next
    case (Inr ve)
    then obtain val et where res: "res = Inr (val, et)" by (cases ve) auto
    obtain vs p where row: "tbl w (i, i) = Some (p, et)" and v: "json_parse val = Some (JObj vs)"
      "distinct (map fst vs)" "\<forall>n. \<not> is_meta n \<longrightarrow> map_of vs n = p n"
      and w1: "tinv w1" "tbl w1 = tbl w"
      using azure_table.get_ok [OF azure assms(1), of i i val et w1] Pair res by auto
    note settings_table_okD [OF assms(2) row]
    then have "unmarshal_text decode_settings_row val = Inr (row_settings p)"
      using decode_settings_row_ok [of "(i, i)" p vs] v by (simp add: unmarshal_text_def)
    with Pair res assms(3) w1 row show ?thesis
      by (auto simp: GetUserSettings_def settings_view_def)
  qed
qed

lemma UpsertUserSettings_law:
  assumes "tinv w" "settings_table_ok (tbl w)" "settings_ok s" "UpsertUserSettings st s w = (None, w')"
  shows "tinv w'" "settings_table_ok (tbl w')"
    "settings_view (tbl w') = (settings_view (tbl w))(se_PartitionKey s \<mapsto> s)"
proof -
  let ?k = "(se_PartitionKey s, se_PartitionKey s)"
  note ok = settings_members_ok [OF assms(3)]
  obtain p et where new: "tinv w'" "tbl w' = (tbl w)(?k \<mapsto> (p, et))"
    and p: "p = map_of (user_settings_members s) \<or>
      (\<exists>p0 et0. tbl w ?k = Some (p0, et0) \<and> p = p0 ++ map_of (user_settings_members s))"
    using azure_table.ups_ok [OF azure assms(1) _ ok(1,2), of w'] assms(4)
    unfolding UpsertUserSettings_def by blast
  have "p0 ++ map_of (user_settings_members s) = map_of (user_settings_members s)"
    if "tbl w ?k = Some (p0, et0)" for p0 et0
    using settings_table_okD [OF assms(2) that] ok(5)
    by (intro map_add_subsumed_dom) (simp add: settings_row_def)
  with p have p: "p = map_of (user_settings_members s)" by blast
  show "tinv w'" by (rule new)
  show "settings_table_ok (tbl w')"
    using assms(2) ok(3) by (auto simp: new(2) p settings_table_ok_def)
  show "settings_view (tbl w') = (settings_view (tbl w))(se_PartitionKey s \<mapsto> s)"
    using ok(4) by (auto simp: new(2) p settings_view_def)
qed

lemma UpdateUserSettings_law:
  assumes "tinv w" "settings_table_ok (tbl w)" "settings_update_ok u"
    "UpdateUserSettings st u w = (None, w')"
  shows "tinv w'" "settings_table_ok (tbl w')"
    "\<exists>s. settings_view (tbl w) (su_PartitionKey u) = Some s \<and>
       settings_view (tbl w') = (settings_view (tbl w))(su_PartitionKey u \<mapsto> merge_settings u s)"
proof -
  let ?i = "su_PartitionKey u"
  note ok = settings_update_members_ok [OF assms(3)]
  obtain p et0 et where row: "tinv w'" "tbl w (?i, ?i) = Some (p, et0)"
    and tbl': "tbl w' = (tbl w)((?i, ?i) \<mapsto> (p ++ map_of (user_settings_update_members u), et))"
    using azure_table.upd_ok [OF azure assms(1) _ ok, of ETagAny w'] assms(4)
    unfolding UpdateUserSettings_def by blast
  note upd = settings_update_row [OF settings_table_okD [OF assms(2) row(2)] assms(3) refl]
  show "tinv w'" by (rule row)
  show "settings_table_ok (tbl w')" using assms(2) upd(1) by (auto simp: tbl' settings_table_ok_def)
  show "\<exists>s. settings_view (tbl w) ?i = Some s \<and>
      settings_view (tbl w') = (settings_view (tbl w))(?i \<mapsto> merge_settings u s)"
    using row(2) upd(2) by (auto simp: settings_view_def tbl' fun_eq_iff)
qed

end

sublocale settings_table \<subseteq> us: settings_store "UpsertUser st" "GetUserSettings st"
  "UpsertUserSettings st" "UpdateUserSettings st" "\<lambda>w. settings_view (tbl w)"
  "\<lambda>w. tinv w \<and> settings_table_ok (tbl w)"
proof (unfold_locales, goal_cases)
  case (1 w ue res w')
  then show ?case using separate [of w _ res w'] by (auto simp: UpsertUser_def)
next
  case (2 w i r w')
  then show ?case using GetUserSettings_law [of w i r w'] by auto
next
  case (3 w s w')
  then show ?case using UpsertUserSettings_law [of w s w'] by blast
next
  case (4 w s err w')
  then show ?case using azure_table.ups_err [OF azure, of w] by (auto simp: UpsertUserSettings_def)
next
  case (5 w u w')
  then show ?case using UpdateUserSettings_law [of w u w'] by blast
next
  case (6 w u err w')
  then show ?case using azure_table.upd_err [OF azure, of w] by (auto simp: UpdateUserSettings_def)
qed

context settings_table
begin

lemma is_settings_store: "settings_store (UpsertUser st) (GetUserSettings st) (UpsertUserSettings st)
    (UpdateUserSettings st) (\<lambda>w. settings_view (tbl w)) (\<lambda>w. tinv w \<and> settings_table_ok (tbl w))"
  by (rule us.settings_store_axioms)

end

end
