(* ===== verification/Redis_Client.thy ===== *)
theory Redis_Client
  imports Prelude
begin

text \<open>
  The Redis client (\<open>go-redis\<close>) is third-party code: a value of type \<open>'w redis_client\<close> is an
  argument of the definitions that call it. The locale \<open>redis_store\<close> states what the services
  rely on, with the current value of each live key as the abstract state.
\<close>

datatype redis_reply = RedisValue string | RedisNil | RedisError go_error

record 'w redis_client =
  rc_Get :: "string \<Rightarrow> 'w \<Rightarrow> redis_reply \<times> 'w"
  rc_Set :: "string \<Rightarrow> string \<Rightarrow> int \<Rightarrow> 'w \<Rightarrow> go_error option \<times> 'w"
  rc_Del :: "string \<Rightarrow> 'w \<Rightarrow> go_error option \<times> 'w"
  rc_Publish :: "string \<Rightarrow> string \<Rightarrow> 'w \<Rightarrow> go_error option \<times> 'w"

text \<open>A read returns the current value or none of it; a successful \<open>SET\<close> stores the value and
  a successful \<open>DEL\<close> removes it; an unsuccessful one may or may not have been executed; other
  keys are left alone; publishing does not touch any key.\<close>

locale redis_store =
  fixes rc :: "'w redis_client"
    and kv :: "'w \<Rightarrow> string \<rightharpoonup> string"
  assumes get_value: "rc_Get rc k w = (RedisValue v, w') \<Longrightarrow> kv w k = Some v"
    and get_same: "rc_Get rc k w = (rep, w') \<Longrightarrow> kv w' = kv w"
    and set_ok: "rc_Set rc k v ttl w = (None, w') \<Longrightarrow> kv w' = (kv w)(k \<mapsto> v)"
    and set_err: "rc_Set rc k v ttl w = (Some e, w') \<Longrightarrow> kv w' = kv w \<or> kv w' = (kv w)(k \<mapsto> v)"
    and del_ok: "rc_Del rc k w = (None, w') \<Longrightarrow> kv w' = (kv w)(k := None)"
    and del_err: "rc_Del rc k w = (Some e, w') \<Longrightarrow> kv w' = kv w \<or> kv w' = (kv w)(k := None)"
    and publish_same: "rc_Publish rc c m w = (res, w') \<Longrightarrow> kv w' = kv w"

section \<open>A reference store\<close>

text \<open>Values by key and the messages published so far.\<close>

record ref_redis =
  rr_values :: "(string \<times> string) list"
  rr_published :: "(string \<times> string) list"

definition empty_redis :: ref_redis where
  "empty_redis = \<lparr>rr_values = [], rr_published = []\<rparr>"

definition ref_redis_client ::
  "('w \<Rightarrow> ref_redis) \<Rightarrow> (ref_redis \<Rightarrow> 'w \<Rightarrow> 'w) \<Rightarrow> 'w redis_client" where
  "ref_redis_client sel put =
     \<lparr>rc_Get = (\<lambda>k w. (case map_of (rr_values (sel w)) k of None \<Rightarrow> RedisNil | Some v \<Rightarrow> RedisValue v, w)),
      rc_Set = (\<lambda>k v ttl w. (None, put ((sel w)\<lparr>rr_values := (k, v) # rr_values (sel w)\<rparr>) w)),
      rc_Del = (\<lambda>k w. (None, put ((sel w)\<lparr>rr_values := [kv \<leftarrow> rr_values (sel w). fst kv \<noteq> k]\<rparr>) w)),
      rc_Publish = (\<lambda>c m w. (None, put ((sel w)\<lparr>rr_published := rr_published (sel w) @ [(c, m)]\<rparr>) w))\<rparr>"

lemma map_of_delete: "map_of [kv \<leftarrow> kvs. fst kv \<noteq> k] = (map_of kvs)(k := None)"
  by (induction kvs) (auto simp: fun_eq_iff)

lemma ref_redis_store:
  assumes lens: "\<And>t w. sel (put t w) = t"
  shows "redis_store (ref_redis_client sel put) (\<lambda>w. map_of (rr_values (sel w)))"
  by unfold_locales
    (auto simp: ref_redis_client_def lens map_of_delete split: option.splits)

text \<open>The store with the reference state alone as the world.\<close>

interpretation rr: redis_store "ref_redis_client (\<lambda>w. w) (\<lambda>t w. t)" "\<lambda>w. map_of (rr_values w)"
  by (rule ref_redis_store) simp

end
