(* ===== verification/Continuation_Token.thy ===== *)
theory Continuation_Token
  imports Go_Json_Struct
begin

text \<open>
  Continuation tokens: the base64url text of two length-prefixed keys. Both services encode them
  (\<open>encodeContinuationToken\<close> of \<open>prism-api/storage/storage.go\<close> and of
  \<open>read-model-updater/cache.go\<close>, the same code); the API decodes them
  (\<open>decodeContinuationToken\<close>), falling back to an older JSON form.
\<close>

section \<open>base64.RawURLEncoding\<close>

definition b64_alphabet :: string where
  "b64_alphabet = ''ABCDEFGHIJKLMNOPQRSTUVWXYZabcdefghijklmnopqrstuvwxyz0123456789-_''"

definition b64_char :: "nat \<Rightarrow> char" where
  "b64_char n = b64_alphabet ! n"

fun index_of :: "char \<Rightarrow> string \<Rightarrow> nat option" where
  "index_of c [] = None"
| "index_of c (d # ds) = (if c = d then Some 0 else map_option Suc (index_of c ds))"

definition b64_val :: "char \<Rightarrow> nat option" where
  "b64_val c = index_of c b64_alphabet"

text \<open>\<open>EncodeToString\<close>.\<close>

fun b64_sextets :: "nat list \<Rightarrow> nat list" where
  "b64_sextets [] = []"
| "b64_sextets [a] = [a div 4, (a mod 4) * 16]"
| "b64_sextets [a, b] = [a div 4, (a mod 4) * 16 + b div 16, (b mod 16) * 4]"
| "b64_sextets (a # b # c # r) =
     [a div 4, (a mod 4) * 16 + b div 16, (b mod 16) * 4 + c div 64, c mod 64] @ b64_sextets r"

definition b64_encode :: "string \<Rightarrow> string" where
  "b64_encode s = map b64_char (b64_sextets (map byte s))"

text \<open>\<open>DecodeString\<close>: line breaks are skipped, unused trailing bits are not checked.\<close>

fun b64_bytes :: "nat list \<Rightarrow> nat list option" where
  "b64_bytes [] = Some []"
| "b64_bytes [p] = None"
| "b64_bytes [p, q] = Some [p * 4 + q div 16]"
| "b64_bytes [p, q, r] = Some [p * 4 + q div 16, (q mod 16) * 16 + r div 4]"
| "b64_bytes (p # q # r # s # t) =
     map_option (\<lambda>bs. [p * 4 + q div 16, (q mod 16) * 16 + r div 4, (r mod 4) * 64 + s] @ bs)
       (b64_bytes t)"

definition b64_decode :: "string \<Rightarrow> go_error + string" where
  "b64_decode s =
     (let cs = [c \<leftarrow> s. c \<noteq> CHR 0x0A \<and> c \<noteq> CHR 0x0D];
          vs = map b64_val cs
      in if None \<in> set vs then Inl ErrBase64
         else (case b64_bytes (map the vs) of
                 None \<Rightarrow> Inl ErrBase64
               | Some bs \<Rightarrow> Inr (map char_of bs)))"

section \<open>The token\<close>

text \<open>\<open>binary.BigEndian.PutUint32\<close> after the conversion to \<open>uint32\<close>, and \<open>Uint32\<close>.\<close>

definition be_byte :: "int \<Rightarrow> char" where
  "be_byte x = char_of (nat (x mod 256))"

definition put_uint32 :: "int \<Rightarrow> string" where
  "put_uint32 n = [be_byte (n div 16777216), be_byte (n div 65536), be_byte (n div 256), be_byte n]"

definition get_uint32 :: "string \<Rightarrow> int" where
  "get_uint32 s = foldl (\<lambda>a c. a * 256 + int (byte c)) 0 (take 4 s)"

definition token_bytes :: "string \<Rightarrow> string \<Rightarrow> string" where
  "token_bytes pk rk =
     put_uint32 (int (length pk)) @ put_uint32 (int (length rk)) @ pk @ rk"

definition encodeContinuationToken :: "string option \<Rightarrow> string option \<Rightarrow> go_error + string" where
  "encodeContinuationToken partitionKey rowKey =
     (case (partitionKey, rowKey) of
        (Some pk, Some rk) \<Rightarrow>
          (if length pk = 0 \<or> length rk = 0 then Inr ''''
           else Inr (b64_encode (token_bytes pk rk)))
      | _ \<Rightarrow> Inr '''')"

text \<open>prism-api has its own copy, for the tokens of pages that it reads from the table itself.\<close>

definition api_encodeContinuationToken :: "string option \<Rightarrow> string option \<Rightarrow> go_error + string" where
  "api_encodeContinuationToken partitionKey rowKey =
     (case (partitionKey, rowKey) of
        (Some pk, Some rk) \<Rightarrow>
          (if length pk = 0 \<or> length rk = 0 then Inr ''''
           else Inr (b64_encode (token_bytes pk rk)))
      | _ \<Rightarrow> Inr '''')"

lemma api_token_same [simp]: "api_encodeContinuationToken = encodeContinuationToken"
  by (intro ext) (simp add: api_encodeContinuationToken_def encodeContinuationToken_def)

text \<open>\<open>sonic_ct\<close> is \<open>sonic.Unmarshal\<close> into a \<open>continuationToken\<close>, as the pair of its
  fields.\<close>

definition decodeContinuationToken ::
  "(string \<Rightarrow> go_error + string \<times> string) \<Rightarrow> string \<Rightarrow>
   go_error + string option \<times> string option" where
  "decodeContinuationToken sonic_ct token =
     (if token = '''' then Inr (None, None)
      else (case b64_decode token of
              Inl e \<Rightarrow> Inl e
            | Inr data \<Rightarrow>
                (let pkLen = get_uint32 data;
                     rkLen = get_uint32 (drop 4 data);
                     pk = take (nat pkLen) (drop 8 data);
                     rk = drop (8 + nat pkLen) data
                 in if length data \<ge> 8 \<and> pkLen > 0 \<and> rkLen > 0 \<and> 8 + pkLen + rkLen = int (length data)
                       \<and> pk \<noteq> '''' \<and> rk \<noteq> ''''
                    then Inr (Some pk, Some rk)
                    else (case sonic_ct data of
                            Inl e \<Rightarrow> Inl e
                          | Inr (pk', rk') \<Rightarrow>
                              (if pk' = '''' \<or> rk' = ''''
                               then Inl (ErrText ''missing continuation components'')
                               else Inr (Some pk', Some rk'))))))"

section \<open>Round trips\<close>

lemma index_of_nth: "distinct xs \<Longrightarrow> n < length xs \<Longrightarrow> index_of (xs ! n) xs = Some n"
  by (induction xs arbitrary: n) (auto simp: nth_Cons split: nat.splits)

lemma b64_alphabet_facts:
  "distinct b64_alphabet" "length b64_alphabet = 64" "CHR 0x0A \<notin> set b64_alphabet"
  "CHR 0x0D \<notin> set b64_alphabet"
  by (simp_all add: b64_alphabet_def)

lemma b64_val_char: "n < 64 \<Longrightarrow> b64_val (b64_char n) = Some n"
  by (simp add: b64_val_def b64_char_def index_of_nth b64_alphabet_facts)

lemma b64_char_no_break: "n < 64 \<Longrightarrow> b64_char n \<noteq> CHR 0x0A \<and> b64_char n \<noteq> CHR 0x0D"
  using b64_alphabet_facts nth_mem [of n b64_alphabet] unfolding b64_char_def by metis

lemma b64_sextets_bound: "(\<And>b. b \<in> set bs \<Longrightarrow> b < 256) \<Longrightarrow> n \<in> set (b64_sextets bs) \<Longrightarrow> n < 64"
proof (induction bs rule: b64_sextets.induct)
  case (2 a)
  then show ?case by auto
next
  case (3 a b)
  have "a div 4 < 64" "b div 16 < 16" "a mod 4 < 4" "b mod 16 < 16"
    using 3(1) [of a] 3(1) [of b] by auto
  with 3(2) show ?case by auto
next
  case (4 a b c r)
  have "a div 4 < 64" "b div 16 < 16" "c div 64 < 4" "a mod 4 < 4" "b mod 16 < 16" "c mod 64 < 64"
    using 4(2) [of a] 4(2) [of b] 4(2) [of c] by auto
  with 4(3) 4(1) [OF 4(2)] show ?case by auto
qed simp

lemma sextet_join:
  fixes a b c :: nat
  assumes "a < 256" "b < 256" "c < 256"
  shows "a div 4 * 4 + ((a mod 4) * 16 + b div 16) div 16 = a"
    "((a mod 4) * 16 + b div 16) mod 16 * 16 + ((b mod 16) * 4 + c div 64) div 4 = b"
    "((b mod 16) * 4 + c div 64) mod 4 * 64 + c mod 64 = c"
proof -
  have "b div 16 < 16" "c div 64 < 4" using assms by auto
  then have "((a mod 4) * 16 + b div 16) div 16 = a mod 4" "((a mod 4) * 16 + b div 16) mod 16 = b div 16"
    "((b mod 16) * 4 + c div 64) div 4 = b mod 16" "((b mod 16) * 4 + c div 64) mod 4 = c div 64"
    by auto
  then show "a div 4 * 4 + ((a mod 4) * 16 + b div 16) div 16 = a"
    "((a mod 4) * 16 + b div 16) mod 16 * 16 + ((b mod 16) * 4 + c div 64) div 4 = b"
    "((b mod 16) * 4 + c div 64) mod 4 * 64 + c mod 64 = c"
    by simp_all
qed

lemma b64_bytes_sextets:
  "(\<And>b. b \<in> set bs \<Longrightarrow> b < 256) \<Longrightarrow> b64_bytes (b64_sextets bs) = Some bs"
proof (induction bs rule: b64_sextets.induct)
  case (2 a)
  then show ?case using sextet_join(1) [of a 0 0] by simp
next
  case (3 a b)
  then show ?case using sextet_join(1,2) [of a b 0] by simp
next
  case (4 a b c r)
  then show ?case using sextet_join [of a b c] by simp
qed simp

theorem b64_decode_encode [simp]: "b64_decode (b64_encode s) = Inr s"
proof -
  have byte: "byte c < 256" for c by (simp add: of_char_def)
  have "n < 64" if "n \<in> set (b64_sextets (map byte s))" for n
    using that by (rule b64_sextets_bound [rotated]) (auto simp: byte)
  note b = this b64_val_char [OF this] b64_char_no_break [OF this]
  have "[c \<leftarrow> b64_encode s. c \<noteq> CHR 0x0A \<and> c \<noteq> CHR 0x0D] = b64_encode s"
    using b(3) by (intro filter_all_id) (auto simp: b64_encode_def)
  moreover have "map b64_val (b64_encode s) = map Some (b64_sextets (map byte s))"
    using b(2) by (simp add: b64_encode_def)
  moreover have "b64_bytes (b64_sextets (map byte s)) = Some (map byte s)"
    using byte by (intro b64_bytes_sextets) auto
  moreover have "None \<notin> set (map Some (b64_sextets (map byte s)))" by auto
  ultimately show ?thesis
    unfolding b64_decode_def Let_def by (simp only: if_False map_map) (simp add: comp_def)
qed

lemma get_put_uint32:
  assumes "0 \<le> n" "n < 4294967296"
  shows "get_uint32 (put_uint32 n @ s) = n"
proof -
  have b: "int (byte (be_byte x)) = x mod 256" for x
    by (simp add: be_byte_def of_char_of nat_less_iff)
  have join: "x div 256 * 256 + x mod 256 = x" for x :: int
    by (rule div_mult_mod_eq)
  have steps: "n div 16777216 = n div 65536 div 256" "n div 65536 = n div 256 div 256"
    by (simp_all add: zdiv_zmult2_eq [symmetric])
  have top: "n div 16777216 mod 256 = n div 16777216"
    using assms by (intro mod_pos_pos_trivial) (simp_all add: pos_imp_zdiv_nonneg_iff div_less_iff_less_mult)
  have "get_uint32 (put_uint32 n @ s) =
      ((n div 16777216 mod 256 * 256 + n div 65536 mod 256) * 256 + n div 256 mod 256) * 256 + n mod 256"
    unfolding get_uint32_def put_uint32_def by (simp only: append_Cons append_Nil take_Suc_Cons
        numeral_eq_Suc pred_numeral_simps BitM.simps take_0 foldl_Cons foldl_Nil b mult_zero_left add_0)
  also have "\<dots> = n"
    unfolding top unfolding steps(1) join unfolding steps(2) join by (rule refl)
  finally show ?thesis .
qed

lemma b64_sextets_empty [simp]: "b64_sextets bs = [] \<longleftrightarrow> bs = []"
  by (cases bs rule: b64_sextets.cases) simp_all

lemma token_bytes_nonempty [simp]: "b64_encode (token_bytes pk rk) \<noteq> ''''"
  by (simp add: b64_encode_def token_bytes_def put_uint32_def)

text \<open>A token decodes to the keys it was made of, whatever they contain.\<close>

theorem decode_encode_token:
  assumes "pk \<noteq> ''''" "rk \<noteq> ''''" "int (length pk) < 4294967296" "int (length rk) < 4294967296"
  shows "\<exists>t. encodeContinuationToken (Some pk) (Some rk) = Inr t \<and> t \<noteq> '''' \<and>
    decodeContinuationToken sonic_ct t = Inr (Some pk, Some rk)"
proof -
  let ?d = "token_bytes pk rk"
  have pl: "get_uint32 ?d = int (length pk)"
    using assms by (simp add: token_bytes_def get_put_uint32)
  have len4: "length (put_uint32 n) = 4" for n by (simp add: put_uint32_def)
  then have "drop 4 ?d = put_uint32 (int (length rk)) @ pk @ rk" by (simp add: token_bytes_def)
  then have rl: "get_uint32 (drop 4 ?d) = int (length rk)" using assms by (simp add: get_put_uint32)
  have "drop 8 ?d = pk @ rk" and "length ?d = 8 + length pk + length rk"
    by (simp_all add: token_bytes_def len4)
  moreover then have "drop (8 + length pk) ?d = rk"
    by (metis add.commute append_eq_conv_conj drop_drop)
  ultimately show ?thesis
    using assms pl rl by (simp add: encodeContinuationToken_def decodeContinuationToken_def Let_def)
qed

end
