(* ===== verification/Go_Time_Format.thy ===== *)
theory Go_Time_Format
  imports Go_Time
begin

text \<open>
  \<open>time.Time\<close> as JSON: writing a time as RFC 3339 text, reading it strictly, and that what
  was written is accepted.
\<close>

section \<open>Writing a time\<close>

text \<open>A time in UTC, as its calendar fields. \<open>MarshalJSON\<close> refuses years outside four digits;
  trailing zeros of the fraction are dropped.\<close>

record datetime =
  dt_year :: int
  dt_month :: int
  dt_day :: int
  dt_hour :: int
  dt_min :: int
  dt_sec :: int
  dt_nsec :: int

definition valid_datetime :: "datetime \<Rightarrow> bool" where
  "valid_datetime d \<longleftrightarrow> 1 \<le> dt_month d \<and> dt_month d \<le> 12 \<and> 1 \<le> dt_day d \<and>
     dt_day d \<le> month_days (dt_year d) ! nat (dt_month d - 1) \<and> 0 \<le> dt_hour d \<and> dt_hour d < 24 \<and>
     0 \<le> dt_min d \<and> dt_min d < 60 \<and> 0 \<le> dt_sec d \<and> dt_sec d < 60 \<and>
     0 \<le> dt_nsec d \<and> dt_nsec d < 1000000000"

definition pad2 :: "int \<Rightarrow> string" where
  "pad2 n = [digit_char (n div 10 mod 10), digit_char (n mod 10)]"

definition pad4 :: "int \<Rightarrow> string" where
  "pad4 n = pad2 (n div 100) @ pad2 (n mod 100)"

definition frac_text :: "int \<Rightarrow> string" where
  "frac_text n =
     (let ds = pad4 (n div 100000) @ pad4 (n div 10 mod 10000) @ [digit_char (n mod 10)];
          t = rev (dropWhile (\<lambda>c. c = CHR ''0'') (rev ds))
      in if t = [] then [] else CHR ''.'' # t)"

definition format_rfc3339 :: "datetime \<Rightarrow> string" where
  "format_rfc3339 d =
     pad4 (dt_year d) @ ''-'' @ pad2 (dt_month d) @ ''-'' @ pad2 (dt_day d) @ ''T'' @
     pad2 (dt_hour d) @ '':'' @ pad2 (dt_min d) @ '':'' @ pad2 (dt_sec d) @
     frac_text (dt_nsec d) @ ''Z''"

definition marshal_time :: "datetime \<Rightarrow> go_error + string" where
  "marshal_time d =
     (if dt_year d < 0 \<or> dt_year d \<ge> 10000 then Inl ErrJson else Inr (format_rfc3339 d))"

text \<open>\<open>UnmarshalJSON\<close> is stricter than \<open>Parse\<close>.\<close>

definition num2 :: "string \<Rightarrow> int" where
  "num2 s = 10 * digit_of (s ! 0) + digit_of (s ! 1)"

definition parse_strict_rfc3339 :: "string \<Rightarrow> int option" where
  "parse_strict_rfc3339 s =
     (case parse_rfc3339 s of
        None \<Rightarrow> None
      | Some t \<Rightarrow>
          (if s ! 12 = CHR '':'' \<or> s ! 19 = CHR '','' then None
           else if last s \<noteq> CHR ''Z'' \<and>
             (num2 (drop (length s - 5) s) \<ge> 24 \<or> num2 (drop (length s - 2) s) \<ge> 60) then None
           else Some t))"

lemma digit_char_is_digit: "0 \<le> n \<Longrightarrow> n < 10 \<Longrightarrow> is_digit (digit_char n)"
  by (simp add: is_digit_def byte_digit_char)

lemma digit_of_digit_char: "0 \<le> n \<Longrightarrow> n < 10 \<Longrightarrow> digit_of (digit_char n) = n"
  by (simp add: digit_of_def byte_digit_char)

lemma pad2_digits: "\<exists>a b. 0 \<le> a \<and> a < 10 \<and> 0 \<le> b \<and> b < 10 \<and> pad2 n = [digit_char a, digit_char b] \<and>
   (0 \<le> n \<and> n < 100 \<longrightarrow> 10 * a + b = n)"
proof -
  have "0 \<le> n \<and> n < 100 \<longrightarrow> 10 * (n div 10 mod 10) + n mod 10 = n"
  proof
    assume n: "0 \<le> n \<and> n < 100"
    then have "n div 10 mod 10 = n div 10" by (intro mod_pos_pos_trivial) auto
    then show "10 * (n div 10 mod 10) + n mod 10 = n" by simp
  qed
  moreover have "0 \<le> n div 10 mod 10" "n div 10 mod 10 < 10" "0 \<le> n mod 10" "n mod 10 < 10" by simp_all
  ultimately show ?thesis unfolding pad2_def by blast
qed

lemma getnum_pad2: "0 \<le> n \<Longrightarrow> n < 100 \<Longrightarrow> getnum fx (pad2 n @ r) = Some (n, r)"
  using pad2_digits [of n]
  by (auto simp: getnum_def nth_digit_def digit_char_is_digit digit_of_digit_char)

lemma get_year_pad4:
  "\<exists>y. get_year (pad4 n @ r) = Some (y, r) \<and> (0 \<le> n \<and> n < 10000 \<longrightarrow> y = n)"
proof -
  obtain a b where ab: "0 \<le> a" "a < 10" "0 \<le> b" "b < 10" "pad2 (n div 100) = [digit_char a, digit_char b]"
    "0 \<le> n div 100 \<and> n div 100 < 100 \<longrightarrow> 10 * a + b = n div 100"
    using pad2_digits [of "n div 100"] by blast
  obtain c d where cd: "0 \<le> c" "c < 10" "0 \<le> d" "d < 10" "pad2 (n mod 100) = [digit_char c, digit_char d]"
    "10 * c + d = n mod 100"
    using pad2_digits [of "n mod 100"] by auto
  have "get_year (pad4 n @ r) = Some (100 * (10 * a + b) + (10 * c + d), r)"
    using ab cd by (simp add: get_year_def pad4_def digit_char_is_digit digit_of_digit_char)
  moreover have "100 * (10 * a + b) + (10 * c + d) = n" if "0 \<le> n" "n < 10000"
  proof -
    have "0 \<le> n div 100" "n div 100 < 100" using that by auto
    then have "10 * a + b = n div 100" using ab(6) by blast
    with cd(6) show ?thesis by simp
  qed
  ultimately show ?thesis by blast
qed

lemma pad_is_digit: "c \<in> set (pad2 n) \<Longrightarrow> is_digit c" "c \<in> set (pad4 n) \<Longrightarrow> is_digit c"
  using pad2_digits [of n] pad2_digits [of "n div 100"] pad2_digits [of "n mod 100"]
  by (auto simp: pad4_def digit_char_is_digit)

lemma frac_digits: "c \<in> set (tl (frac_text n)) \<Longrightarrow> is_digit c"
proof -
  assume "c \<in> set (tl (frac_text n))"
  then have "c \<in> set (pad4 (n div 100000) @ pad4 (n div 10 mod 10000) @ [digit_char (n mod 10)])"
    by (auto simp: frac_text_def Let_def dest!: set_dropWhileD split: if_splits)
  then show ?thesis by (auto simp: pad_is_digit digit_char_is_digit)
qed

lemma get_fraction_text: "\<exists>ns. get_fraction (frac_text n @ ''Z'') = (ns, ''Z'')"
proof (cases "frac_text n")
  case Nil
  then show ?thesis by (simp add: get_fraction_def nth_digit_def)
next
  case (Cons c ds)
  then have c: "c = CHR ''.''" and ne: "ds \<noteq> []" by (auto simp: frac_text_def Let_def split: if_splits)
  have digits: "\<And>x. x \<in> set ds \<Longrightarrow> is_digit x" using frac_digits [of _ n] Cons by auto
  have z: "\<not> is_digit CHR ''Z''" by (simp add: is_digit_def)
  have "takeWhile is_digit (ds @ ''Z'') = ds"
    using digits z by (intro takeWhile_append_stop) auto
  moreover have "is_digit (ds ! 0)" using digits ne by (cases ds) auto
  ultimately show ?thesis
    using c ne Cons by (simp add: get_fraction_def nth_digit_def Let_def nth_append)
qed

lemma skip_char_same [simp]: "skip_char c (c # r) = Some r"
  by (simp add: skip_char_def)

lemma parse_format:
  assumes "valid_datetime d" "marshal_time d = Inr t"
  shows "\<exists>i. parse_strict_rfc3339 t = Some i"
proof -
  have y: "0 \<le> dt_year d" "dt_year d < 10000" and t: "t = format_rfc3339 d"
    using assms(2) by (auto simp: marshal_time_def split: if_splits)
  note v = assms(1)[unfolded valid_datetime_def]
  have day: "dt_day d < 100"
  proof -
    have "\<forall>x \<in> set (month_days (dt_year d)). x < 100" by (simp add: month_days_def)
    moreover have "nat (dt_month d - 1) < length (month_days (dt_year d))"
      using v by (simp add: month_days_def nat_less_iff)
    ultimately show ?thesis using v by (meson le_less_trans nth_mem)
  qed
  obtain ns where fr: "get_fraction (frac_text (dt_nsec d) @ ''Z'') = (ns, ''Z'')"
    using get_fraction_text by blast
  have yr: "get_year (pad4 (dt_year d) @ r) = Some (dt_year d, r)" for r
    using get_year_pad4 [of "dt_year d" r] y by auto
  have gs: "getnum fx (pad2 (dt_month d) @ r) = Some (dt_month d, r)"
    "getnum fx (pad2 (dt_day d) @ r) = Some (dt_day d, r)"
    "getnum fx (pad2 (dt_hour d) @ r) = Some (dt_hour d, r)"
    "getnum fx (pad2 (dt_min d) @ r) = Some (dt_min d, r)"
    "getnum fx (pad2 (dt_sec d) @ r) = Some (dt_sec d, r)" for fx r
    using v day by (auto intro: getnum_pad2)
  have cs: "\<not> (dt_month d < 1 \<or> dt_month d > 12)" "\<not> dt_hour d \<ge> 24" "\<not> dt_min d \<ge> 60" "\<not> dt_sec d \<ge> 60"
    "\<not> (([]::string) \<noteq> [] \<or> dt_day d < 1 \<or> dt_day d > month_days (dt_year d) ! nat (dt_month d - 1))"
    using v by auto
  have zone: "get_zone ''Z'' = Some (0, [])" by (simp add: get_zone_def)
  have "\<exists>i. parse_rfc3339 t = Some i"
    unfolding t format_rfc3339_def parse_rfc3339_def append_Cons append_Nil
    by (simp only: yr gs cs fr zone if_False bind.bind_lunit prod.case skip_char_same option.inject) simp
  moreover have "t ! 12 \<noteq> CHR '':''"
  proof -
    have "t ! 12 = digit_char (dt_hour d mod 10)" by (simp add: t format_rfc3339_def pad4_def pad2_def)
    then show ?thesis using digit_char_is_digit [of "dt_hour d mod 10"] by (auto simp: is_digit_def)
  qed
  moreover have "t ! 19 \<noteq> CHR '',''"
  proof -
    have "t ! 19 = (frac_text (dt_nsec d) @ ''Z'') ! 0" by (simp add: t format_rfc3339_def pad4_def pad2_def)
    then show ?thesis by (simp add: frac_text_def Let_def split: if_splits)
  qed
  moreover have "last t = CHR ''Z''" by (simp add: t format_rfc3339_def)
  ultimately show ?thesis by (auto simp: parse_strict_rfc3339_def)
qed

end
