(* ===== verification/Cache_Updater.thy ===== *)
theory Cache_Updater
  imports Redis_Client Continuation_Token Rmu_Storage Go_Time_Format
begin

text \<open>
  \<open>read-model-updater/cache.go\<close>: the cache entries that the updater writes to Redis after an
  event was applied.
\<close>

section \<open>Data\<close>

record 'w cache_store =
  cs_ListTasksPage :: "string \<Rightarrow> int \<Rightarrow> string option \<Rightarrow> string option \<Rightarrow> 'w \<Rightarrow>
     (go_error + task_entity list \<times> string option \<times> string option) \<times> 'w"
  cs_GetUserSettings :: "string \<Rightarrow> 'w \<Rightarrow> (go_error + user_settings_entity option) \<times> 'w"

definition as_cache_store :: "'w rmu_storage \<Rightarrow> 'w cache_store" where
  "as_cache_store st = \<lparr>cs_ListTasksPage = ListTasksPage st, cs_GetUserSettings = GetUserSettings st\<rparr>"

record 'w cache_updater =
  cu_store :: "'w cache_store option"
  cu_redis :: "'w redis_client option"
  cu_tasksTTL :: int
  cu_settingsTTL :: int
  cu_tasksPerPage :: int
  cu_cachedPages :: int
  cu_now :: "'w \<Rightarrow> datetime \<times> 'w"

definition tasksCachePrefix :: string where "tasksCachePrefix = ''ts''"
definition settingsCachePrefix :: string where "settingsCachePrefix = ''us''"

record cached_task =
  ct_ID :: string
  ct_Title :: string
  ct_Notes :: string
  ct_Category :: string
  ct_Order :: int
  ct_Done :: bool

record cached_tasks =
  ca_Version :: int
  ca_CachedAt :: datetime
  ca_LastUpdatedAt :: int
  ca_PageSize :: int
  ca_CachedPages :: int
  ca_PageTokens :: "string list"
  ca_NextPageToken :: string
  ca_Tasks :: "cached_task list"

record cached_settings =
  cg_Version :: int
  cg_CachedAt :: datetime
  cg_LastUpdatedAt :: int
  cg_TasksPerCategory :: int
  cg_ShowDoneTasks :: bool

text \<open>\<open>json.Marshal\<close> of the entries.\<close>

definition cached_task_members :: "cached_task \<Rightarrow> (string \<times> json) list" where
  "cached_task_members t =
     [(''id'', JStr (ct_ID t)), (''title'', JStr (ct_Title t))] @ omit_empty ''notes'' (ct_Notes t)
     @ [(''category'', JStr (ct_Category t)), (''order'', JInt (ct_Order t))]
     @ (if ct_Done t then [(''done'', JBool True)] else [])"

definition cached_tasks_members :: "cached_tasks \<Rightarrow> string \<Rightarrow> (string \<times> json) list" where
  "cached_tasks_members c at =
     [(''version'', JInt (ca_Version c)), (''cachedAt'', JStr at),
      (''lastUpdatedAt'', JInt (ca_LastUpdatedAt c)), (''pageSize'', JInt (ca_PageSize c))]
     @ (if ca_CachedPages c = 0 then [] else [(''cachedPages'', JInt (ca_CachedPages c))])
     @ (if ca_PageTokens c = [] then [] else [(''pageTokens'', JArr (map JStr (ca_PageTokens c)))])
     @ omit_empty ''nextPageToken'' (ca_NextPageToken c)
     @ [(''tasks'', JArr (map (\<lambda>t. JObj (cached_task_members t)) (ca_Tasks c)))]"

definition marshal_cached_tasks :: "cached_tasks \<Rightarrow> go_error + string" where
  "marshal_cached_tasks c =
     (case marshal_time (ca_CachedAt c) of
        Inl e \<Rightarrow> Inl e
      | Inr at \<Rightarrow> Inr (json_print (JObj (cached_tasks_members c at))))"

definition cached_settings_members :: "cached_settings \<Rightarrow> string \<Rightarrow> (string \<times> json) list" where
  "cached_settings_members c at =
     [(''version'', JInt (cg_Version c)), (''cachedAt'', JStr at),
      (''lastUpdatedAt'', JInt (cg_LastUpdatedAt c)),
      (''settings'', JObj [(''tasksPerCategory'', JInt (cg_TasksPerCategory c)),
         (''showDoneTasks'', JBool (cg_ShowDoneTasks c))])]"

definition marshal_cached_settings :: "cached_settings \<Rightarrow> go_error + string" where
  "marshal_cached_settings c =
     (case marshal_time (cg_CachedAt c) of
        Inl e \<Rightarrow> Inl e
      | Inr at \<Rightarrow> Inr (json_print (JObj (cached_settings_members c at))))"

section \<open>Operations\<close>

definition cacheKey :: "string \<Rightarrow> string \<Rightarrow> string" where
  "cacheKey userID prefix = userID @ '':'' @ prefix"

definition newCacheUpdater ::
  "'w cache_store option \<Rightarrow> 'w redis_client option \<Rightarrow> ('w \<Rightarrow> datetime \<times> 'w) \<Rightarrow>
   int \<Rightarrow> int \<Rightarrow> int \<Rightarrow> int \<Rightarrow> 'w cache_updater" where
  "newCacheUpdater store redis now tasksPerPage cachedPages tasksTTL settingsTTL =
     \<lparr>cu_store = store, cu_redis = redis,
      cu_tasksTTL = (if tasksTTL \<le> 0 then 12 * time_Hour else tasksTTL),
      cu_settingsTTL = (if settingsTTL \<le> 0 then 4 * time_Hour else settingsTTL),
      cu_tasksPerPage = (if tasksPerPage \<le> 0 then 1 else tasksPerPage),
      cu_cachedPages = (if cachedPages \<le> 0 then 1 else cachedPages), cu_now = now\<rparr>"

definition cached_task_of :: "task_entity \<Rightarrow> cached_task" where
  "cached_task_of t =
     \<lparr>ct_ID = te_RowKey t, ct_Title = te_Title t, ct_Notes = te_Notes t, ct_Category = te_Category t,
      ct_Order = te_Order t, ct_Done = te_Done t\<rparr>"

text \<open>The variables of the loop of \<open>RefreshTasks\<close>.\<close>

record refresh_state =
  rs_pageTokens :: "string list"
  rs_entries :: "cached_task list"
  rs_maxTs :: int
  rs_found :: bool
  rs_nextToken :: string
  rs_nextPK :: "string option"
  rs_nextRK :: "string option"

definition add_task :: "string \<Rightarrow> task_entity \<Rightarrow> refresh_state \<Rightarrow> refresh_state" where
  "add_task entityID t s =
     s\<lparr>rs_entries := rs_entries s @ [cached_task_of t],
       rs_maxTs := (if te_EventTimestamp t > rs_maxTs s then te_EventTimestamp t else rs_maxTs s),
       rs_found := (rs_found s \<or> te_RowKey t = entityID)\<rparr>"

text \<open>The loop; the number is that of the pages still to come. \<open>None\<close> is an early return.\<close>

fun refresh_pages ::
  "'w cache_store \<Rightarrow> string \<Rightarrow> string \<Rightarrow> int \<Rightarrow> nat \<Rightarrow> refresh_state \<Rightarrow> 'w \<Rightarrow>
   refresh_state option \<times> 'w" where
  "refresh_pages store userID entityID limit 0 s w = (Some s, w)"
| "refresh_pages store userID entityID limit (Suc n) s w =
     (case cs_ListTasksPage store userID limit (rs_nextPK s) (rs_nextRK s) w of
        (Inl e, w1) \<Rightarrow> (None, w1)
      | (Inr (tasks, pk, rk), w1) \<Rightarrow>
          (if tasks = [] then
             (case encodeContinuationToken pk rk of
                Inl e \<Rightarrow> (Some s, w1)
              | Inr token \<Rightarrow> (Some (s\<lparr>rs_nextToken := token\<rparr>), w1))
           else
             (let s1 = fold (add_task entityID) tasks s in
              case encodeContinuationToken pk rk of
                Inl e \<Rightarrow> (None, w1)
              | Inr token \<Rightarrow>
                  (let s2 = s1\<lparr>rs_nextToken := token,
                         rs_pageTokens := (if n > 0 \<and> token \<noteq> '''' \<and> int (length tasks) = limit
                                           then rs_pageTokens s1 @ [token] else rs_pageTokens s1)\<rparr>
                   in if int (length tasks) < limit \<or> pk = None \<or> rk = None then (Some s2, w1)
                      else refresh_pages store userID entityID limit n
                             (s2\<lparr>rs_nextPK := pk, rs_nextRK := rk\<rparr>) w1))))"

definition initial_refresh :: "string \<Rightarrow> int \<Rightarrow> refresh_state" where
  "initial_refresh entityID lastUpdated =
     \<lparr>rs_pageTokens = [], rs_entries = [], rs_maxTs = lastUpdated, rs_found = (entityID = ''''),
      rs_nextToken = '''', rs_nextPK = None, rs_nextRK = None\<rparr>"

definition tasks_entry :: "int \<Rightarrow> int \<Rightarrow> datetime \<Rightarrow> refresh_state \<Rightarrow> cached_tasks" where
  "tasks_entry pageSize maxPages now s =
     (let n = int (length (rs_entries s));
          pages = (if n > 0 \<and> pageSize > 0 then min ((n + pageSize - 1) div pageSize) maxPages else 0)
      in \<lparr>ca_Version = 1, ca_CachedAt = now, ca_LastUpdatedAt = rs_maxTs s, ca_PageSize = pageSize,
          ca_CachedPages = pages, ca_PageTokens = rs_pageTokens s,
          ca_NextPageToken = rs_nextToken s, ca_Tasks = rs_entries s\<rparr>)"

definition RefreshTasks ::
  "'w cache_updater option \<Rightarrow> string \<Rightarrow> string \<Rightarrow> int \<Rightarrow> 'w \<Rightarrow> 'w" where
  "RefreshTasks c userID entityID lastUpdated w =
     (case c of
        None \<Rightarrow> w
      | Some cu \<Rightarrow>
          (case (cu_redis cu, cu_store cu) of
             (Some rc, Some store) \<Rightarrow>
               (case refresh_pages store userID entityID (cu_tasksPerPage cu) (nat (cu_cachedPages cu))
                       (initial_refresh entityID lastUpdated) w of
                  (None, w1) \<Rightarrow> w1
                | (Some s, w1) \<Rightarrow>
                    (if \<not> rs_found s then snd (rc_Del rc (cacheKey userID tasksCachePrefix) w1)
                     else
                       (case cu_now cu w1 of
                          (now, w2) \<Rightarrow>
                            (case marshal_cached_tasks
                                    (tasks_entry (cu_tasksPerPage cu) (cu_cachedPages cu) now s) of
                               Inl e \<Rightarrow> w2
                             | Inr data \<Rightarrow>
                                 snd (rc_Set rc (cacheKey userID tasksCachePrefix) data
                                        (cu_tasksTTL cu) w2)))))
           | _ \<Rightarrow> w))"

definition settings_entry :: "user_settings_entity \<Rightarrow> int \<Rightarrow> datetime \<Rightarrow> cached_settings" where
  "settings_entry ent lastUpdated now =
     \<lparr>cg_Version = 1, cg_CachedAt = now,
      cg_LastUpdatedAt = (if se_EventTimestamp ent < lastUpdated then lastUpdated else se_EventTimestamp ent),
      cg_TasksPerCategory = se_TasksPerCategory ent, cg_ShowDoneTasks = se_ShowDoneTasks ent\<rparr>"

definition RefreshSettings :: "'w cache_updater option \<Rightarrow> string \<Rightarrow> int \<Rightarrow> 'w \<Rightarrow> 'w" where
  "RefreshSettings c userID lastUpdated w =
     (case c of
        None \<Rightarrow> w
      | Some cu \<Rightarrow>
          (case (cu_redis cu, cu_store cu) of
             (Some rc, Some store) \<Rightarrow>
               (case cs_GetUserSettings store userID w of
                  (Inl e, w1) \<Rightarrow> w1
                | (Inr None, w1) \<Rightarrow> snd (rc_Del rc (cacheKey userID settingsCachePrefix) w1)
                | (Inr (Some ent), w1) \<Rightarrow>
                    (case cu_now cu w1 of
                       (now, w2) \<Rightarrow>
                         (case marshal_cached_settings (settings_entry ent lastUpdated now) of
                            Inl e \<Rightarrow> w2
                          | Inr data \<Rightarrow>
                              snd (rc_Set rc (cacheKey userID settingsCachePrefix) data
                                     (cu_settingsTTL cu) w2))))
           | _ \<Rightarrow> w))"

end
