(* ===== verification/Ref_World.thy ===== *)
theory Ref_World
  imports Task_Service User_Service Cache_Updater
begin

text \<open>
  A concrete outside world: three reference tables, a reference Redis and a clock. It shows that
  the documented behaviour assumed of the third-party services is consistent, and it is the world
  in which the witnesses run.
\<close>

record ref_world =
  rw_tasks :: ref_table
  rw_users :: ref_table
  rw_settings :: ref_table
  rw_redis :: ref_redis

definition empty_world :: ref_world where
  "empty_world = \<lparr>rw_tasks = empty_table, rw_users = empty_table, rw_settings = empty_table,
     rw_redis = empty_redis\<rparr>"

definition ref_queue :: "'w event_queue" where
  "ref_queue = \<lparr>DequeueMessage = (\<lambda>w. (Inr [], w)), DeleteMessage = (\<lambda>i r w. (None, w))\<rparr>"

definition ref_storage :: "ref_world rmu_storage" where
  "ref_storage =
     \<lparr>st_queue = ref_queue,
      st_taskTable = ref_client rw_tasks (\<lambda>t w. w\<lparr>rw_tasks := t\<rparr>),
      st_userTable = ref_client rw_users (\<lambda>t w. w\<lparr>rw_users := t\<rparr>),
      st_settingsTable = ref_client rw_settings (\<lambda>t w. w\<lparr>rw_settings := t\<rparr>)\<rparr>"

definition ref_rc :: "ref_world redis_client" where
  "ref_rc = ref_redis_client rw_redis (\<lambda>t w. w\<lparr>rw_redis := t\<rparr>)"

definition ref_time :: datetime where
  "ref_time = \<lparr>dt_year = 2024, dt_month = 2, dt_day = 29, dt_hour = 12, dt_min = 30, dt_sec = 5,
     dt_nsec = 250000000\<rparr>"

definition ref_now :: "'w \<Rightarrow> datetime \<times> 'w" where
  "ref_now w = (ref_time, w)"

text \<open>The tables of the reference world are Azure tables, and the storage over them keeps the
  contracts of the services.\<close>

interpretation ref_tasks: task_table ref_storage "\<lambda>w. rt_tbl (rw_tasks w)"
  "\<lambda>w. rt_issued (rw_tasks w)" "\<lambda>w. rt_inv (rw_tasks w)"
  by (rule task_table.intro) (simp add: ref_storage_def ref_client_azure_table)

interpretation ref_settings: settings_table ref_storage "\<lambda>w. rt_tbl (rw_settings w)"
  "\<lambda>w. rt_issued (rw_settings w)" "\<lambda>w. rt_inv (rw_settings w)"
proof (rule settings_table.intro)
  show "azure_table (st_settingsTable ref_storage) (\<lambda>w. rt_tbl (rw_settings w))
      (\<lambda>w. rt_issued (rw_settings w)) (\<lambda>w. rt_inv (rw_settings w))"
    by (simp add: ref_storage_def ref_client_azure_table)
qed (auto simp: ref_storage_def ref_client_def split: prod.splits)

interpretation ref_kv: redis_store ref_rc "\<lambda>w. map_of (rr_values (rw_redis w))"
  unfolding ref_rc_def by (rule ref_redis_store) simp

lemma rt_inv_empty [simp]: "rt_inv empty_table"
  by (simp add: rt_inv_def empty_table_def)

lemma rt_tbl_empty [simp]: "rt_tbl empty_table = Map.empty"
  by (simp add: rt_tbl_def empty_table_def fun_eq_iff)

lemma tables_ok_empty [simp]: "task_table_ok Map.empty" "settings_table_ok Map.empty"
  by (simp_all add: task_table_ok_def settings_table_ok_def)

section \<open>Sample events\<close>

definition sample_created :: event where
  "sample_created =
     \<lparr>ev_ID = ''e1'', ev_EntityID = ''t1'', ev_EntityType = ''task'', ev_Type = TaskCreated,
      ev_Data = Some (JObj [(''title'', JStr ''Buy milk''), (''order'', JNum ''3'')]),
      ev_Timestamp = 10, ev_UserID = ''u1''\<rparr>"

definition sample_completed :: event where
  "sample_completed =
     \<lparr>ev_ID = ''e2'', ev_EntityID = ''t1'', ev_EntityType = ''task'', ev_Type = TaskCompleted,
      ev_Data = None, ev_Timestamp = 20, ev_UserID = ''u1''\<rparr>"

definition sample_settings :: event where
  "sample_settings =
     \<lparr>ev_ID = ''e3'', ev_EntityID = ''u1'', ev_EntityType = ''user-settings'',
      ev_Type = UserSettingsUpdated,
      ev_Data = Some (JObj [(''tasksPerCategory'', JNum ''5'')]), ev_Timestamp = 15,
      ev_UserID = ''u1''\<rparr>"

lemma sample_events_ok [simp]:
  "event_ok sample_created" "event_ok sample_completed" "event_ok sample_settings"
  by (simp_all add: event_ok_def sample_created_def sample_completed_def sample_settings_def in_i64_def)

lemma empty_world_ok [simp]:
  "rt_inv (rw_tasks empty_world)" "task_table_ok (rt_tbl (rw_tasks empty_world))"
  "rt_inv (rw_settings empty_world)" "settings_table_ok (rt_tbl (rw_settings empty_world))"
  by (simp_all add: empty_world_def)

lemma empty_world_tables [simp]:
  "rw_tasks empty_world = empty_table" "rw_settings empty_world = empty_table"
  "rw_redis empty_world = empty_redis"
  by (simp_all add: empty_world_def)

lemma views_empty [simp]: "task_view Map.empty = Map.empty" "settings_view Map.empty = Map.empty"
  by (simp_all add: task_view_def settings_view_def fun_eq_iff)

end
