(* ===== verification/Api_Storage.thy ===== *)
theory Api_Storage
  imports Redis_Client Continuation_Token Rmu_Storage
begin

text \<open>
  \<open>prism-api/storage/storage.go\<close>: the API's access to the read model, through the cache or
  directly, and its configuration. The concurrent \<open>EnqueueCommands\<close> is in \<open>Api_Enqueue\<close>.
\<close>

section \<open>Data\<close>

text \<open>\<open>domain.Task\<close>, \<open>domain.Settings\<close> and \<open>domain.Command\<close>.\<close>

record api_task =
  at_ID :: string
  at_Title :: string
  at_Notes :: string
  at_Category :: string
  at_Order :: int
  at_Done :: bool

record api_settings =
  as_TasksPerCategory :: int
  as_ShowDoneTasks :: bool

record command =
  cmd_ID :: string
  cmd_IdempotencyKey :: string
  cmd_EntityType :: string
  cmd_Type :: string
  cmd_Data :: string
  cmd_Timestamp :: int

record command_envelope =
  env_UserID :: string
  env_Command :: command

text \<open>\<open>taskEntity\<close> (the fields that are read) and the cache entries as the API decodes them. A
  nil slice of tasks is the empty list: \<open>fetchTasksFromCache\<close> treats both alike.\<close>

record api_task_entity =
  ae_RowKey :: string
  ae_Title :: string
  ae_Notes :: string
  ae_Category :: string
  ae_Order :: int
  ae_Done :: bool

record api_cached_tasks =
  ac_Version :: int
  ac_CachedAt :: int
  ac_LastUpdatedAt :: int
  ac_PageSize :: int
  ac_CachedPages :: int
  ac_PageTokens :: "string list"
  ac_NextPageToken :: string
  ac_Tasks :: "api_task list"

record api_cached_settings =
  ag_Version :: int
  ag_CachedAt :: int
  ag_LastUpdatedAt :: int
  ag_Settings :: api_settings

text \<open>The JSON library \<open>sonic\<close> is third-party code: one function per type it is used at.\<close>

record sonic =
  sn_token :: "string \<Rightarrow> go_error + string \<times> string"
  sn_task_entity :: "string \<Rightarrow> go_error + api_task_entity"
  sn_cached_tasks :: "string \<Rightarrow> go_error + api_cached_tasks"
  sn_cached_settings :: "string \<Rightarrow> go_error + api_cached_settings"
  sn_settings_raw :: "string \<Rightarrow> go_error + int \<times> bool"
  sn_envelope :: "command_envelope \<Rightarrow> go_error + string"

record 'w command_queue =
  cq_EnqueueMessage :: "string \<Rightarrow> 'w \<Rightarrow> go_error option \<times> 'w"
  cq_GetProperties :: "'w \<Rightarrow> go_error option \<times> 'w"

type_synonym 'w redis_getter = "string \<Rightarrow> 'w \<Rightarrow> redis_reply \<times> 'w"

record 'w api_storage =
  sa_taskTable :: "'w table_client"
  sa_settingsTable :: "'w table_client"
  sa_commandQueue :: "'w command_queue"
  sa_taskPageSize :: int
  sa_tasksSelectClause :: string
  sa_queueConcurrency :: int
  sa_cache :: "'w redis_getter option"

section \<open>Configuration\<close>

type_synonym 'w storage_option = "'w api_storage \<Rightarrow> 'w api_storage"

definition WithQueueConcurrency :: "int \<Rightarrow> 'w storage_option" where
  "WithQueueConcurrency n s = (if n > 0 then s\<lparr>sa_queueConcurrency := n\<rparr> else s)"

definition WithCache :: "'w redis_getter option \<Rightarrow> 'w storage_option" where
  "WithCache client s = (case client of None \<Rightarrow> s | Some c \<Rightarrow> s\<lparr>sa_cache := Some c\<rparr>)"

definition defaultQueueConcurrency :: int where "defaultQueueConcurrency = 8"
definition maxQueueConcurrency :: int where "maxQueueConcurrency = 64"
definition queuePerCPU :: int where "queuePerCPU = 10"

definition queueConcurrencyForCPU :: "int \<Rightarrow> int" where
  "queueConcurrencyForCPU numCPU =
     (if numCPU < 1 then defaultQueueConcurrency
      else (let conc = i64 (numCPU * queuePerCPU);
                conc1 = (if conc < defaultQueueConcurrency then defaultQueueConcurrency else conc)
            in if conc1 > maxQueueConcurrency then maxQueueConcurrency else conc1))"

text \<open>\<open>runtime.NumCPU\<close> is the argument.\<close>

definition DefaultQueueConcurrency :: "int \<Rightarrow> int" where
  "DefaultQueueConcurrency numCPU = queueConcurrencyForCPU numCPU"

definition maxTaskPageSize :: int where "maxTaskPageSize = 1000"

definition New_api ::
  "(string \<Rightarrow> retry_options \<Rightarrow> go_error + (string \<Rightarrow> 'w table_client)) \<Rightarrow>
   (string \<Rightarrow> string \<Rightarrow> retry_options \<Rightarrow> go_error + 'w command_queue) \<Rightarrow>
   string \<Rightarrow> string \<Rightarrow> string \<Rightarrow> string \<Rightarrow> int \<Rightarrow> 'w storage_option option list \<Rightarrow>
   go_error + 'w api_storage" where
  "New_api newService newQueue connStr tasksTable settingsTable commandQueue taskPageSize opts =
     (case newService connStr tablesClientOptions of
        Inl e \<Rightarrow> Inl e
      | Inr svc \<Rightarrow>
          (case newQueue connStr commandQueue queueClientOptions of
             Inl e \<Rightarrow> Inl e
           | Inr cq \<Rightarrow>
               (if taskPageSize \<le> 0 then Inl (ErrText (''invalid task page size: '' @ itoa taskPageSize))
                else
                  (let store = \<lparr>sa_taskTable = svc tasksTable, sa_settingsTable = svc settingsTable,
                         sa_commandQueue = cq, sa_taskPageSize = i32 taskPageSize,
                         sa_tasksSelectClause = ''RowKey,Title,Notes,Category,Order,Done'',
                         sa_queueConcurrency = defaultQueueConcurrency, sa_cache = None\<rparr>;
                       s1 = fold (\<lambda>opt s. case opt of None \<Rightarrow> s | Some f \<Rightarrow> f s) opts store;
                       s2 = (if sa_queueConcurrency s1 \<le> 0
                             then s1\<lparr>sa_queueConcurrency := defaultQueueConcurrency\<rparr> else s1);
                       s3 = (if sa_taskPageSize s2 \<le> 0 then s2\<lparr>sa_taskPageSize := 1\<rparr> else s2);
                       s4 = (if sa_taskPageSize s3 > maxTaskPageSize
                             then s3\<lparr>sa_taskPageSize := maxTaskPageSize\<rparr> else s3)
                   in Inr s4))))"

section \<open>Reading tasks\<close>

definition resolveTaskPageSize :: "int \<Rightarrow> int \<Rightarrow> int" where
  "resolveTaskPageSize requested defaultSize =
     (let d0 = (if defaultSize \<le> 0 then 1 else defaultSize);
          d = (if d0 > maxTaskPageSize then maxTaskPageSize else d0)
      in if requested \<le> 0 then d
         else if requested > maxTaskPageSize then maxTaskPageSize
         else if requested < 1 then d
         else i32 requested)"

definition api_cacheKey :: "string \<Rightarrow> string \<Rightarrow> string" where
  "api_cacheKey userID prefix = userID @ '':'' @ prefix"

definition api_tasksCachePrefix :: string where "api_tasksCachePrefix = ''ts''"
definition api_settingsCachePrefix :: string where "api_settingsCachePrefix = ''us''"

definition loadTasksFromCache ::
  "sonic \<Rightarrow> 'w api_storage \<Rightarrow> string \<Rightarrow> 'w \<Rightarrow> api_cached_tasks option \<times> 'w" where
  "loadTasksFromCache sn s userID w =
     (case sa_cache s of
        None \<Rightarrow> (None, w)
      | Some get \<Rightarrow>
          (case get (api_cacheKey userID api_tasksCachePrefix) w of
             (RedisNil, w1) \<Rightarrow> (None, w1)
           | (RedisError e, w1) \<Rightarrow> (None, w1)
           | (RedisValue raw, w1) \<Rightarrow>
               (case sn_cached_tasks sn raw of
                  Inl e \<Rightarrow> (None, w1)
                | Inr payload \<Rightarrow>
                    (if ac_PageSize payload > 0 \<and> i32 (ac_PageSize payload) \<noteq> sa_taskPageSize s
                     then (None, w1) else (Some payload, w1)))))"

text \<open>The first index of a page token, plus one.\<close>

fun token_index :: "string \<Rightarrow> string list \<Rightarrow> int \<Rightarrow> int" where
  "token_index token [] i = - 1"
| "token_index token (t # ts) i = (if t = token then i + 1 else token_index token ts (i + 1))"

definition cached_page :: "api_cached_tasks \<Rightarrow> string \<Rightarrow> int \<Rightarrow> (api_task list \<times> string) option" where
  "cached_page cached token pageSize =
     (let tasks = ac_Tasks cached; n = int (length tasks) in
      if n = 0 then None
      else
        (let cachedPages = (if ac_CachedPages cached \<le> 0 then (n + pageSize - 1) div pageSize
                            else ac_CachedPages cached);
             pageIndex = (if token = '''' then 0 else token_index token (ac_PageTokens cached) 0)
         in if pageIndex < 0 \<or> pageIndex \<ge> cachedPages then None
            else
              (let start = pageIndex * pageSize in
               if start \<ge> n then None
               else
                 (let end = min (start + pageSize) n;
                      nextToken = (if pageIndex < int (length (ac_PageTokens cached))
                                   then ac_PageTokens cached ! nat pageIndex
                                   else ac_NextPageToken cached)
                  in Some (take (nat (end - start)) (drop (nat start) tasks), nextToken)))))"

definition fetchTasksFromCache ::
  "sonic \<Rightarrow> 'w api_storage \<Rightarrow> string \<Rightarrow> string \<Rightarrow> int \<Rightarrow> 'w \<Rightarrow> (api_task list \<times> string) option \<times> 'w" where
  "fetchTasksFromCache sn s userID token pageSize w =
     (case loadTasksFromCache sn s userID w of
        (None, w1) \<Rightarrow> (None, w1)
      | (Some cached, w1) \<Rightarrow> (cached_page cached token pageSize, w1))"

definition api_task_of :: "api_task_entity \<Rightarrow> api_task" where
  "api_task_of e =
     \<lparr>at_ID = ae_RowKey e, at_Title = ae_Title e, at_Notes = ae_Notes e, at_Category = ae_Category e,
      at_Order = ae_Order e, at_Done = ae_Done e\<rparr>"

fun decode_all :: "(string \<Rightarrow> go_error + 'e) \<Rightarrow> string list \<Rightarrow> go_error + 'e list" where
  "decode_all dec [] = Inr []"
| "decode_all dec (e # es) =
     (case dec e of
        Inl err \<Rightarrow> Inl err
      | Inr t \<Rightarrow> (case decode_all dec es of Inl err \<Rightarrow> Inl err | Inr ts \<Rightarrow> Inr (t # ts)))"

text \<open>The part of \<open>FetchTasks\<close> that asks the table.\<close>

definition fetch_direct ::
  "sonic \<Rightarrow> 'w api_storage \<Rightarrow> string \<Rightarrow> string \<Rightarrow> int \<Rightarrow> 'w \<Rightarrow> (go_error + api_task list \<times> string) \<times> 'w" where
  "fetch_direct sn s userID token pageSize w =
     (case decodeContinuationToken (sn_token sn) token of
        Inl e \<Rightarrow> (Inl (InvalidContinuationToken (Some e)), w)
      | Inr (npk, nrk) \<Rightarrow>
          (case ListPage (sa_taskTable s) (partition_filter userID) (sa_tasksSelectClause s) pageSize
                  npk nrk w of
             (None, w1) \<Rightarrow> (Inr ([], ''''), w1)
           | (Some (Inl e), w1) \<Rightarrow> (Inl e, w1)
           | (Some (Inr resp), w1) \<Rightarrow>
               (case decode_all (sn_task_entity sn) (lp_Entities resp) of
                  Inl e \<Rightarrow> (Inl e, w1)
                | Inr ents \<Rightarrow>
                    (case api_encodeContinuationToken (lp_NextPartitionKey resp) (lp_NextRowKey resp) of
                       Inl e \<Rightarrow> (Inl e, w1)
                     | Inr next \<Rightarrow> (Inr (map api_task_of ents, next), w1)))))"

definition FetchTasks ::
  "sonic \<Rightarrow> 'w api_storage \<Rightarrow> string \<Rightarrow> string \<Rightarrow> int \<Rightarrow> 'w \<Rightarrow> (go_error + api_task list \<times> string) \<times> 'w" where
  "FetchTasks sn s userID token limit w =
     (let pageSize = resolveTaskPageSize limit (sa_taskPageSize s) in
      if pageSize = sa_taskPageSize s then
        (case fetchTasksFromCache sn s userID token pageSize w of
           (Some (tasks, next), w1) \<Rightarrow> (Inr (tasks, next), w1)
         | (None, w1) \<Rightarrow> fetch_direct sn s userID token pageSize w1)
      else fetch_direct sn s userID token pageSize w)"

section \<open>Reading settings\<close>

definition decodeSettingsEntity :: "sonic \<Rightarrow> string \<Rightarrow> go_error + api_settings" where
  "decodeSettingsEntity sn data =
     (case sn_settings_raw sn data of
        Inl e \<Rightarrow> Inl e
      | Inr (t, d) \<Rightarrow> Inr \<lparr>as_TasksPerCategory = t, as_ShowDoneTasks = d\<rparr>)"

definition loadSettingsFromCache ::
  "sonic \<Rightarrow> 'w api_storage \<Rightarrow> string \<Rightarrow> 'w \<Rightarrow> api_settings option \<times> 'w" where
  "loadSettingsFromCache sn s userID w =
     (case sa_cache s of
        None \<Rightarrow> (None, w)
      | Some get \<Rightarrow>
          (case get (api_cacheKey userID api_settingsCachePrefix) w of
             (RedisNil, w1) \<Rightarrow> (None, w1)
           | (RedisError e, w1) \<Rightarrow> (None, w1)
           | (RedisValue raw, w1) \<Rightarrow>
               (case sn_cached_settings sn raw of
                  Inl e \<Rightarrow> (None, w1)
                | Inr payload \<Rightarrow> (Some (ag_Settings payload), w1))))"

definition FetchSettings ::
  "sonic \<Rightarrow> 'w api_storage \<Rightarrow> string \<Rightarrow> 'w \<Rightarrow> (go_error + api_settings) \<times> 'w" where
  "FetchSettings sn s userID w =
     (case loadSettingsFromCache sn s userID w of
        (Some settings, w1) \<Rightarrow> (Inr settings, w1)
      | (None, w1) \<Rightarrow>
          (case GetEntity (sa_settingsTable s) userID userID w1 of
             (Inl e, w2) \<Rightarrow> (Inl e, w2)
           | (Inr (val, et), w2) \<Rightarrow> (decodeSettingsEntity sn val, w2)))"

definition warmupUserID :: string where "warmupUserID = ''__warmup__''"

definition Warmup :: "sonic \<Rightarrow> 'w api_storage \<Rightarrow> 'w \<Rightarrow> go_error option \<times> 'w" where
  "Warmup sn s w =
     (case FetchTasks sn s warmupUserID '''' 0 w of
        (Inl e, w1) \<Rightarrow> (Some e, w1)
      | (Inr _, w1) \<Rightarrow>
          (case FetchSettings sn s warmupUserID w1 of
             (Inl e, w2) \<Rightarrow>
               (if \<not> has_status 404 e then (Some e, w2) else cq_GetProperties (sa_commandQueue s) w2)
           | (Inr _, w2) \<Rightarrow> cq_GetProperties (sa_commandQueue s) w2))"

end
