(* ===== verification/Api_Json.thy ===== *)
theory Api_Json
  imports Api_Storage Cache_Updater
begin

text \<open>
  What \<open>encoding/json\<close> makes of the texts that the API decodes with \<open>sonic\<close>, and the one
  assumption about that library: it agrees with \<open>encoding/json\<close> wherever the latter succeeds.
  The lemmas show that a cache entry written by the updater is read back by the API.
\<close>

section \<open>Decoders\<close>

text \<open>A slice field. A repeated member, which would merge into the old elements, is not
  specified here.\<close>

fun decode_elems :: "(json \<Rightarrow> 'v option) \<Rightarrow> 'v \<Rightarrow> json list \<Rightarrow> 'v list option" where
  "decode_elems conv z [] = Some []"
| "decode_elems conv z (v # vs) =
     (case (if v = JNull then Some z else conv v) of
        None \<Rightarrow> None
      | Some x \<Rightarrow> map_option ((#) x) (decode_elems conv z vs))"

definition slice_field :: "(json \<Rightarrow> 'v option) \<Rightarrow> 'v \<Rightarrow> json list \<Rightarrow> 'v list option" where
  "slice_field conv z vs =
     (case vs of [] \<Rightarrow> Some [] | [JNull] \<Rightarrow> Some [] | [JArr es] \<Rightarrow> decode_elems conv z es | _ \<Rightarrow> None)"

fun as_time :: "json \<Rightarrow> int option" where
  "as_time (JStr s) = parse_strict_rfc3339 s"
| "as_time _ = None"

definition api_task_names :: "string list" where
  "api_task_names = [''id'', ''title'', ''notes'', ''category'', ''order'', ''done'']"

definition decode_api_task :: "json \<Rightarrow> api_task option" where
  "decode_api_task v = do {
     ms \<leftarrow> object_members v;
     i \<leftarrow> get_string api_task_names ms ''id'';
     t \<leftarrow> get_string api_task_names ms ''title'';
     n \<leftarrow> get_string api_task_names ms ''notes'';
     c \<leftarrow> get_string api_task_names ms ''category'';
     r \<leftarrow> get_int api_task_names ms ''order'';
     d \<leftarrow> get_bool api_task_names ms ''done'';
     Some \<lparr>at_ID = i, at_Title = t, at_Notes = n, at_Category = c, at_Order = r, at_Done = d\<rparr>
   }"

definition empty_api_task :: api_task where
  "empty_api_task = \<lparr>at_ID = '''', at_Title = '''', at_Notes = '''', at_Category = '''', at_Order = 0,
     at_Done = False\<rparr>"

definition cached_tasks_names :: "string list" where
  "cached_tasks_names = [''version'', ''cachedAt'', ''lastUpdatedAt'', ''pageSize'', ''cachedPages'',
     ''pageTokens'', ''nextPageToken'', ''tasks'']"

text \<open>The zero \<open>time.Time\<close>, as Unix nanoseconds, is not representable; an absent time is 0
  here.\<close>

definition decode_api_cached_tasks :: "json \<Rightarrow> api_cached_tasks option" where
  "decode_api_cached_tasks v = do {
     ms \<leftarrow> object_members v;
     ve \<leftarrow> get_int cached_tasks_names ms ''version'';
     at \<leftarrow> plain_field as_time 0 (member_vals cached_tasks_names ''cachedAt'' ms);
     lu \<leftarrow> get_int cached_tasks_names ms ''lastUpdatedAt'';
     ps \<leftarrow> get_int cached_tasks_names ms ''pageSize'';
     cp \<leftarrow> get_int cached_tasks_names ms ''cachedPages'';
     pt \<leftarrow> slice_field as_string '''' (member_vals cached_tasks_names ''pageTokens'' ms);
     nt \<leftarrow> get_string cached_tasks_names ms ''nextPageToken'';
     ts \<leftarrow> slice_field decode_api_task empty_api_task (member_vals cached_tasks_names ''tasks'' ms);
     Some \<lparr>ac_Version = ve, ac_CachedAt = at, ac_LastUpdatedAt = lu, ac_PageSize = ps,
           ac_CachedPages = cp, ac_PageTokens = pt, ac_NextPageToken = nt, ac_Tasks = ts\<rparr>
   }"

definition api_settings_names :: "string list" where
  "api_settings_names = [''tasksPerCategory'', ''showDoneTasks'']"

definition decode_api_settings :: "json \<Rightarrow> api_settings option" where
  "decode_api_settings v = do {
     ms \<leftarrow> object_members v;
     t \<leftarrow> get_int api_settings_names ms ''tasksPerCategory'';
     d \<leftarrow> get_bool api_settings_names ms ''showDoneTasks'';
     Some \<lparr>as_TasksPerCategory = t, as_ShowDoneTasks = d\<rparr>
   }"

definition cached_settings_names :: "string list" where
  "cached_settings_names = [''version'', ''cachedAt'', ''lastUpdatedAt'', ''settings'']"

text \<open>A repeated \<open>settings\<close> member is not specified here.\<close>

definition decode_api_cached_settings :: "json \<Rightarrow> api_cached_settings option" where
  "decode_api_cached_settings v = do {
     ms \<leftarrow> object_members v;
     ve \<leftarrow> get_int cached_settings_names ms ''version'';
     at \<leftarrow> plain_field as_time 0 (member_vals cached_settings_names ''cachedAt'' ms);
     lu \<leftarrow> get_int cached_settings_names ms ''lastUpdatedAt'';
     s \<leftarrow> (case member_vals cached_settings_names ''settings'' ms of
            [] \<Rightarrow> Some \<lparr>as_TasksPerCategory = 0, as_ShowDoneTasks = False\<rparr>
          | [x] \<Rightarrow> decode_api_settings x
          | _ \<Rightarrow> None);
     Some \<lparr>ag_Version = ve, ag_CachedAt = at, ag_LastUpdatedAt = lu, ag_Settings = s\<rparr>
   }"

text \<open>\<open>taskEntity\<close> embeds \<open>aztables.Entity\<close>, whose \<open>Timestamp\<close> has a decoder of its own; a
  text with a time stamp is not specified here.\<close>

definition task_entity_names :: "string list" where
  "task_entity_names = [''PartitionKey'', ''RowKey'', ''Timestamp'', ''Title'', ''Notes'',
     ''Category'', ''Order'', ''Done'']"

definition decode_api_task_entity :: "json \<Rightarrow> api_task_entity option" where
  "decode_api_task_entity v = do {
     ms \<leftarrow> object_members v;
     pk \<leftarrow> get_string task_entity_names ms ''PartitionKey'';
     rk \<leftarrow> get_string task_entity_names ms ''RowKey'';
     t \<leftarrow> get_string task_entity_names ms ''Title'';
     n \<leftarrow> get_string task_entity_names ms ''Notes'';
     c \<leftarrow> get_string task_entity_names ms ''Category'';
     r \<leftarrow> get_int task_entity_names ms ''Order'';
     d \<leftarrow> get_bool task_entity_names ms ''Done'';
     (if member_vals task_entity_names ''Timestamp'' ms \<noteq> [] then None
      else Some \<lparr>ae_RowKey = rk, ae_Title = t, ae_Notes = n, ae_Category = c, ae_Order = r,
                 ae_Done = d\<rparr>)
   }"

definition settings_raw_names :: "string list" where
  "settings_raw_names = [''TasksPerCategory'', ''ShowDoneTasks'']"

definition decode_settings_raw :: "json \<Rightarrow> (int \<times> bool) option" where
  "decode_settings_raw v = do {
     ms \<leftarrow> object_members v;
     t \<leftarrow> get_int settings_raw_names ms ''TasksPerCategory'';
     d \<leftarrow> get_bool settings_raw_names ms ''ShowDoneTasks'';
     Some (t, d)
   }"

text \<open>\<open>sonic.Unmarshal\<close> gives what \<open>json.Unmarshal\<close> gives.\<close>

definition sonic_std :: "sonic \<Rightarrow> bool" where
  "sonic_std sn \<longleftrightarrow>
     (\<forall>t x. unmarshal_text decode_api_task_entity t = Inr x \<longrightarrow> sn_task_entity sn t = Inr x) \<and>
     (\<forall>t x. unmarshal_text decode_api_cached_tasks t = Inr x \<longrightarrow> sn_cached_tasks sn t = Inr x) \<and>
     (\<forall>t x. unmarshal_text decode_api_cached_settings t = Inr x \<longrightarrow> sn_cached_settings sn t = Inr x) \<and>
     (\<forall>t x. unmarshal_text decode_settings_raw t = Inr x \<longrightarrow> sn_settings_raw sn t = Inr x)"

text \<open>An instance: \<open>encoding/json\<close> itself.\<close>

definition std_sonic :: "(command_envelope \<Rightarrow> go_error + string) \<Rightarrow> sonic" where
  "std_sonic menv =
     \<lparr>sn_token = (\<lambda>t. Inl ErrJson), sn_task_entity = unmarshal_text decode_api_task_entity,
      sn_cached_tasks = unmarshal_text decode_api_cached_tasks,
      sn_cached_settings = unmarshal_text decode_api_cached_settings,
      sn_settings_raw = unmarshal_text decode_settings_raw, sn_envelope = menv\<rparr>"

lemma std_sonic_std: "sonic_std (std_sonic menv)"
  by (simp add: sonic_std_def std_sonic_def)

section \<open>Cache entries are read back\<close>

definition cached_task_ok :: "cached_task \<Rightarrow> bool" where
  "cached_task_ok t \<longleftrightarrow> valid_utf8 (ct_ID t) \<and> valid_utf8 (ct_Title t) \<and> valid_utf8 (ct_Notes t) \<and>
     valid_utf8 (ct_Category t) \<and> in_i64 (ct_Order t)"

definition cached_tasks_ok :: "cached_tasks \<Rightarrow> bool" where
  "cached_tasks_ok c \<longleftrightarrow> in_i64 (ca_Version c) \<and> in_i64 (ca_LastUpdatedAt c) \<and> in_i64 (ca_PageSize c) \<and>
     in_i64 (ca_CachedPages c) \<and> list_all valid_utf8 (ca_PageTokens c) \<and>
     valid_utf8 (ca_NextPageToken c) \<and> list_all cached_task_ok (ca_Tasks c) \<and>
     valid_datetime (ca_CachedAt c)"

definition api_of_cached :: "cached_task \<Rightarrow> api_task" where
  "api_of_cached t = \<lparr>at_ID = ct_ID t, at_Title = ct_Title t, at_Notes = ct_Notes t,
     at_Category = ct_Category t, at_Order = ct_Order t, at_Done = ct_Done t\<rparr>"

text \<open>Reading an object whose names are all known: the lookup of each name.\<close>

lemma member_vals_known:
  assumes "distinct (map fst ms)" "fst ` set ms \<subseteq> set names" "n \<in> set names"
  shows "member_vals names n ms = (case map_of ms n of None \<Rightarrow> [] | Some v \<Rightarrow> [v])"
  using assms by (intro member_vals_map_of) (auto simp: no_clash_def)

lemma decode_cached_task:
  assumes "cached_task_ok t"
  shows "decode_api_task (JObj (cached_task_members t)) = Some (api_of_cached t)"
proof -
  have k: "distinct (map fst (cached_task_members t))"
    "fst ` set (cached_task_members t) \<subseteq> set api_task_names"
    by (auto simp: cached_task_members_def omit_empty_def api_task_names_def)
  have mv: "member_vals api_task_names n (cached_task_members t) =
      (case map_of (cached_task_members t) n of None \<Rightarrow> [] | Some v \<Rightarrow> [v])"
    if "n \<in> set api_task_names" for n
    using member_vals_known [OF k that] .
  have names: "''id'' \<in> set api_task_names" "''title'' \<in> set api_task_names"
    "''notes'' \<in> set api_task_names" "''category'' \<in> set api_task_names"
    "''order'' \<in> set api_task_names" "''done'' \<in> set api_task_names"
    by (simp_all add: api_task_names_def)
  have lookup: "map_of (cached_task_members t) ''id'' = Some (JStr (ct_ID t))"
    "map_of (cached_task_members t) ''title'' = Some (JStr (ct_Title t))"
    "map_of (cached_task_members t) ''notes'' = (if ct_Notes t = '''' then None else Some (JStr (ct_Notes t)))"
    "map_of (cached_task_members t) ''category'' = Some (JStr (ct_Category t))"
    "map_of (cached_task_members t) ''order'' = Some (JNum (itoa (ct_Order t)))"
    "map_of (cached_task_members t) ''done'' = (if ct_Done t then Some (JBool True) else None)"
    by (simp_all add: cached_task_members_def omit_empty_def JInt_def)
  show ?thesis
    using assms
    by (simp add: decode_api_task_def object_members_def get_string_def get_int_def get_bool_def
        mv names lookup cached_task_ok_def api_of_cached_def)
qed

lemma decode_elems_map:
  "(\<And>x. x \<in> set xs \<Longrightarrow> f x \<noteq> JNull \<and> conv (f x) = Some (g x)) \<Longrightarrow>
   decode_elems conv z (map f xs) = Some (map g xs)"
  by (induction xs) auto

lemma cached_members_ok:
  assumes "cached_tasks_ok c" "valid_utf8 at"
  shows "json_parse (json_print (JObj (cached_tasks_members c at))) = Some (JObj (cached_tasks_members c at))"
proof (rule parse_members)
  have el: "elems_ok (map JStr xs) \<longleftrightarrow> list_all valid_utf8 xs" "edepth (map JStr xs) = 0" for xs
    by (induction xs) auto
  have task: "members_ok (cached_task_members t)" "mdepth (cached_task_members t) = 0"
    if "cached_task_ok t" for t
    using that by (auto simp: cached_task_members_def cached_task_ok_def)
  then have ts: "elems_ok (map (\<lambda>t. JObj (cached_task_members t)) ts)"
    "edepth (map (\<lambda>t. JObj (cached_task_members t)) ts) \<le> 1" if "list_all cached_task_ok ts" for ts
    using that by (induction ts) auto
  show "members_ok (cached_tasks_members c at)" "mdepth (cached_tasks_members c at) < max_nesting"
    using assms ts [of "ca_Tasks c"]
    by (auto simp: cached_tasks_members_def cached_tasks_ok_def el max_nesting_def)
qed

definition api_of_entry :: "cached_tasks \<Rightarrow> int \<Rightarrow> api_cached_tasks" where
  "api_of_entry c at = \<lparr>ac_Version = ca_Version c, ac_CachedAt = at, ac_LastUpdatedAt = ca_LastUpdatedAt c,
     ac_PageSize = ca_PageSize c, ac_CachedPages = ca_CachedPages c, ac_PageTokens = ca_PageTokens c,
     ac_NextPageToken = ca_NextPageToken c, ac_Tasks = map api_of_cached (ca_Tasks c)\<rparr>"

lemma decode_cached_tasks:
  assumes "cached_tasks_ok c" "parse_strict_rfc3339 at = Some ti"
  shows "decode_api_cached_tasks (JObj (cached_tasks_members c at)) = Some (api_of_entry c ti)"
proof -
  let ?ms = "cached_tasks_members c at"
  have k: "distinct (map fst ?ms)" "fst ` set ?ms \<subseteq> set cached_tasks_names"
    by (auto simp: cached_tasks_members_def omit_empty_def cached_tasks_names_def)
  note mv = member_vals_known [OF k]
  have names: "''version'' \<in> set cached_tasks_names" "''cachedAt'' \<in> set cached_tasks_names"
    "''lastUpdatedAt'' \<in> set cached_tasks_names" "''pageSize'' \<in> set cached_tasks_names"
    "''cachedPages'' \<in> set cached_tasks_names" "''pageTokens'' \<in> set cached_tasks_names"
    "''nextPageToken'' \<in> set cached_tasks_names" "''tasks'' \<in> set cached_tasks_names"
    by (simp_all add: cached_tasks_names_def)
  have lookup: "map_of ?ms ''version'' = Some (JNum (itoa (ca_Version c)))"
    "map_of ?ms ''cachedAt'' = Some (JStr at)"
    "map_of ?ms ''lastUpdatedAt'' = Some (JNum (itoa (ca_LastUpdatedAt c)))"
    "map_of ?ms ''pageSize'' = Some (JNum (itoa (ca_PageSize c)))"
    "map_of ?ms ''cachedPages'' = (if ca_CachedPages c = 0 then None else Some (JNum (itoa (ca_CachedPages c))))"
    "map_of ?ms ''pageTokens'' = (if ca_PageTokens c = [] then None else Some (JArr (map JStr (ca_PageTokens c))))"
    "map_of ?ms ''nextPageToken'' =
       (if ca_NextPageToken c = '''' then None else Some (JStr (ca_NextPageToken c)))"
    "map_of ?ms ''tasks'' = Some (JArr (map (\<lambda>t. JObj (cached_task_members t)) (ca_Tasks c)))"
    by (simp_all add: cached_tasks_members_def omit_empty_def JInt_def)
  have toks: "decode_elems as_string '''' (map JStr xs) = Some xs" for xs
    using decode_elems_map [of xs JStr as_string "\<lambda>x. x" "''''"] by simp
  have tasks: "decode_elems decode_api_task empty_api_task
      (map (\<lambda>t. JObj (cached_task_members t)) (ca_Tasks c)) = Some (map api_of_cached (ca_Tasks c))"
    using assms(1) by (intro decode_elems_map) (auto simp: cached_tasks_ok_def list_all_iff decode_cached_task)
  show ?thesis
    using assms
    by (simp add: decode_api_cached_tasks_def object_members_def get_string_def get_int_def
        mv names lookup cached_tasks_ok_def slice_field_def toks tasks api_of_entry_def)
qed

lemma format_rfc3339_utf8: "valid_utf8 (format_rfc3339 d)"
proof (rule valid_utf8_ascii)
  fix c assume "c \<in> set (format_rfc3339 d)"
  moreover have "c \<in> set (frac_text (dt_nsec d)) \<Longrightarrow> c = CHR ''.'' \<or> c \<in> set (tl (frac_text (dt_nsec d)))"
    by (auto simp: frac_text_def Let_def split: if_splits)
  moreover have "is_digit c \<Longrightarrow> byte c < 128" by (simp add: is_digit_def)
  ultimately show "byte c < 128"
    using pad_is_digit [of c] frac_digits [of c "dt_nsec d"] by (auto simp: format_rfc3339_def)
qed

text \<open>What the updater writes is what the API reads.\<close>

theorem cached_tasks_read_back:
  assumes "cached_tasks_ok c" "marshal_cached_tasks c = Inr t" "sonic_std sn"
  shows "\<exists>at. sn_cached_tasks sn t = Inr (api_of_entry c at)"
proof -
  obtain at where at: "marshal_time (ca_CachedAt c) = Inr at"
    and tx: "t = json_print (JObj (cached_tasks_members c at))"
    using assms(2) by (auto simp: marshal_cached_tasks_def split: sum.splits)
  obtain ti where "parse_strict_rfc3339 at = Some ti"
    using parse_format [OF _ at] assms(1) by (auto simp: cached_tasks_ok_def)
  moreover have "valid_utf8 at"
    using at format_rfc3339_utf8 by (auto simp: marshal_time_def split: if_splits)
  ultimately have "unmarshal_text decode_api_cached_tasks t = Inr (api_of_entry c ti)"
    using cached_members_ok [OF assms(1)] decode_cached_tasks [OF assms(1)]
    by (simp add: unmarshal_text_def tx)
  then show ?thesis using assms(3) by (auto simp: sonic_std_def)
qed

definition cached_settings_ok :: "cached_settings \<Rightarrow> bool" where
  "cached_settings_ok c \<longleftrightarrow> in_i64 (cg_Version c) \<and> in_i64 (cg_LastUpdatedAt c) \<and>
     in_i64 (cg_TasksPerCategory c) \<and> valid_datetime (cg_CachedAt c)"

theorem cached_settings_read_back:
  assumes "cached_settings_ok c" "marshal_cached_settings c = Inr t" "sonic_std sn"
  shows "\<exists>p. sn_cached_settings sn t = Inr p \<and> ag_Settings p =
    \<lparr>as_TasksPerCategory = cg_TasksPerCategory c, as_ShowDoneTasks = cg_ShowDoneTasks c\<rparr>"
proof -
  obtain at where at: "marshal_time (cg_CachedAt c) = Inr at"
    and tx: "t = json_print (JObj (cached_settings_members c at))"
    using assms(2) by (auto simp: marshal_cached_settings_def split: sum.splits)
  obtain ti where ti: "parse_strict_rfc3339 at = Some ti"
    using parse_format [OF _ at] assms(1) by (auto simp: cached_settings_ok_def)
  have at8: "valid_utf8 at"
    using at format_rfc3339_utf8 by (auto simp: marshal_time_def split: if_splits)
  let ?ms = "cached_settings_members c at"
  let ?s = "[(''tasksPerCategory'', JNum (itoa (cg_TasksPerCategory c))), (''showDoneTasks'', JBool (cg_ShowDoneTasks c))]"
  have k: "distinct (map fst ?ms)" "fst ` set ?ms \<subseteq> set cached_settings_names"
    "distinct (map fst ?s)" "fst ` set ?s \<subseteq> set api_settings_names"
    by (auto simp: cached_settings_members_def cached_settings_names_def api_settings_names_def)
  have names: "''version'' \<in> set cached_settings_names" "''cachedAt'' \<in> set cached_settings_names"
    "''lastUpdatedAt'' \<in> set cached_settings_names" "''settings'' \<in> set cached_settings_names"
    "''tasksPerCategory'' \<in> set api_settings_names" "''showDoneTasks'' \<in> set api_settings_names"
    by (simp_all add: cached_settings_names_def api_settings_names_def)
  have lookup: "map_of ?ms ''version'' = Some (JNum (itoa (cg_Version c)))"
    "map_of ?ms ''cachedAt'' = Some (JStr at)"
    "map_of ?ms ''lastUpdatedAt'' = Some (JNum (itoa (cg_LastUpdatedAt c)))"
    "map_of ?ms ''settings'' = Some (JObj ?s)"
    by (simp_all add: cached_settings_members_def JInt_def)
  have inner: "decode_api_settings (JObj ?s) =
      Some \<lparr>as_TasksPerCategory = cg_TasksPerCategory c, as_ShowDoneTasks = cg_ShowDoneTasks c\<rparr>"
    using assms(1) member_vals_known [OF k(3,4)] names
    by (simp add: decode_api_settings_def object_members_def get_int_def get_bool_def cached_settings_ok_def)
  have "json_parse t = Some (JObj ?ms)" unfolding tx
    using at8 by (intro parse_members) (auto simp: cached_settings_members_def max_nesting_def)
  then have "\<exists>p. unmarshal_text decode_api_cached_settings t = Inr p \<and> ag_Settings p =
      \<lparr>as_TasksPerCategory = cg_TasksPerCategory c, as_ShowDoneTasks = cg_ShowDoneTasks c\<rparr>"
    using assms(1) member_vals_known [OF k(1,2)] names lookup inner ti
    by (simp add: unmarshal_text_def decode_api_cached_settings_def object_members_def get_int_def
        cached_settings_ok_def)
  then show ?thesis using assms(3) by (auto simp: sonic_std_def)
qed

end
