(* ===== verification/Table_Listing.thy ===== *)
theory Table_Listing
  imports Table_Client Rmu_Storage
begin

text \<open>
  The documented behaviour of listing a partition page by page, an extension of
  \<open>azure_table\<close>. \<open>lister w\<close> gives, for a user, a page size and a position, the rows of the
  page and the next position; the text of a row holds the selected properties.
\<close>

type_synonym position = "string option \<times> string option"
type_synonym lister = "string \<Rightarrow> int \<Rightarrow> position \<Rightarrow> props list \<times> position"

definition row_text :: "string \<Rightarrow> string \<Rightarrow> props \<Rightarrow> bool" where
  "row_text sel t p \<longleftrightarrow>
     (\<exists>vs. json_parse t = Some (JObj vs) \<and> distinct (map fst vs) \<and>
       (\<forall>n. \<not> is_meta n \<longrightarrow> map_of vs n = (if n \<in> set (split_all CHR '','' sel) then p n else None)) \<and>
       (\<forall>n. n \<in> fst ` set vs \<longrightarrow> n \<noteq> ''Timestamp''))"

definition position_ok :: "position \<Rightarrow> bool" where
  "position_ok pos \<longleftrightarrow> pos = (None, None) \<or>
     (\<exists>pk rk. pos = (Some pk, Some rk) \<and> pk \<noteq> '''' \<and> rk \<noteq> '''' \<and>
        int (length pk) < 4294967296 \<and> int (length rk) < 4294967296)"

text \<open>A user name in a filter is quoted by the services but not escaped, so the laws are about
  names without quotes. The format without metadata leaves out the time stamp unless it is
  selected.\<close>

locale azure_listing = azure_table cl tbl issued tinv
  for cl :: "'w table_client" and tbl issued tinv +
  fixes lister :: "'w \<Rightarrow> lister"
  assumes list_ok: "tinv w \<Longrightarrow> CHR 0x27 \<notin> set user \<Longrightarrow> 0 < n \<Longrightarrow>
        ListPage cl (partition_filter user) sel n npk nrk w = (Some (Inr page), w') \<Longrightarrow>
        tinv w' \<and> tbl w' = tbl w \<and> lister w' = lister w \<and>
        (\<exists>ps. lister w user n (npk, nrk) = (ps, lp_NextPartitionKey page, lp_NextRowKey page) \<and>
           list_all2 (row_text sel) (lp_Entities page) ps)"
    and list_none: "tinv w \<Longrightarrow> CHR 0x27 \<notin> set user \<Longrightarrow> 0 < n \<Longrightarrow>
        ListPage cl (partition_filter user) sel n npk nrk w = (None, w') \<Longrightarrow>
        tinv w' \<and> tbl w' = tbl w \<and> lister w' = lister w \<and> lister w user n (npk, nrk) = ([], None, None)"
    and list_err: "tinv w \<Longrightarrow> ListPage cl f sel n npk nrk w = (Some (Inl e), w') \<Longrightarrow>
        tinv w' \<and> tbl w' = tbl w \<and> lister w' = lister w"
    and list_page: "tinv w \<Longrightarrow> 0 < n \<Longrightarrow> lister w user n pos = (ps, pos') \<Longrightarrow>
        int (length ps) \<le> n \<and> position_ok pos' \<and> (\<forall>p \<in> set ps. \<exists>rk et. tbl w (user, rk) = Some (p, et))"

section \<open>The reference table\<close>

lemma select_members_text:
  assumes "row_ok ms"
  shows "row_text sel (json_print (JObj (select_members sel ms))) (map_of ms)"
proof -
  let ?vs = "select_members sel ms"
  have "members_ok ?vs \<and> mdepth ?vs = 0"
    using assms by (intro members_ok_flat) (auto simp: row_ok_def select_members_def)
  then have "json_parse (json_print (JObj ?vs)) = Some (JObj ?vs)"
    by (intro parse_members) (auto simp: max_nesting_def)
  moreover have "distinct (map fst ?vs)"
    using assms by (simp add: row_ok_def select_members_def distinct_map_filter)
  moreover have "map_of ?vs n = (if n \<in> set (split_all CHR '','' sel) then map_of ms n else None)" for n
  proof (cases "n \<in> set (split_all CHR '','' sel)")
    case True
    then show ?thesis
      using map_of_filter_keys [of "\<lambda>x. x \<in> set (split_all CHR '','' sel)" n ms]
      by (simp add: select_members_def)
  next
    case False
    then have "n \<notin> fst ` set ?vs" by (auto simp: select_members_def)
    with False show ?thesis by (simp add: map_of_eq_None_iff)
  qed
  moreover have "\<forall>n. n \<in> fst ` set ?vs \<longrightarrow> n \<noteq> ''Timestamp''"
    using assms by (auto simp: row_ok_def is_meta_def select_members_def)
  ultimately show ?thesis unfolding row_text_def by blast
qed

definition rt_lister :: "ref_table \<Rightarrow> lister" where
  "rt_lister t user n pos =
     (let rows = rt_partition user t;
          rest = (case snd pos of None \<Rightarrow> rows | Some rk \<Rightarrow> dropWhile (\<lambda>row. fst row \<noteq> rk) rows);
          after = drop (nat n) rest
      in (map (\<lambda>row. map_of (snd row)) (take (nat n) rest),
          (if after = [] then None else Some user), (if after = [] then None else Some (fst (hd after)))))"

lemma filter_user_partition: "CHR 0x27 \<notin> set user \<Longrightarrow> filter_user (partition_filter user) = user"
  unfolding filter_user_def partition_filter_def by (simp, rule takeWhile_append_stop) auto

lemma rt_partition_row:
  assumes "rt_inv t" "row \<in> set (rt_partition user t)"
  shows "\<exists>n. map_of (rt_rows t) (user, fst row) = Some (snd row, n)"
proof -
  obtain r where r: "r \<in> set (rt_rows t)" "fst (fst r) = user" "row = (snd (fst r), fst (snd r))"
    using assms(2) by (auto simp: rt_partition_def)
  then have "map_of (rt_rows t) (fst r) = Some (snd r)"
    using assms(1) by (intro map_of_is_SomeI) (auto simp: rt_inv_def)
  moreover have "fst r = (user, fst row)" "snd r = (snd row, snd (snd r))"
    using r by (auto intro: prod_eqI)
  ultimately show ?thesis by metis
qed

lemma ref_client_azure_listing:
  assumes lens: "\<And>t w. sel (put t w) = t"
  shows "azure_listing (ref_client sel put) (\<lambda>w. rt_tbl (sel w)) (\<lambda>w. rt_issued (sel w))
    (\<lambda>w. rt_inv (sel w)) (\<lambda>w. rt_lister (sel w))"
proof (rule azure_listing.intro [OF ref_client_azure_table], rule lens, unfold_locales, goal_cases)
  case (1 w user n sl npk nrk page w')
  define rest where "rest = (case nrk of None \<Rightarrow> rt_partition user (sel w)
    | Some rk \<Rightarrow> dropWhile (\<lambda>row. fst row \<noteq> rk) (rt_partition user (sel w)))"
  have page: "page = rt_list (partition_filter user) sl n nrk (sel w)" and w': "w' = w"
    using 1(4) by (auto simp: ref_client_def)
  have sub: "set rest \<subseteq> set (rt_partition user (sel w))"
    by (auto simp: rest_def split: option.splits dest: set_dropWhileD)
  have rows: "row_ok (snd row)" if "row \<in> set rest" for row
    using rt_partition_row [OF 1(1)] sub that rt_invD [OF 1(1)] by blast
  have "list_all2 (row_text sl) (map (\<lambda>row. json_print (JObj (select_members sl (snd row)))) xs)
      (map (\<lambda>row. map_of (snd row)) xs)" if "set xs \<subseteq> set rest" for xs
    using that rows by (induction xs) (auto intro: select_members_text simp del: json_print.simps)
  from this [of "take (nat n) rest"] show ?case
    using 1 set_take_subset [of "nat n" rest]
    by (simp add: page w' rt_list_def rt_lister_def filter_user_partition rest_def [symmetric] Let_def
        del: json_print.simps)
next
  case (4 w n user pos ps pos')
  define rest where "rest = (case snd pos of None \<Rightarrow> rt_partition user (sel w)
    | Some rk \<Rightarrow> dropWhile (\<lambda>row. fst row \<noteq> rk) (rt_partition user (sel w)))"
  have sub: "set rest \<subseteq> set (rt_partition user (sel w))"
    by (auto simp: rest_def split: option.splits dest: set_dropWhileD)
  have ps: "ps = map (\<lambda>row. map_of (snd row)) (take (nat n) rest)"
    and pos': "pos' = (if drop (nat n) rest = [] then None else Some user,
      if drop (nat n) rest = [] then None else Some (fst (hd (drop (nat n) rest))))"
    using 4(3) unfolding rt_lister_def Let_def rest_def [symmetric] by auto
  have "int (length ps) \<le> n" using 4(2) by (simp add: ps)
  moreover have "position_ok pos'"
  proof (cases "drop (nat n) rest = []")
    case False
    then have "hd (drop (nat n) rest) \<in> set (rt_partition user (sel w))"
      using sub by (meson hd_in_set in_set_dropD subsetD)
    from rt_partition_row [OF 4(1) this] rt_invD [OF 4(1)]
    have "key_ok (user, fst (hd (drop (nat n) rest)))" by blast
    with False show ?thesis by (simp add: pos' position_ok_def key_ok_def)
  qed (simp add: pos' position_ok_def)
  moreover have "\<forall>p \<in> set ps. \<exists>rk et. rt_tbl (sel w) (user, rk) = Some (p, et)"
  proof
    fix p assume "p \<in> set ps"
    then obtain row where "row \<in> set (rt_partition user (sel w))" and p: "p = map_of (snd row)"
      using sub by (auto simp: ps dest: in_set_takeD)
    from rt_partition_row [OF 4(1) this(1)] obtain m where
      "map_of (rt_rows (sel w)) (user, fst row) = Some (snd row, m)" by blast
    then show "\<exists>rk et. rt_tbl (sel w) (user, rk) = Some (p, et)"
      by (auto simp: rt_tbl_def p)
  qed
  ultimately show ?case by blast
qed (auto simp: ref_client_def)

end
