(* ===== verification/Cache_Pages.thy ===== *)
theory Cache_Pages
  imports Api_Json Task_Store Table_Listing
begin

text \<open>
  Which pages a task cache entry holds. The locale \<open>page_source\<close> is the contract of the interface
  \<open>cacheStore\<close> of the cache updater: listing is a function from positions to pages while the
  table does not change. In it, the loop of \<open>RefreshTasks\<close> is shown to collect consecutive
  pages with the tokens that lead from one to the next.
\<close>

section \<open>Pages and positions\<close>

definition tok :: "position \<Rightarrow> string" where
  "tok pos = (case encodeContinuationToken (fst pos) (snd pos) of Inr t \<Rightarrow> t | Inl _ \<Rightarrow> '''')"

lemma encode_tok: "encodeContinuationToken pk rk = Inr (tok (pk, rk))"
  by (auto simp: tok_def encodeContinuationToken_def split: option.splits)

lemma tok_start [simp]: "tok (None, None) = ''''"
  by (simp add: tok_def encodeContinuationToken_def)

lemma tok_decode:
  assumes "position_ok pos"
  shows "decodeContinuationToken sonic_ct (tok pos) = Inr pos" "tok pos = '''' \<longleftrightarrow> pos = (None, None)"
proof -
  show "tok pos = '''' \<longleftrightarrow> pos = (None, None)"
    using assms by (auto simp: position_ok_def tok_def encodeContinuationToken_def)
  show "decodeContinuationToken sonic_ct (tok pos) = Inr pos"
  proof (cases "pos = (None, None)")
    case True
    then show ?thesis by (simp add: decodeContinuationToken_def)
  next
    case False
    with assms obtain pk rk where "pos = (Some pk, Some rk)" "pk \<noteq> ''''" "rk \<noteq> ''''"
      "int (length pk) < 4294967296" "int (length rk) < 4294967296"
      by (auto simp: position_ok_def)
    with decode_encode_token [of pk rk sonic_ct] show ?thesis by (auto simp: tok_def)
  qed
qed

definition pos_at :: "(position \<Rightarrow> 'p list \<times> position) \<Rightarrow> nat \<Rightarrow> position" where
  "pos_at L j = ((\<lambda>pos. snd (L pos)) ^^ j) (None, None)"

definition page_at :: "(position \<Rightarrow> 'p list \<times> position) \<Rightarrow> nat \<Rightarrow> 'p list" where
  "page_at L j = fst (L (pos_at L j))"

lemma pos_at_simps [simp]: "pos_at L 0 = (None, None)" "pos_at L (Suc j) = snd (L (pos_at L j))"
  by (simp_all add: pos_at_def)

text \<open>A cache entry is exact: every page it can serve is the page of the table at the position of
  its token, with the right next token.\<close>

definition exact_entry ::
  "(position \<Rightarrow> 'p list \<times> position) \<Rightarrow> ('p \<Rightarrow> 't) \<Rightarrow> nat \<Rightarrow> string list \<Rightarrow> string \<Rightarrow> 't list \<Rightarrow> bool" where
  "exact_entry L f n tokens next entries \<longleftrightarrow>
     (\<forall>j < length tokens. tokens ! j = tok (pos_at L (Suc j)) \<and> pos_at L (Suc j) \<noteq> (None, None)) \<and>
     (\<forall>j. j * n < length entries \<longrightarrow>
        take n (drop (j * n) entries) = map f (page_at L j) \<and>
        (if j < length tokens then tokens ! j else next) = tok (pos_at L (Suc j)))"

lemma length_concat_const:
  "(\<And>j. j < i \<Longrightarrow> length (F j) = n) \<Longrightarrow> length (concat (map F [0..<i])) = i * n"
  by (induction i) auto

lemma slice_concat:
  assumes "\<And>j. j < i \<Longrightarrow> length (F j) = n" "j < i"
  shows "take n (drop (j * n) (concat (map F [0..<i]) @ xs)) = F j"
proof -
  have split: "[0..<i] = [0..<j] @ j # [Suc j..<i]"
    using assms(2) by (metis le_add_diff_inverse less_imp_le_nat upt_add_eq_append upt_conv_Cons zero_le)
  have "length (concat (map F [0..<j])) = j * n" using assms by (intro length_concat_const) auto
  moreover have "length (F j) = n" using assms by simp
  ultimately show ?thesis by (simp add: split)
qed

section \<open>The loop\<close>

locale page_source =
  fixes store :: "'w cache_store"
    and user :: string
    and n :: nat
    and L :: "position \<Rightarrow> 'p list \<times> position"
    and g :: "'p \<Rightarrow> task_entity"
    and inv :: "'w \<Rightarrow> bool"
  assumes n_pos: "0 < n"
    and list_law: "inv w \<Longrightarrow> cs_ListTasksPage store user (int n) pk rk w = (r, w') \<Longrightarrow>
        inv w' \<and> (\<forall>ts pos. r = Inr (ts, pos) \<longrightarrow> (\<exists>ps. L (pk, rk) = (ps, pos) \<and> ts = map g ps))"
    and page_law: "L pos = (ps, pos') \<Longrightarrow> length ps \<le> n \<and> position_ok pos'"
begin

abbreviation entry_of :: "'p \<Rightarrow> cached_task" where
  "entry_of p \<equiv> cached_task_of (g p)"

text \<open>After \<open>i\<close> full pages.\<close>

definition collected :: "refresh_state \<Rightarrow> nat \<Rightarrow> bool" where
  "collected s i \<longleftrightarrow>
     rs_entries s = concat (map (\<lambda>j. map entry_of (page_at L j)) [0..<i]) \<and>
     (\<forall>j < i. length (page_at L j) = n) \<and>
     rs_pageTokens s = map (\<lambda>j. tok (pos_at L (Suc j))) [0..<i] \<and>
     (\<forall>j < i. pos_at L (Suc j) \<noteq> (None, None)) \<and> (rs_nextPK s, rs_nextRK s) = pos_at L i"

lemma fold_add_task:
  "rs_entries (fold (add_task e) ts s) = rs_entries s @ map cached_task_of ts \<and>
   rs_pageTokens (fold (add_task e) ts s) = rs_pageTokens s \<and>
   rs_nextPK (fold (add_task e) ts s) = rs_nextPK s \<and> rs_nextRK (fold (add_task e) ts s) = rs_nextRK s"
  by (induction ts arbitrary: s) (auto simp: add_task_def)

lemma collected_length: "collected s i \<Longrightarrow> length (rs_entries s) = i * n"
  by (simp add: collected_def) (rule length_concat_const, simp)

text \<open>The two ways in which the loop ends: at an empty page, or after a last page whose token is
  not recorded.\<close>

lemma exact_empty:
  assumes "collected s i"
  shows "exact_entry L entry_of n (rs_pageTokens s) next (rs_entries s)"
proof -
  have "take n (drop (j * n) (rs_entries s)) = map entry_of (page_at L j)" if "j < i" for j
    using assms that slice_concat [of i "\<lambda>j. map entry_of (page_at L j)" n j "[]"]
    by (simp add: collected_def)
  moreover have "j < i" if "j * n < length (rs_entries s)" for j
    using that by (simp add: collected_length [OF assms])
  ultimately show ?thesis using assms by (simp add: exact_entry_def collected_def)
qed

lemma exact_last:
  assumes "collected s i" "page_at L i \<noteq> []"
  shows "exact_entry L entry_of n (rs_pageTokens s) (tok (pos_at L (Suc i)))
    (rs_entries s @ map entry_of (page_at L i))"
proof -
  let ?es = "rs_entries s @ map entry_of (page_at L i)"
  have len: "length (page_at L i) \<le> n" using page_law by (simp add: page_at_def) (metis prod.collapse)
  have full: "take n (drop (j * n) ?es) = map entry_of (page_at L j)" if "j < i" for j
    using assms(1) that slice_concat [of i "\<lambda>j. map entry_of (page_at L j)" n j]
    by (simp add: collected_def)
  have last: "take n (drop (i * n) ?es) = map entry_of (page_at L i)"
    using len collected_length [OF assms(1)] by simp
  have "j \<le> i" if "j * n < length ?es" for j
  proof (rule ccontr)
    assume "\<not> j \<le> i"
    then have "Suc i * n \<le> j * n" by (intro mult_le_mono1) simp
    with that len show False by (simp add: collected_length [OF assms(1)])
  qed
  with full last assms(1) show ?thesis
    unfolding exact_entry_def collected_def by (auto simp: le_less)
qed

lemma refresh_step:
  assumes "inv w" "collected s i" "refresh_pages store user e (int n) (Suc k) s w = (Some s', w')"
  shows "inv w' \<and> exact_entry L entry_of n (rs_pageTokens s') (rs_nextToken s') (rs_entries s') \<or>
    (\<exists>s2 w1. 0 < k \<and> inv w1 \<and> collected s2 (Suc i) \<and>
       refresh_pages store user e (int n) k s2 w1 = (Some s', w'))"
proof -
  obtain r w1 where list: "cs_ListTasksPage store user (int n) (rs_nextPK s) (rs_nextRK s) w = (r, w1)"
    by fastforce
  then obtain ts pk rk where r: "r = Inr (ts, pk, rk)"
    using assms(3) by (cases r) auto
  obtain ps where L: "L (pos_at L i) = (ps, pk, rk)" and ts: "ts = map g ps" and w1: "inv w1"
    using list_law [OF assms(1) list] r assms(2) by (auto simp: collected_def)
  have page: "page_at L i = ps" "pos_at L (Suc i) = (pk, rk)" by (simp_all add: page_at_def L)
  note law = page_law [OF L]
  define s2 where "s2 = (fold (add_task e) ts s)\<lparr>rs_nextToken := tok (pk, rk),
    rs_pageTokens := (if k > 0 \<and> tok (pk, rk) \<noteq> '''' \<and> length ts = n
      then rs_pageTokens s @ [tok (pk, rk)] else rs_pageTokens s)\<rparr>"
  have step: "refresh_pages store user e (int n) (Suc k) s w =
      (if ts = [] then (Some (s\<lparr>rs_nextToken := tok (pk, rk)\<rparr>), w1)
       else if length ts < n \<or> pk = None \<or> rk = None then (Some s2, w1)
       else refresh_pages store user e (int n) k (s2\<lparr>rs_nextPK := pk, rs_nextRK := rk\<rparr>) w1)"
    using list r by (simp add: encode_tok s2_def fold_add_task Let_def)
  have s2: "rs_entries s2 = rs_entries s @ map entry_of ps" "rs_nextToken s2 = tok (pos_at L (Suc i))"
    using fold_add_task [of e ts s] by (simp_all add: s2_def ts page del: pos_at_simps(2))
  have last: "exact_entry L entry_of n (rs_pageTokens s2) (rs_nextToken s2) (rs_entries s2)"
    if "ps \<noteq> []" "rs_pageTokens s2 = rs_pageTokens s"
    using exact_last [OF assms(2)] that by (simp add: page s2)
  consider (empty) "ps = []" | (stop) "ps \<noteq> []" "length ps < n \<or> pk = None \<or> rk = None"
    | (more) "ps \<noteq> []" "length ps = n" "pk \<noteq> None" "rk \<noteq> None"
    using law by fastforce
  then show ?thesis
  proof cases
    case empty
    then show ?thesis
      using assms(3) w1 exact_empty [OF assms(2)] unfolding step by (auto simp: ts)
  next
    case stop
    then have "tok (pk, rk) = '''' \<or> length ts < n"
      using law tok_decode(2) [of "(pk, rk)"] by (auto simp: ts position_ok_def)
    then have "rs_pageTokens s2 = rs_pageTokens s" by (auto simp: s2_def)
    with stop last assms(3) w1 show ?thesis unfolding step by (auto simp: ts)
  next
    case more
    have tok: "tok (pk, rk) \<noteq> ''''" using law tok_decode(2) [of "(pk, rk)"] more by auto
    show ?thesis
    proof (cases "k = 0")
      case True
      then have "rs_pageTokens s2 = rs_pageTokens s" by (simp add: s2_def)
      with more last assms(3) w1 True show ?thesis unfolding step by (auto simp: ts)
    next
      case False
      have "collected (s2\<lparr>rs_nextPK := pk, rs_nextRK := rk\<rparr>) (Suc i)"
        using assms(2) False more tok
        by (auto simp: collected_def s2 page s2_def ts fold_add_task less_Suc_eq simp del: pos_at_simps(2))
      with more assms(3) w1 False show ?thesis unfolding step by (auto simp: ts)
    qed
  qed
qed

lemma refresh_exact:
  assumes "inv w" "collected s i" "refresh_pages store user e (int n) (Suc k) s w = (Some s', w')"
  shows "inv w' \<and> exact_entry L entry_of n (rs_pageTokens s') (rs_nextToken s') (rs_entries s')"
  using assms
proof (induction k arbitrary: s i w)
  case 0
  then show ?case using refresh_step [OF 0] by auto
next
  case (Suc k)
  then show ?case using refresh_step [OF Suc.prems] by blast
qed

lemma refresh_initial_exact:
  assumes "inv w" "0 < k" "refresh_pages store user e (int n) k (initial_refresh e ts) w = (Some s', w')"
  shows "inv w' \<and> exact_entry L entry_of n (rs_pageTokens s') (rs_nextToken s') (rs_entries s')"
proof -
  have "collected (initial_refresh e ts) 0" by (simp add: collected_def initial_refresh_def)
  with assms show ?thesis
    using refresh_exact [of w "initial_refresh e ts" 0 e "k - 1" s' w'] by (simp del: refresh_pages.simps)
qed

end

end
