(* ===== verification/Cache_Transparency.thy ===== *)
theory Cache_Transparency
  imports Cache_Pages
begin

text \<open>
  The read path of the system as a whole: the updater writes cache entries, the API serves pages
  from the cache or from the table. The locale \<open>read_model\<close> puts the table, Redis and the clock
  side by side. Its lemmas show that \<open>RefreshTasks\<close> leaves an entry that is exact for the table,
  and that with such an entry \<open>FetchTasks\<close> returns the page of the table.
\<close>

section \<open>Decoding the rows of a page\<close>

definition row_api_task :: "props \<Rightarrow> api_task" where
  "row_api_task p = api_of_cached (cached_task_of (row_task (p, '''')))"

lemma select_all: "set (split_all CHR '','' taskListSelectClause) = set task_names"
  by (simp add: taskListSelectClause_def task_names_def)

lemma task_row_selected:
  assumes "task_row k p" "row_text taskListSelectClause t p"
  shows "unmarshal_text decode_task_row t = Inr (row_task (p, ''''))"
proof -
  obtain vs where vs: "json_parse t = Some (JObj vs)" "distinct (map fst vs)"
    and lk: "\<forall>n. \<not> is_meta n \<longrightarrow> map_of vs n = (if n \<in> set task_names then p n else None)"
    using assms(2) unfolding row_text_def select_all by blast
  have "p n = None" if "n \<notin> set task_names" for n
    using assms(1) that by (auto simp: task_row_def)
  with lk have "\<forall>n. \<not> is_meta n \<longrightarrow> map_of vs n = p n" by metis
  from decode_task_row_ok [OF assms(1) vs(2) this] show ?thesis
    by (simp add: unmarshal_text_def vs(1))
qed

definition apiSelectClause :: string where
  "apiSelectClause = ''RowKey,Title,Notes,Category,Order,Done''"

lemma api_names_fold:
  "\<forall>n \<in> set task_entity_names. CHR ''.'' \<notin> set (fold_name n)"
  by (simp add: task_entity_names_def upper_char_def char_of_def bit_Suc_0_iff)

lemma api_row_selected:
  assumes row: "task_row k p" and tx: "row_text apiSelectClause t p"
  shows "\<exists>e. unmarshal_text decode_api_task_entity t = Inr e \<and> api_task_of e = row_api_task p"
proof -
  let ?sel = "{''RowKey'', ''Title'', ''Notes'', ''Category'', ''Order'', ''Done''}"
  have sel: "set (split_all CHR '','' apiSelectClause) = ?sel" by (auto simp: apiSelectClause_def)
  obtain vs where vs: "json_parse t = Some (JObj vs)" "distinct (map fst vs)"
    and lk: "\<forall>n. \<not> is_meta n \<longrightarrow> map_of vs n = (if n \<in> ?sel then p n else None)"
    and ts: "\<forall>n. n \<in> fst ` set vs \<longrightarrow> n \<noteq> ''Timestamp''"
    using tx unfolding row_text_def sel by blast
  have clash: "no_clash task_entity_names (fst ` set vs)"
    unfolding no_clash_def
  proof
    fix m assume m: "m \<in> fst ` set vs"
    show "m \<in> set task_entity_names \<or> (\<forall>n \<in> set task_entity_names. fold_name m \<noteq> fold_name n)"
    proof (cases "is_meta m")
      case True
      with ts m have "CHR ''.'' \<in> set (fold_name m)" by (auto simp: is_meta_def intro: fold_name_dot)
      with api_names_fold show ?thesis by metis
    next
      case False
      with m lk have "m \<in> ?sel" by (metis map_of_eq_None_iff)
      then show ?thesis by (auto simp: task_entity_names_def)
    qed
  qed
  have tsnone: "map_of vs ''Timestamp'' = None" using ts by (auto simp: map_of_eq_None_iff)
  have mv: "member_vals task_entity_names n vs = (case map_of vs n of None \<Rightarrow> [] | Some x \<Rightarrow> [x])"
    if "n \<in> set task_entity_names" for n
    using member_vals_map_of [OF vs(2) clash that] .
  have names: "''PartitionKey'' \<in> set task_entity_names" "''RowKey'' \<in> set task_entity_names"
    "''Timestamp'' \<in> set task_entity_names" "''Title'' \<in> set task_entity_names"
    "''Notes'' \<in> set task_entity_names" "''Category'' \<in> set task_entity_names"
    "''Order'' \<in> set task_entity_names" "''Done'' \<in> set task_entity_names"
    by (simp_all add: task_entity_names_def)
  have meta: "\<not> is_meta ''PartitionKey''" "\<not> is_meta ''RowKey''" "\<not> is_meta ''Title''"
    "\<not> is_meta ''Notes''" "\<not> is_meta ''Category''" "\<not> is_meta ''Order''" "\<not> is_meta ''Done''"
    by (simp_all add: is_meta_def)
  have look: "map_of vs ''PartitionKey'' = None" "map_of vs ''RowKey'' = p ''RowKey''"
    "map_of vs ''Title'' = p ''Title''" "map_of vs ''Notes'' = p ''Notes''"
    "map_of vs ''Category'' = p ''Category''" "map_of vs ''Order'' = p ''Order''"
    "map_of vs ''Done'' = p ''Done''"
    using lk meta by simp_all
  show ?thesis
    using row unfolding task_row_def
    by (simp add: unmarshal_text_def vs(1) decode_api_task_entity_def object_members_def
        get_string_def get_int_def get_bool_def mv names look tsnone plain_field_opt api_task_of_def
        row_api_task_def api_of_cached_def cached_task_of_def row_task_def)
qed

lemma decode_rows_pages:
  assumes "list_all2 (row_text taskListSelectClause) ts ps" "\<forall>p \<in> set ps. \<exists>k. task_row k p"
  shows "decode_rows decode_task_row ts = Inr (map (\<lambda>p. row_task (p, '''')) ps)"
  using assms by (induction ts ps rule: list_all2_induct) (auto simp: task_row_selected)

lemma decode_all_pages:
  assumes "list_all2 (row_text apiSelectClause) ts ps" "\<forall>p \<in> set ps. \<exists>k. task_row k p" "sonic_std sn"
  shows "\<exists>es. decode_all (sn_task_entity sn) ts = Inr es \<and> map api_task_of es = map row_api_task ps"
  using assms(1,2)
proof (induction ts ps rule: list_all2_induct)
  case (Cons t ts p ps)
  then obtain k where "task_row k p" by auto
  from api_row_selected [OF this Cons.hyps(1)] assms(3)
  obtain e where "sn_task_entity sn t = Inr e" "api_task_of e = row_api_task p"
    by (auto simp: sonic_std_def)
  moreover from Cons obtain es where "decode_all (sn_task_entity sn) ts = Inr es"
    "map api_task_of es = map row_api_task ps" by auto
  ultimately show ?case by simp
qed simp

section \<open>What the updater writes is well-formed\<close>

definition task_ok :: "task_entity \<Rightarrow> bool" where
  "task_ok t \<longleftrightarrow> cached_task_ok (cached_task_of t) \<and> in_i64 (te_EventTimestamp t)"

lemma parseTimestamp_range: "in_i64 (parseTimestamp raw)"
proof (cases raw)
  case None
  then show ?thesis by (simp add: parseTimestamp_def in_i64_def)
next
  case (Some v)
  then show ?thesis
    by (cases v) (auto simp: parseTimestamp_def in_i64_def [of 0] split: option.splits
        dest: parse_int_range parse_rfc3339_range)
qed

lemma decode_task_row_task_ok:
  assumes "unmarshal_text decode_task_row t = Inr e"
  shows "task_ok e"
proof -
  obtain v where v: "json_parse t = Some v" "decode_task_row v = Some e"
    using assms by (auto simp: unmarshal_text_Inr)
  obtain ms where ms: "object_members v = Some ms" and so: "strings_ok_members ms"
    using v object_members_ok [OF _ json_parse_strings_ok [OF v(1)]]
    by (auto simp: decode_task_row_def bind_eq_Some_conv)
  note s = get_string_valid [OF _ so]
  show ?thesis
    using v(2) s parseTimestamp_range
    by (auto simp: decode_task_row_def ms bind_eq_Some_conv task_ok_def cached_task_ok_def
        cached_task_of_def intro: get_int_range)
qed

lemma decode_rows_task_ok:
  "decode_rows decode_task_row ts = Inr es \<Longrightarrow> \<forall>e \<in> set es. task_ok e"
proof (induction ts arbitrary: es)
  case (Cons t ts)
  then show ?case by (auto split: sum.splits dest: decode_task_row_task_ok)
qed simp

lemma ListTasksPage_task_ok:
  "ListTasksPage st user n pk rk w = (Inr (ts, pos), w') \<Longrightarrow> \<forall>t \<in> set ts. task_ok t"
  by (auto simp: ListTasksPage_def Let_def split: if_splits option.splits sum.splits prod.splits
      dest: decode_rows_task_ok)

lemma valid_utf8_tok [simp]: "valid_utf8 (tok pos)"
proof -
  have "byte c < 128" if "c \<in> set b64_alphabet" for c
    using that by (auto simp: b64_alphabet_def)
  moreover have "b64_char n \<in> set b64_alphabet" if "n < 64" for n
    using that nth_mem [of n b64_alphabet] by (simp add: b64_char_def b64_alphabet_facts)
  moreover have "x < 64" if "x \<in> set (b64_sextets (map byte s))" for x s
    using that by (rule b64_sextets_bound [rotated]) (auto simp: of_char_def)
  ultimately have "valid_utf8 (b64_encode s)" for s
    by (intro valid_utf8_ascii) (fastforce simp: b64_encode_def)
  then show ?thesis
    by (cases pos) (auto simp: tok_def encodeContinuationToken_def split: option.splits)
qed

definition refresh_ok :: "refresh_state \<Rightarrow> bool" where
  "refresh_ok s \<longleftrightarrow> list_all cached_task_ok (rs_entries s) \<and> in_i64 (rs_maxTs s) \<and>
     list_all valid_utf8 (rs_pageTokens s) \<and> valid_utf8 (rs_nextToken s)"

lemma fold_add_task_ok:
  "\<forall>t \<in> set ts. task_ok t \<Longrightarrow> refresh_ok s \<Longrightarrow> refresh_ok (fold (add_task e) ts s)"
  by (induction ts arbitrary: s) (auto simp: refresh_ok_def add_task_def task_ok_def)

lemma refresh_pages_ok:
  assumes "\<And>pk rk w ts pos w'. cs_ListTasksPage store user n pk rk w = (Inr (ts, pos), w') \<Longrightarrow>
      \<forall>t \<in> set ts. task_ok t"
  shows "refresh_pages store user e n k s w = (Some s', w') \<Longrightarrow> refresh_ok s \<Longrightarrow> refresh_ok s'"
proof (induction k arbitrary: s w)
  case (Suc k)
  obtain r w1 where list: "cs_ListTasksPage store user n (rs_nextPK s) (rs_nextRK s) w = (r, w1)"
    by fastforce
  then obtain ts pk rk where r: "r = Inr (ts, pk, rk)"
    using Suc.prems by (cases r) auto
  have "\<forall>t \<in> set ts. task_ok t" using assms [of "rs_nextPK s"] list r by blast
  from fold_add_task_ok [OF this Suc.prems(2), of e] Suc list r show ?case
    by (auto simp: encode_tok Let_def refresh_ok_def split: if_splits)
qed simp

lemma tasks_entry_ok:
  assumes "refresh_ok s" "valid_datetime now" "in_i64 n" "in_i64 m" "0 < m"
  shows "cached_tasks_ok (tasks_entry n m now s)"
proof -
  let ?k = "(int (length (rs_entries s)) + n - 1) div n"
  have "0 < n \<Longrightarrow> 0 \<le> ?k" by (simp add: pos_imp_zdiv_nonneg_iff)
  then have "0 < n \<Longrightarrow> in_i64 (min ?k m)" using assms(4,5) by (auto simp: in_i64_def min_def)
  with assms show ?thesis
    by (auto simp: cached_tasks_ok_def tasks_entry_def refresh_ok_def Let_def in_i64_def [of 1]
        in_i64_def [of 0])
qed

section \<open>Serving a page\<close>

lemma token_index_found:
  "token_index token ts i = r \<Longrightarrow> 0 \<le> i \<Longrightarrow> 0 \<le> r \<Longrightarrow>
   \<exists>j < length ts. r = i + int j + 1 \<and> ts ! j = token"
proof (induction ts arbitrary: i)
  case (Cons t ts)
  show ?case
  proof (cases "t = token")
    case True
    with Cons.prems show ?thesis by (intro exI [of _ 0]) auto
  next
    case False
    with Cons obtain j where "j < length ts" "r = i + 1 + int j + 1" "ts ! j = token" by fastforce
    then show ?thesis by (intro exI [of _ "Suc j"]) auto
  qed
qed simp

lemma cached_page_exact:
  assumes ex: "exact_entry L f n tokens nt entries" and n: "0 < n"
    and c: "ac_PageTokens c = tokens" "ac_NextPageToken c = nt" "ac_Tasks c = map api_of_cached entries"
    and page: "cached_page c token (int n) = Some (tasks, next)"
  shows "\<exists>j. token = tok (pos_at L j) \<and> tasks = map (\<lambda>p. api_of_cached (f p)) (page_at L j) \<and>
    next = tok (pos_at L (Suc j))"
proof -
  define pi where "pi = (if token = '''' then 0 else token_index token tokens 0)"
  have pi: "0 \<le> pi" "pi * int n < int (length entries)"
    and res: "tasks = take (nat (min (pi * int n + int n) (int (length entries)) - pi * int n))
        (drop (nat (pi * int n)) (map api_of_cached entries))"
      "next = (if pi < int (length tokens) then tokens ! nat pi else nt)"
    using page by (auto simp: cached_page_def Let_def c pi_def split: if_splits)
  define j where "j = nat pi"
  have pj: "pi = int j" using pi by (simp add: j_def)
  have lt: "j * n < length entries" using pi(2) by (simp add: pj flip: of_nat_mult)
  have ent: "take n (drop (j * n) entries) = map f (page_at L j)"
    and nxt: "(if j < length tokens then tokens ! j else nt) = tok (pos_at L (Suc j))"
    and toks: "\<forall>i < length tokens. tokens ! i = tok (pos_at L (Suc i))"
    using ex lt by (auto simp: exact_entry_def)
  have "nat (min (pi * int n + int n) (int (length entries)) - pi * int n) = min n (length entries - j * n)"
    using lt by (simp add: pj flip: of_nat_mult of_nat_add)
  moreover have "nat (pi * int n) = j * n" by (simp add: pj nat_mult_distrib)
  ultimately have "tasks = map api_of_cached (take n (drop (j * n) entries))"
    using res(1) by (simp add: take_map drop_map min_def)
  moreover have "next = tok (pos_at L (Suc j))" using res(2) nxt by (auto simp: pj split: if_splits)
  moreover have "token = tok (pos_at L j)"
  proof (cases "token = ''''")
    case True
    then have "j = 0" by (simp add: j_def pi_def)
    with True show ?thesis by simp
  next
    case False
    then have "token_index token tokens 0 = pi" by (simp add: pi_def)
    from token_index_found [OF this _ pi(1)] obtain i where "i < length tokens" "pi = int i + 1" "tokens ! i = token"
      by auto
    then show ?thesis using toks pj by (cases j) auto
  qed
  ultimately show ?thesis using ent by auto
qed

section \<open>Exact entries, matching configurations\<close>

text \<open>The entry of a user, if there is one, is exact for the given listing.\<close>

definition fresh_entry :: "lister \<Rightarrow> (string \<rightharpoonup> string) \<Rightarrow> string \<Rightarrow> nat \<Rightarrow> bool" where
  "fresh_entry ls kv user n \<longleftrightarrow>
     (\<forall>v. kv (cacheKey user tasksCachePrefix) = Some v \<longrightarrow>
        (\<exists>c. marshal_cached_tasks c = Inr v \<and> cached_tasks_ok c \<and> ca_PageSize c = int n \<and>
           exact_entry (ls user (int n)) (\<lambda>p. cached_task_of (row_task (p, ''''))) n
             (ca_PageTokens c) (ca_NextPageToken c) (ca_Tasks c) \<and>
           0 \<le> ca_CachedPages c))"

text \<open>The updater works on this storage, Redis and clock, with pages of \<open>n\<close> tasks.\<close>

definition updater_uses ::
  "'w rmu_storage \<Rightarrow> 'w redis_client \<Rightarrow> ('w \<Rightarrow> datetime \<times> 'w) \<Rightarrow> 'w cache_updater \<Rightarrow> nat \<Rightarrow> bool" where
  "updater_uses st rc now cu n \<longleftrightarrow>
     cu_store cu = Some (as_cache_store st) \<and> cu_redis cu = Some rc \<and> cu_now cu = now \<and>
     cu_tasksPerPage cu = int n \<and> 0 < n \<and> in_i64 (int n) \<and> 0 < cu_cachedPages cu \<and>
     in_i64 (cu_cachedPages cu)"

text \<open>The API's storage works on the same table and Redis.\<close>

definition api_uses :: "'w rmu_storage \<Rightarrow> 'w redis_client \<Rightarrow> 'w api_storage \<Rightarrow> nat \<Rightarrow> bool" where
  "api_uses st rc api n \<longleftrightarrow> sa_taskTable api = st_taskTable st \<and> sa_tasksSelectClause api = apiSelectClause \<and>
     sa_cache api = Some (rc_Get rc) \<and> sa_taskPageSize api = int n \<and> 0 < n \<and> n \<le> 1000"

text \<open>A page of the table, as the API presents it.\<close>

definition table_page :: "lister \<Rightarrow> string \<Rightarrow> int \<Rightarrow> position \<Rightarrow> api_task list \<times> string" where
  "table_page ls user m pos = (case ls user m pos of (ps, pos') \<Rightarrow> (map row_api_task ps, tok pos'))"

section \<open>Table, Redis and clock\<close>

locale read_model =
  fixes st :: "'w rmu_storage"
    and tbl :: "'w \<Rightarrow> table"
    and issued :: "'w \<Rightarrow> string set"
    and tinv :: "'w \<Rightarrow> bool"
    and lister :: "'w \<Rightarrow> lister"
    and rc :: "'w redis_client"
    and kv :: "'w \<Rightarrow> string \<rightharpoonup> string"
    and now :: "'w \<Rightarrow> datetime \<times> 'w"
  assumes listing: "azure_listing (st_taskTable st) tbl issued tinv lister"
    and redis: "redis_store rc kv"
    and redis_apart: "tinv w \<Longrightarrow> w' \<in> {snd (rc_Get rc k w), snd (rc_Set rc k v ttl w), snd (rc_Del rc k w)} \<Longrightarrow>
        tinv w' \<and> tbl w' = tbl w \<and> lister w' = lister w"
    and table_apart: "ListPage (st_taskTable st) f sel n npk nrk w = (resp, w') \<Longrightarrow> kv w' = kv w"
    and clock: "tinv w \<Longrightarrow> now w = (d, w') \<Longrightarrow>
        valid_datetime d \<and> tinv w' \<and> tbl w' = tbl w \<and> lister w' = lister w \<and> kv w' = kv w"
begin

definition same_table :: "'w \<Rightarrow> 'w \<Rightarrow> bool" where
  "same_table w w' \<longleftrightarrow> tinv w' \<and> tbl w' = tbl w \<and> lister w' = lister w"

lemma ListTasksPage_law:
  assumes "tinv w" "task_table_ok (tbl w)" "CHR 0x27 \<notin> set user" "0 < n"
    "ListTasksPage st user n pk rk w = (r, w')"
  shows "same_table w w' \<and> kv w' = kv w \<and>
    (\<forall>ts pos. r = Inr (ts, pos) \<longrightarrow>
      (\<exists>ps. lister w user n (pk, rk) = (ps, pos) \<and> ts = map (\<lambda>p. row_task (p, '''')) ps))"
proof -
  obtain resp w1 where lp: "ListPage (st_taskTable st) (partition_filter user) taskListSelectClause n pk rk w
      = (resp, w1)" by fastforce
  have w': "w' = w1"
    using assms(4,5) lp
    by (auto simp: ListTasksPage_def Let_def split: option.splits sum.splits)
  note kvw = table_apart [OF lp]
  consider (none) "resp = None" | (err) e where "resp = Some (Inl e)"
    | (ok) page where "resp = Some (Inr page)"
    by (cases resp; cases "the resp") auto
  then show ?thesis
  proof cases
    case none
    then show ?thesis
      using azure_listing.list_none [OF listing assms(1,3,4), of taskListSelectClause pk rk w1] lp assms(4,5) kvw
      by (auto simp: ListTasksPage_def Let_def same_table_def)
  next
    case err
    then show ?thesis
      using azure_listing.list_err [OF listing assms(1), of "partition_filter user" taskListSelectClause n pk rk e w1]
        lp assms(4,5) kvw
      by (auto simp: ListTasksPage_def Let_def same_table_def)
  next
    case ok
    then obtain ps where law: "tinv w1" "tbl w1 = tbl w" "lister w1 = lister w"
      "lister w user n (pk, rk) = (ps, lp_NextPartitionKey page, lp_NextRowKey page)"
      "list_all2 (row_text taskListSelectClause) (lp_Entities page) ps"
      using azure_listing.list_ok [OF listing assms(1,3,4), of taskListSelectClause pk rk page w1] lp by auto
    have "\<forall>p \<in> set ps. \<exists>k. task_row k p"
      using azure_listing.list_page [OF listing assms(1,4) law(4)] task_table_okD [OF assms(2)] by blast
    from decode_rows_pages [OF law(5) this] show ?thesis
      using ok lp assms(4,5) law kvw by (auto simp: ListTasksPage_def Let_def same_table_def)
  qed
qed

text \<open>The storage package as the cache updater's source of pages.\<close>

lemma storage_pages:
  assumes "tinv w0" "task_table_ok (tbl w0)" "CHR 0x27 \<notin> set user" "0 < n"
  shows "page_source (as_cache_store st) user n (lister w0 user (int n)) (\<lambda>p. row_task (p, ''''))
    (\<lambda>w. same_table w0 w)"
proof (unfold_locales, goal_cases)
  case 1
  then show ?case by (rule assms(4))
next
  case (2 w pk rk r w')
  then show ?case
    using ListTasksPage_law [of w user "int n" pk rk r w'] assms
    by (auto simp: as_cache_store_def same_table_def)
next
  case (3 pos ps pos')
  then show ?case
    using azure_listing.list_page [OF listing assms(1), of "int n" user pos ps pos'] assms(4) by auto
qed

abbreviation fresh :: "'w \<Rightarrow> string \<Rightarrow> nat \<Rightarrow> bool" where
  "fresh w \<equiv> fresh_entry (lister w) (kv w)"

lemma refresh_pages_kv:
  assumes "tinv w" "task_table_ok (tbl w)" "CHR 0x27 \<notin> set user" "0 < n"
    "refresh_pages (as_cache_store st) user e n k s w = (r, w')"
  shows "same_table w w' \<and> kv w' = kv w"
  using assms
proof (induction k arbitrary: s w)
  case 0
  then show ?case by (simp add: same_table_def)
next
  case (Suc k)
  obtain res w1 where list: "ListTasksPage st user n (rs_nextPK s) (rs_nextRK s) w = (res, w1)"
    by fastforce
  note law = ListTasksPage_law [OF Suc.prems(1-4) list]
  then have ih: "same_table w1 w' \<and> kv w' = kv w1"
    if "refresh_pages (as_cache_store st) user e n k s' w1 = (r, w')" for s'
    using Suc.IH [OF _ _ Suc.prems(3,4) that] Suc.prems(2) by (simp add: same_table_def)
  from law ih Suc.prems(5) list show ?case
    by (auto simp: as_cache_store_def encode_tok Let_def same_table_def
        split: sum.splits prod.splits if_splits)
qed

text \<open>A refresh leaves the old entry alone or replaces it by an exact one.\<close>

lemma RefreshTasks_fresh:
  assumes "tinv w" "task_table_ok (tbl w)" "CHR 0x27 \<notin> set user" "updater_uses st rc now cu n" "in_i64 ts"
  shows "same_table w (RefreshTasks (Some cu) user e ts w)"
    "kv (RefreshTasks (Some cu) user e ts w) = kv w \<or> fresh (RefreshTasks (Some cu) user e ts w) user n"
    "k \<noteq> cacheKey user tasksCachePrefix \<Longrightarrow> kv (RefreshTasks (Some cu) user e ts w) k = kv w k"
proof -
  note cu = assms(4) [unfolded updater_uses_def]
  let ?k = "cacheKey user tasksCachePrefix"
  let ?w' = "RefreshTasks (Some cu) user e ts w"
  obtain r w1 where rp: "refresh_pages (as_cache_store st) user e (int n) (nat (cu_cachedPages cu))
      (initial_refresh e ts) w = (r, w1)" by fastforce
  have s1: "same_table w w1" "kv w1 = kv w"
    using refresh_pages_kv [OF assms(1-3) _ rp] cu by auto
  then have t1: "tinv w1" "tbl w1 = tbl w" "lister w1 = lister w" by (simp_all add: same_table_def)
  have "same_table w ?w' \<and> (kv ?w' = kv w \<or> fresh ?w' user n) \<and> (k \<noteq> ?k \<longrightarrow> kv ?w' k = kv w k)"
  proof (cases r)
    case None
    then show ?thesis using rp cu s1 by (simp add: RefreshTasks_def)
  next
    case (Some s)
    show ?thesis
    proof (cases "rs_found s")
      case False
      obtain d w2 where del: "rc_Del rc ?k w1 = (d, w2)" by fastforce
      have w': "?w' = w2" using Some rp cu False del by (simp add: RefreshTasks_def)
      have "kv w2 = kv w1 \<or> kv w2 = (kv w1)(?k := None)"
        using redis_store.del_ok [OF redis] redis_store.del_err [OF redis] del by (cases d) blast+
      moreover have "same_table w w2"
        using redis_apart [OF t1(1), of w2 ?k] del t1 by (auto simp: same_table_def)
      ultimately show ?thesis using s1(2) unfolding w' by (auto simp: fresh_entry_def)
    next
      case True
      obtain d w2 where nw: "now w1 = (d, w2)" by fastforce
      note cl = clock [OF t1(1) nw]
      let ?c = "tasks_entry (int n) (cu_cachedPages cu) d s"
      show ?thesis
      proof (cases "marshal_cached_tasks ?c")
        case (Inl err)
        then have "?w' = w2" using Some rp cu True nw by (simp add: RefreshTasks_def)
        then show ?thesis using cl s1 t1 by (simp add: same_table_def)
      next
        case (Inr data)
        obtain r3 w3 where st: "rc_Set rc ?k data (cu_tasksTTL cu) w2 = (r3, w3)" by fastforce
        have w': "?w' = w3" using Some rp cu True nw Inr st by (simp add: RefreshTasks_def)
        have kv3: "kv w3 = kv w2 \<or> kv w3 = (kv w2)(?k \<mapsto> data)"
          using redis_store.set_ok [OF redis] redis_store.set_err [OF redis] st by (cases r3) blast+
        have same3: "same_table w w3"
          using redis_apart [of w2 w3 ?k data "cu_tasksTTL cu"] st cl t1 by (auto simp: same_table_def)
        have init: "refresh_ok (initial_refresh e ts)"
          using assms(5) by (simp add: refresh_ok_def initial_refresh_def)
        have "refresh_ok s"
          by (rule refresh_pages_ok [OF _ rp [unfolded Some] init])
            (simp add: as_cache_store_def ListTasksPage_task_ok)
        then have ok: "cached_tasks_ok ?c" using cl cu by (intro tasks_entry_ok) auto
        have np: "0 < n" "0 < nat (cu_cachedPages cu)" using cu by auto
        have sw: "same_table w w" using assms(1) by (simp add: same_table_def)
        have ex: "exact_entry (lister w user (int n)) (\<lambda>p. cached_task_of (row_task (p, '''')))
            n (rs_pageTokens s) (rs_nextToken s) (rs_entries s)"
          using page_source.refresh_initial_exact [OF storage_pages [OF assms(1-3) np(1)] sw np(2)
              rp [unfolded Some]] by simp
        have "0 \<le> ca_CachedPages ?c"
          using cu by (auto simp: tasks_entry_def Let_def pos_imp_zdiv_nonneg_iff)
        moreover have "ca_PageTokens ?c = rs_pageTokens s" "ca_NextPageToken ?c = rs_nextToken s"
          "ca_Tasks ?c = rs_entries s" "ca_PageSize ?c = int n"
          by (simp_all add: tasks_entry_def Let_def)
        ultimately have "kv w3 = (kv w2)(?k \<mapsto> data) \<Longrightarrow> fresh w3 user n"
          using ok ex Inr same3 unfolding fresh_entry_def same_table_def
          by (auto intro!: exI [of _ ?c])
        with kv3 same3 cl s1(2) show ?thesis unfolding w' by auto
      qed
    qed
  qed
  then show "same_table w ?w'" "kv ?w' = kv w \<or> fresh ?w' user n" "k \<noteq> ?k \<Longrightarrow> kv ?w' k = kv w k"
    by auto
qed

lemma fetch_direct_law:
  assumes "tinv w" "task_table_ok (tbl w)" "CHR 0x27 \<notin> set user" "0 < m" "sonic_std sn" "api_uses st rc api n"
    "fetch_direct sn api user token m w = (Inr res, w')"
  shows "\<exists>pos. decodeContinuationToken (sn_token sn) token = Inr pos \<and> res = table_page (lister w) user m pos"
proof -
  obtain npk nrk where dec: "decodeContinuationToken (sn_token sn) token = Inr (npk, nrk)"
    using assms(7) by (auto simp: fetch_direct_def split: sum.splits)
  obtain resp w1 where lp: "ListPage (st_taskTable st) (partition_filter user) apiSelectClause m npk nrk w
      = (resp, w1)" by fastforce
  note api = assms(6) [unfolded api_uses_def]
  consider (none) "resp = None" | (err) e where "resp = Some (Inl e)"
    | (ok) page where "resp = Some (Inr page)"
    by (cases resp; cases "the resp") auto
  then have "res = table_page (lister w) user m (npk, nrk)"
  proof cases
    case none
    then show ?thesis
      using azure_listing.list_none [OF listing assms(1,3,4), of apiSelectClause npk nrk w1] lp assms(7) dec api
      by (auto simp: fetch_direct_def table_page_def)
  next
    case err
    then show ?thesis using lp assms(7) dec api by (auto simp: fetch_direct_def)
  next
    case ok
    then obtain ps where law: "lister w user m (npk, nrk) = (ps, lp_NextPartitionKey page, lp_NextRowKey page)"
      "list_all2 (row_text apiSelectClause) (lp_Entities page) ps"
      using azure_listing.list_ok [OF listing assms(1,3,4), of apiSelectClause npk nrk page w1] lp by auto
    have "\<forall>p \<in> set ps. \<exists>k. task_row k p"
      using azure_listing.list_page [OF listing assms(1,4) law(1)] task_table_okD [OF assms(2)] by blast
    from decode_all_pages [OF law(2) this assms(5)] show ?thesis
      using ok lp assms(7) dec api law(1) by (auto simp: fetch_direct_def table_page_def encode_tok)
  qed
  with dec show ?thesis by auto
qed

text \<open>What the cache serves is a page of the table as it was when the entry was written.\<close>

lemma fetchTasksFromCache_law:
  assumes "tinv w0" "sonic_std sn" "api_uses st rc api n" "fresh_entry (lister w0) (kv w) user n"
    "fetchTasksFromCache sn api user token (int n) w = (Some res, w')"
  shows "\<exists>pos. decodeContinuationToken (sn_token sn) token = Inr pos \<and> res = table_page (lister w0) user (int n) pos"
proof -
  note api = assms(3) [unfolded api_uses_def]
  have keys: "api_cacheKey user api_tasksCachePrefix = cacheKey user tasksCachePrefix"
    by (simp add: api_cacheKey_def cacheKey_def api_tasksCachePrefix_def tasksCachePrefix_def)
  obtain raw cached w1 where get: "rc_Get rc (cacheKey user tasksCachePrefix) w = (RedisValue raw, w1)"
    and dec: "sn_cached_tasks sn raw = Inr cached" and page: "cached_page cached token (int n) = Some res"
    using assms(5) api
    by (auto simp: fetchTasksFromCache_def loadTasksFromCache_def keys
        split: redis_reply.splits sum.splits prod.splits if_splits option.splits)
  have "kv w (cacheKey user tasksCachePrefix) = Some raw" by (rule redis_store.get_value [OF redis get])
  then obtain c where c: "marshal_cached_tasks c = Inr raw" "cached_tasks_ok c"
    and ex: "exact_entry (lister w0 user (int n)) (\<lambda>p. cached_task_of (row_task (p, ''''))) n
      (ca_PageTokens c) (ca_NextPageToken c) (ca_Tasks c)"
    using assms(4) by (auto simp: fresh_entry_def)
  obtain at where at: "cached = api_of_entry c at"
    using cached_tasks_read_back [OF c(2,1) assms(2)] dec by auto
  obtain tasks nx where r: "res = (tasks, nx)" by (cases res)
  let ?L = "lister w0 user (int n)"
  obtain j where j: "token = tok (pos_at ?L j)" "tasks = map row_api_task (page_at ?L j)"
    "nx = tok (pos_at ?L (Suc j))"
    using cached_page_exact [OF ex, of cached token tasks nx] api page
    by (auto simp: at api_of_entry_def r row_api_task_def)
  have "position_ok (pos_at ?L j)"
  proof (cases j)
    case (Suc i)
    obtain ps pos' where "?L (pos_at ?L i) = (ps, pos')" by (cases "?L (pos_at ?L i)")
    with azure_listing.list_page [OF listing assms(1) _ this] api Suc show ?thesis by simp
  qed (simp add: position_ok_def)
  from tok_decode(1) [OF this] show ?thesis
    using j r by (auto simp: table_page_def page_at_def split: prod.splits)
qed

text \<open>With an entry that was exact for the table of \<open>w0\<close>, the API serves a page of that table or of
  the present one.\<close>

theorem FetchTasks_snapshot:
  assumes "tinv w" "task_table_ok (tbl w)" "CHR 0x27 \<notin> set user" "sonic_std sn" "api_uses st rc api n"
    "tinv w0" "fresh_entry (lister w0) (kv w) user n" "FetchTasks sn api user token limit w = (Inr res, w')"
  shows "\<exists>pos. decodeContinuationToken (sn_token sn) token = Inr pos \<and>
    (\<exists>v \<in> {w0, w}. res = table_page (lister v) user (resolveTaskPageSize limit (int n)) pos)"
proof -
  note api = assms(5) [unfolded api_uses_def]
  let ?m = "resolveTaskPageSize limit (int n)"
  have m: "0 < ?m" using api by (auto simp: resolveTaskPageSize_def maxTaskPageSize_def Let_def i32_id in_i32_def)
  obtain r1 w1 where fc: "fetchTasksFromCache sn api user token (int n) w = (r1, w1)" by fastforce
  have same1: "tinv w1 \<and> tbl w1 = tbl w \<and> lister w1 = lister w"
  proof -
    obtain rep w2 where "rc_Get rc (api_cacheKey user api_tasksCachePrefix) w = (rep, w2)" by fastforce
    with fc api have "w1 = snd (rc_Get rc (api_cacheKey user api_tasksCachePrefix) w)"
      by (auto simp: fetchTasksFromCache_def loadTasksFromCache_def
          split: redis_reply.splits sum.splits prod.splits if_splits option.splits)
    then show ?thesis using redis_apart [OF assms(1)] by blast
  qed
  show ?thesis
  proof (cases "?m = int n \<and> r1 \<noteq> None")
    case True
    then obtain x where r1: "r1 = Some x" by auto
    then have "res = x" using assms(8) True fc api by (cases x) (auto simp: FetchTasks_def Let_def)
    with fetchTasksFromCache_law [OF assms(6,4,5,7), of token x w1] fc r1 True show ?thesis by auto
  next
    case False
    define v where "v = (if ?m = int n then w1 else w)"
    have v: "tinv v" "tbl v = tbl w" "lister v = lister w" using assms(1) same1 by (auto simp: v_def)
    have "fetch_direct sn api user token ?m v = (Inr res, w')"
      using assms(8) fc api False by (cases r1) (auto simp: FetchTasks_def Let_def v_def)
    with v fetch_direct_law [of v user ?m sn api n token res w'] assms m show ?thesis
      by (auto simp: table_page_def)
  qed
qed

text \<open>With an exact entry, the API serves the page of the table.\<close>

theorem FetchTasks_exact:
  assumes "tinv w" "task_table_ok (tbl w)" "CHR 0x27 \<notin> set user" "sonic_std sn" "api_uses st rc api n"
    "fresh w user n" "FetchTasks sn api user token limit w = (Inr res, w')"
  shows "\<exists>pos. decodeContinuationToken (sn_token sn) token = Inr pos \<and>
    res = table_page (lister w) user (resolveTaskPageSize limit (int n)) pos"
  using FetchTasks_snapshot [OF assms(1-5) assms(1) assms(6,7)] by auto

text \<open>Reading changes neither the table nor the cache.\<close>

lemma FetchTasks_same:
  assumes "tinv w" "CHR 0x27 \<notin> set user" "api_uses st rc api n" "FetchTasks sn api user token limit w = (res, w')"
  shows "same_table w w' \<and> kv w' = kv w"
proof -
  note api = assms(3) [unfolded api_uses_def]
  let ?m = "resolveTaskPageSize limit (int n)"
  have m: "0 < ?m" using api by (auto simp: resolveTaskPageSize_def maxTaskPageSize_def Let_def i32_id in_i32_def)
  have direct: "same_table v v' \<and> kv v' = kv v" if "tinv v" "fetch_direct sn api user token ?m v = (r, v')" for v v' r
  proof (cases "decodeContinuationToken (sn_token sn) token")
    case (Inl e)
    with that show ?thesis by (simp add: fetch_direct_def same_table_def)
  next
    case (Inr pos)
    obtain npk nrk where pos: "pos = (npk, nrk)" by (cases pos)
    obtain resp v1 where lp: "ListPage (st_taskTable st) (partition_filter user) apiSelectClause ?m npk nrk v
        = (resp, v1)" by fastforce
    have "v' = v1" using that(2) Inr pos lp api
      by (auto simp: fetch_direct_def split: option.splits sum.splits)
    moreover have "same_table v v1"
      using azure_listing.list_none [OF listing that(1) assms(2) m, of apiSelectClause npk nrk v1]
        azure_listing.list_err [OF listing that(1), of "partition_filter user" apiSelectClause ?m npk nrk _ v1]
        azure_listing.list_ok [OF listing that(1) assms(2) m, of apiSelectClause npk nrk _ v1] lp
      by (cases resp; cases "the resp") (auto simp: same_table_def)
    ultimately show ?thesis using table_apart [OF lp] by simp
  qed
  have cached: "same_table w v \<and> kv v = kv w" if "fetchTasksFromCache sn api user token (int n) w = (r, v)" for r v
  proof -
    obtain rep w2 where get: "rc_Get rc (api_cacheKey user api_tasksCachePrefix) w = (rep, w2)" by fastforce
    with that api have "v = w2"
      by (auto simp: fetchTasksFromCache_def loadTasksFromCache_def
          split: redis_reply.splits sum.splits prod.splits if_splits option.splits)
    then show ?thesis
      using redis_apart [OF assms(1), of w2 "api_cacheKey user api_tasksCachePrefix"] get
        redis_store.get_same [OF redis get] by (auto simp: same_table_def)
  qed
  obtain r1 w1 where fc: "fetchTasksFromCache sn api user token (int n) w = (r1, w1)" by fastforce
  from cached [OF fc] have w1: "tinv w1" by (simp add: same_table_def)
  show ?thesis
  proof (cases "?m = int n")
    case True
    with assms(4) api fc cached [OF fc] direct [OF w1, of res w'] show ?thesis
      by (cases r1) (auto simp: FetchTasks_def Let_def same_table_def)
  next
    case False
    with assms(4) api direct [OF assms(1), of res w'] show ?thesis by (simp add: FetchTasks_def Let_def)
  qed
qed

lemma is_read_model: "read_model st tbl issued tinv lister rc kv now"
  by (rule read_model_axioms)

end

end
