(* ===== verification/Ref_Read_Model.thy ===== *)
theory Ref_Read_Model
  imports Ref_World Cache_Transparency
begin

text \<open>
  The read path in the reference world: the tables, Redis and the clock of \<open>Ref_World\<close> satisfy
  the assumptions of \<open>read_model\<close>.
\<close>

interpretation ref_read: read_model ref_storage "\<lambda>w. rt_tbl (rw_tasks w)" "\<lambda>w. rt_issued (rw_tasks w)"
  "\<lambda>w. rt_inv (rw_tasks w)" "\<lambda>w. rt_lister (rw_tasks w)" ref_rc
  "\<lambda>w. map_of (rr_values (rw_redis w))" ref_now
proof (rule read_model.intro)
  show "azure_listing (st_taskTable ref_storage) (\<lambda>w. rt_tbl (rw_tasks w)) (\<lambda>w. rt_issued (rw_tasks w))
      (\<lambda>w. rt_inv (rw_tasks w)) (\<lambda>w. rt_lister (rw_tasks w))"
    unfolding ref_storage_def by (simp add: ref_client_azure_listing)
  show "redis_store ref_rc (\<lambda>w. map_of (rr_values (rw_redis w)))"
    by (rule ref_kv.redis_store_axioms)
qed (auto simp: ref_rc_def ref_redis_client_def ref_storage_def ref_client_def ref_now_def ref_time_def
    valid_datetime_def month_days_def leap_def)

definition ref_command_queue :: "'w command_queue" where
  "ref_command_queue = \<lparr>cq_EnqueueMessage = (\<lambda>m w. (None, w)), cq_GetProperties = (\<lambda>w. (None, w))\<rparr>"

definition ref_api :: "ref_world api_storage" where
  "ref_api = \<lparr>sa_taskTable = st_taskTable ref_storage, sa_settingsTable = st_settingsTable ref_storage,
     sa_commandQueue = ref_command_queue, sa_taskPageSize = 2, sa_tasksSelectClause = apiSelectClause,
     sa_queueConcurrency = 8, sa_cache = Some (rc_Get ref_rc)\<rparr>"

definition ref_updater :: "ref_world cache_updater" where
  "ref_updater = newCacheUpdater (Some (as_cache_store ref_storage)) (Some ref_rc) ref_now 2 3 0 0"

lemma ref_api_ok: "api_uses ref_storage ref_rc ref_api 2"
  by (simp add: api_uses_def ref_api_def)

lemma ref_updater_ok: "updater_uses ref_storage ref_rc ref_now ref_updater 2"
  by (simp add: updater_uses_def ref_updater_def newCacheUpdater_def in_i64_def)

text \<open>The first sample event is applied in the empty world.\<close>

lemma sample_created_applies:
  "map_option fst (task_Apply (as_task_storage ref_storage) sample_created empty_world) = Some None"
  by code_simp

text \<open>The world after that event and the refresh that follows it, and what the API then reads.\<close>

definition applied_world :: ref_world where
  "applied_world = snd (the (task_Apply (as_task_storage ref_storage) sample_created empty_world))"

definition sample_world :: ref_world where
  "sample_world = RefreshTasks (Some ref_updater) ''u1'' ''t1'' 10 applied_world"

definition sample_sonic :: sonic where
  "sample_sonic = std_sonic (\<lambda>_. Inl ErrJson)"

lemma applied_world_eq: "task_Apply (as_task_storage ref_storage) sample_created empty_world = Some (None, applied_world)"
  using sample_created_applies by (auto simp: applied_world_def)

lemma applied_world_ok: "rt_inv (rw_tasks applied_world)" "task_table_ok (rt_tbl (rw_tasks applied_world))"
  using ref_tasks.is_task_store
    task_store.apply_law [OF ref_tasks.is_task_store, of empty_world sample_created] applied_world_eq
  by (auto simp: as_task_storage_def)

lemma sample_cache: "rr_values (rw_redis applied_world) = []" "rr_values (rw_redis sample_world) \<noteq> []"
  by code_simp+

lemma sample_world_fresh:
  "rt_inv (rw_tasks sample_world)" "task_table_ok (rt_tbl (rw_tasks sample_world))"
  "fresh_entry (rt_lister (rw_tasks sample_world)) (map_of (rr_values (rw_redis sample_world))) ''u1'' 2"
  using ref_read.RefreshTasks_fresh [OF applied_world_ok, of "''u1''" ref_updater 2 10 "''t1''"] sample_cache
  by (auto simp: sample_world_def [symmetric] ref_updater_ok ref_read.same_table_def in_i64_def applied_world_ok(2))

lemma sample_fetch:
  "fst (FetchTasks sample_sonic ref_api ''u1'' '''' 0 sample_world) =
   Inr ([\<lparr>at_ID = ''t1'', at_Title = ''Buy milk'', at_Notes = '''', at_Category = '''', at_Order = 3, at_Done = False\<rparr>], '''')"
  by code_simp

end
