(* ===== verification/Rmu_Processor.thy ===== *)
theory Rmu_Processor
  imports Task_Service User_Service Cache_Updater
begin

text \<open>
  The read-model updater above its services: \<open>Orchestrator\<close>
  (\<open>read-model-updater/domain/orchestrator.go\<close>), \<open>processEvent\<close>
  (\<open>read-model-updater/processor.go\<close>) and the HTTP handler of \<open>read-model-updater/main.go\<close>.
  The only part that may not return is the retry loop of the task service, so the results are
  options.
\<close>

record 'w orchestrator =
  orch_tasks :: "'w task_storage"
  orch_users :: "'w user_storage"

definition NewOrchestrator :: "'w rmu_storage \<Rightarrow> 'w orchestrator" where
  "NewOrchestrator st = \<lparr>orch_tasks = as_task_storage st, orch_users = as_user_storage st\<rparr>"

definition orch_Apply :: "'w orchestrator \<Rightarrow> event \<Rightarrow> 'w \<Rightarrow> (go_error option \<times> 'w) option" where
  "orch_Apply o' ev w =
     (if ev_EntityType ev = ''task'' then task_Apply (orch_tasks o') ev w
      else if ev_EntityType ev = ''user'' \<or> ev_EntityType ev = ''user-settings''
      then Some (user_Apply (orch_users o') ev w)
      else Some (Some (ErrText (''unknown entity type '' @ ev_EntityType ev)), w))"

text \<open>The refresh and publication that follow a successful application. A failed publication is
  only logged.\<close>

definition after_apply ::
  "'w cache_updater option \<Rightarrow> 'w redis_client \<Rightarrow> string \<Rightarrow> string \<Rightarrow> event \<Rightarrow> string \<Rightarrow> 'w \<Rightarrow> 'w" where
  "after_apply cache rc taskChannel settingsChannel ev payload w =
     (let w1 = (if ev_EntityType ev = ''task''
                then RefreshTasks cache (ev_UserID ev) (ev_EntityID ev) (ev_Timestamp ev) w
                else if ev_EntityType ev = ''user-settings''
                then RefreshSettings cache (ev_UserID ev) (ev_Timestamp ev) w
                else w);
          channel = (if ev_EntityType ev = ''user-settings'' then settingsChannel else taskChannel)
      in snd (rc_Publish rc channel payload w1))"

definition processEvent ::
  "(event \<Rightarrow> 'w \<Rightarrow> (go_error option \<times> 'w) option) \<Rightarrow> 'w cache_updater option \<Rightarrow> 'w redis_client \<Rightarrow>
   string \<Rightarrow> string \<Rightarrow> event \<Rightarrow> string \<Rightarrow> 'w \<Rightarrow> (go_error option \<times> 'w) option" where
  "processEvent h cache rc taskChannel settingsChannel ev payload w =
     (case h ev w of
        None \<Rightarrow> None
      | Some (Some err, w1) \<Rightarrow> Some (Some err, w1)
      | Some (None, w1) \<Rightarrow>
          Some (None, after_apply cache rc taskChannel settingsChannel ev payload w1))"

text \<open>The handler of \<open>/update-model\<close>. \<open>bnd\<close> is the framework's decoding of the request into the
  field \<open>Data.event\<close>; the event text may be quoted once more. \<open>decode_queue_message\<close> is how a JSON
  value fills \<open>queueMessage\<close>: every member \<open>Data\<close> fills the same inner struct.\<close>

definition decode_queue_message :: "json \<Rightarrow> string option" where
  "decode_queue_message v = do {
     ms \<leftarrow> object_members v;
     ds \<leftarrow> those (map object_members (member_vals [''Data''] ''Data'' ms));
     get_string [''event''] (concat ds) ''event''
   }"


definition unquote_payload :: "string \<Rightarrow> string" where
  "unquote_payload p =
     (case unmarshal_text (\<lambda>v. plain_field as_string '''' [v]) p of Inr s \<Rightarrow> s | Inl _ \<Rightarrow> p)"

definition outputs_body :: string where
  "outputs_body = json_print (JObj [(''Outputs'', JObj [])])"

definition update_handler ::
  "('r \<Rightarrow> go_error + string) \<Rightarrow> (event \<Rightarrow> 'w \<Rightarrow> (go_error option \<times> 'w) option) \<Rightarrow>
   'w cache_updater option \<Rightarrow> 'w redis_client \<Rightarrow> string \<Rightarrow> string \<Rightarrow> 'r \<Rightarrow> 'w \<Rightarrow>
   ((int \<times> string) \<times> 'w) option" where
  "update_handler bnd h cache rc taskChannel settingsChannel req w =
     (case bnd req of
        Inl e \<Rightarrow> Some ((400, ''''), w)
      | Inr raw \<Rightarrow>
          (let payload = unquote_payload raw in
           case unmarshal_text decode_event payload of
             Inl e \<Rightarrow> Some ((400, ''''), w)
           | Inr ev \<Rightarrow>
               (case processEvent h cache rc taskChannel settingsChannel ev payload w of
                  None \<Rightarrow> None
                | Some (Some e, w1) \<Rightarrow> Some ((400, ''''), w1)
                | Some (None, w1) \<Rightarrow> Some ((200, outputs_body), w1))))"

section \<open>Facts\<close>

text \<open>The answer is 200 exactly when the event was applied; a refused event has no effect beyond
  that of the service.\<close>

lemma update_handler_cases:
  assumes "update_handler bnd h cache rc tc sc req w = Some ((status, body), w')"
  shows "status = 400 \<or> status = 200"
    "status = 200 \<Longrightarrow> \<exists>raw ev w1. bnd req = Inr raw \<and>
      unmarshal_text decode_event (unquote_payload raw) = Inr ev \<and> h ev w = Some (None, w1) \<and>
      w' = after_apply cache rc tc sc ev (unquote_payload raw) w1"
    "status = 400 \<Longrightarrow> w' = w \<or> (\<exists>raw ev e. bnd req = Inr raw \<and>
      unmarshal_text decode_event (unquote_payload raw) = Inr ev \<and> h ev w = Some (Some e, w'))"
  using assms
  by (auto simp: update_handler_def processEvent_def Let_def
      split: sum.splits option.splits prod.splits)

text \<open>An event that is quoted once more is handled as itself.\<close>

lemma unquote_quoted:
  assumes "valid_utf8 s"
  shows "unquote_payload (json_print (JStr s)) = s"
proof -
  have "json_parse (json_print (JStr s)) = Some (JStr s)"
    using assms by (intro json_parse_print) (simp_all add: max_nesting_def)
  then show ?thesis by (simp add: unquote_payload_def unmarshal_text_def del: json_print.simps)
qed

lemma unquote_object:
  "json_parse p = Some (JObj ms) \<Longrightarrow> unquote_payload p = p"
  by (simp add: unquote_payload_def unmarshal_text_def)

section \<open>The services over Azure tables\<close>

lemma azure_task_Apply:
  assumes "azure_table (st_taskTable st) tbl issued tinv" "tinv w" "task_table_ok (tbl w)" "event_ok ev"
  obtains r w' where "task_Apply (as_task_storage st) ev w = Some (r, w')" "tinv w'" "task_table_ok (tbl w')"
    "task_outcome ev (task_view (tbl w)) r (task_view (tbl w'))"
    "\<forall>err. task_effect ev (task_view (tbl w) (ev_key ev)) = Inl err \<longrightarrow>
       r = Some err \<or> (\<exists>e w1. GetTask st (ev_UserID ev) (ev_EntityID ev) w = (Inl e, w1) \<and> r = Some e)"
  using task_store.apply_law [OF task_table.is_task_store [OF task_table.intro [OF assms(1)]], of w ev]
    assms(2-4)
  unfolding as_task_storage_def by auto

lemma azure_user_Apply:
  assumes "settings_table st tbl issued tinv" "tinv w" "settings_table_ok (tbl w)" "event_ok ev"
    "user_Apply (as_user_storage st) ev w = (r, w')"
  shows "tinv w'" "settings_table_ok (tbl w')"
    "settings_outcome ev (settings_view (tbl w)) r (settings_view (tbl w'))"
  using settings_store.user_apply_law [OF settings_table.is_settings_store [OF assms(1)], of w ev r w']
    assms(2-5)
  unfolding as_user_storage_def by auto

end
