(* ===== verification/Step_Systems.thy ===== *)
theory Step_Systems
  imports Prelude
begin

text \<open>
  The contracts that the concurrent parts of the services share. Each of them is a step relation on
  a state that holds the shared data and the position of every goroutine. \<open>guarded_system\<close> is a
  relation with an inductive invariant, \<open>terminating_system\<close> one in which every step makes a
  weight smaller, and \<open>live_system\<close> one with both in which only a final state is stuck, so that
  every execution reaches a final state whatever the scheduler does.
\<close>

locale guarded_system =
  fixes step :: "'s \<Rightarrow> 's \<Rightarrow> bool" and inv :: "'s \<Rightarrow> bool"
  assumes step_inv: "step s t \<Longrightarrow> inv s \<Longrightarrow> inv t"
begin

lemma reach_inv: "step\<^sup>*\<^sup>* s t \<Longrightarrow> inv s \<Longrightarrow> inv t"
  by (induction rule: rtranclp_induct) (auto intro: step_inv)

end

locale terminating_system =
  fixes step :: "'s \<Rightarrow> 's \<Rightarrow> bool" and weight :: "'s \<Rightarrow> nat"
  assumes step_weight: "step s t \<Longrightarrow> weight t < weight s"
begin

text \<open>The weight of the first state bounds the number of steps.\<close>

lemma run_bound: "(step ^^ k) s t \<Longrightarrow> k + weight t \<le> weight s"
proof (induction k arbitrary: t)
  case (Suc k)
  then obtain u where "(step ^^ k) s u" "step u t" by auto
  with Suc.IH [of u] step_weight [of u t] show ?case by auto
qed simp

lemma some_stuck: "\<exists>t. step\<^sup>*\<^sup>* s t \<and> (\<nexists>u. step t u)"
proof (induction "weight s" arbitrary: s rule: less_induct)
  case less
  show ?case
  proof (cases "\<exists>u. step s u")
    case True
    then obtain u where u: "step s u" ..
    with less step_weight obtain t where "step\<^sup>*\<^sup>* u t" "\<nexists>v. step t v" by blast
    with u show ?thesis by (meson converse_rtranclp_into_rtranclp)
  qed blast
qed

end

locale live_system = guarded_system step inv + terminating_system step weight
  for step :: "'s \<Rightarrow> 's \<Rightarrow> bool" and inv :: "'s \<Rightarrow> bool" and weight :: "'s \<Rightarrow> nat" +
  fixes final :: "'s \<Rightarrow> bool"
  assumes progress: "inv s \<Longrightarrow> \<not> final s \<Longrightarrow> \<exists>t. step s t"
begin

lemma stuck_final: "inv s \<Longrightarrow> step\<^sup>*\<^sup>* s t \<Longrightarrow> \<nexists>u. step t u \<Longrightarrow> final t"
  using reach_inv progress by blast

text \<open>An execution that takes a step whenever it can is final after at most as many steps as the
  weight of its first state.\<close>

lemma reaches_final:
  assumes "inv (run 0)" "\<And>i. step (run i) (run (Suc i)) \<or> (\<nexists>u. step (run i) u) \<and> run (Suc i) = run i"
  shows "\<exists>i \<le> weight (run 0). final (run i)"
proof (rule ccontr)
  assume *: "\<not> ?thesis"
  have "(step ^^ k) (run 0) (run k) \<and> inv (run k)" if "k \<le> Suc (weight (run 0))" for k
    using that
  proof (induction k)
    case (Suc k)
    then have k: "(step ^^ k) (run 0) (run k)" "inv (run k)" "k \<le> weight (run 0)" by auto
    with * have "\<not> final (run k)" by blast
    with progress k(2) assms(2) [of k] have "step (run k) (run (Suc k))" by blast
    with k step_inv show ?case by auto
  qed (use assms(1) in auto)
  from run_bound [OF conjunct1 [OF this [OF order_refl]]] show False by simp
qed

end

end
