(* ===== verification/Task_Concurrency.thy ===== *)
theory Task_Concurrency
  imports Task_Service Step_Systems
begin

text \<open>
  Several instances of the read-model updater apply task events at the same time. \<open>task_step\<close> cuts
  \<open>TaskService.Apply\<close> (\<open>read-model-updater/domain/task_service.go\<close>) at its calls of the storage,
  each of which is one request to the table service and atomic there; \<open>conc_step\<close> interleaves the
  steps of any number of handlers. The lemmas show that \<open>task_step\<close> run alone is \<open>task_Apply\<close>, that
  every interleaving has the effect of applying the successful events one after the other, in the
  order of their writes, that an event delivered several times is applied at most once, and that
  the retry loops end.
\<close>

section \<open>One handler, call by call\<close>

text \<open>The positions of a handler: before its first read, before the insertion, at the head of the
  retry loop with the task as last read, before the read that follows a conflict, and returned.\<close>

datatype task_pc =
    TpStart
  | TpInsert task_entity
  | TpTry task_update string task_entity
  | TpReread task_update string
  | TpDone "go_error option"

fun tp_returned :: "task_pc \<Rightarrow> bool" where
  "tp_returned (TpDone r) = True"
| "tp_returned _ = False"

text \<open>The read that opens the three updating branches.\<close>

definition read_for_update ::
  "'w task_storage \<Rightarrow> event \<Rightarrow> task_update \<Rightarrow> string \<Rightarrow> 'w \<Rightarrow> task_pc \<times> 'w" where
  "read_for_update st ev u stale w =
     (case ts_GetTask st (ev_UserID ev) (ev_EntityID ev) w of
        (Inl e, w1) \<Rightarrow> (TpDone (Some e), w1)
      | (Inr None, w1) \<Rightarrow> (TpDone (Some (task_err ev ''not found'')), w1)
      | (Inr (Some ent), w1) \<Rightarrow>
          (if no_fields u then TpDone (Some (task_err ev ''update had no fields''))
           else TpTry u stale ent, w1))"

definition first_step :: "'w task_storage \<Rightarrow> event \<Rightarrow> 'w \<Rightarrow> task_pc \<times> 'w" where
  "first_step st ev w =
     (if ev_Type ev = TaskCreated then
        (case unmarshal_raw decode_task_created (ev_Data ev) of
           Inl e \<Rightarrow> (TpDone (Some e), w)
         | Inr d \<Rightarrow>
             (case ts_GetTask st (ev_UserID ev) (ev_EntityID ev) w of
                (Inl e, w1) \<Rightarrow> (TpDone (Some e), w1)
              | (Inr (Some _), w1) \<Rightarrow> (TpDone (Some (task_err ev ''already exists'')), w1)
              | (Inr None, w1) \<Rightarrow> (TpInsert (created_entity ev d), w1)))
      else if ev_Type ev = TaskUpdated then
        (case unmarshal_raw decode_task_updated (ev_Data ev) of
           Inl e \<Rightarrow> (TpDone (Some e), w)
         | Inr d \<Rightarrow> read_for_update st ev (changed_update ev d) ''received stale update'' w)
      else if ev_Type ev = TaskCompleted then
        read_for_update st ev (done_update ev True) ''received stale completion'' w
      else if ev_Type ev = TaskReopened then
        read_for_update st ev (done_update ev False) ''received stale reopen'' w
      else (TpDone (Some (ErrText (''unknown task event '' @ ev_Type ev))), w))"

fun task_step :: "'w task_storage \<Rightarrow> event \<Rightarrow> task_pc \<Rightarrow> 'w \<Rightarrow> task_pc \<times> 'w" where
  "task_step st ev TpStart w = first_step st ev w"
| "task_step st ev (TpInsert ent) w = (case ts_InsertTask st ent w of (r, w1) \<Rightarrow> (TpDone r, w1))"
| "task_step st ev (TpTry u stale ent) w =
     (if ev_Timestamp ev \<le> te_EventTimestamp ent then (TpDone (Some (task_err ev stale)), w)
      else (case ts_UpdateTask st u (te_ETag ent) w of
              (None, w1) \<Rightarrow> (TpDone None, w1)
            | (Some e, w1) \<Rightarrow> (if e \<noteq> ErrConcurrencyConflict then TpDone (Some e) else TpReread u stale, w1)))"
| "task_step st ev (TpReread u stale) w =
     (case ts_GetTask st (ev_UserID ev) (ev_EntityID ev) w of
        (Inl e, w1) \<Rightarrow> (TpDone (Some e), w1)
      | (Inr None, w1) \<Rightarrow> (TpDone (Some (task_err ev ''not found'')), w1)
      | (Inr (Some ent), w1) \<Rightarrow> (TpTry u stale ent, w1))"
| "task_step st ev (TpDone r) w = (TpDone r, w)"

fun task_steps :: "'w task_storage \<Rightarrow> event \<Rightarrow> nat \<Rightarrow> task_pc \<Rightarrow> 'w \<Rightarrow> task_pc \<times> 'w" where
  "task_steps st ev 0 pc w = (pc, w)"
| "task_steps st ev (Suc n) pc w = (case task_step st ev pc w of (pc1, w1) \<Rightarrow> task_steps st ev n pc1 w1)"

section \<open>Run alone, the handler is the call\<close>

text \<open>What remains of the call at a position.\<close>

fun remaining :: "'w task_storage \<Rightarrow> event \<Rightarrow> task_pc \<Rightarrow> 'w \<Rightarrow> (go_error option \<times> 'w) option" where
  "remaining st ev TpStart w = task_Apply st ev w"
| "remaining st ev (TpInsert ent) w = Some (ts_InsertTask st ent w)"
| "remaining st ev (TpTry u stale ent) w = retry_update st ev u stale ent w"
| "remaining st ev (TpReread u stale) w =
     (case ts_GetTask st (ev_UserID ev) (ev_EntityID ev) w of
        (Inl e, w1) \<Rightarrow> Some (Some e, w1)
      | (Inr None, w1) \<Rightarrow> Some (Some (task_err ev ''not found''), w1)
      | (Inr (Some ent), w1) \<Rightarrow> retry_update st ev u stale ent w1)"
| "remaining st ev (TpDone r) w = Some (r, w)"

lemma done_has_fields [simp]: "\<not> no_fields (done_update ev b)"
  by (simp add: no_fields_def done_update_def)

lemma remaining_step:
  assumes "task_step st ev pc w = (pc1, w1)"
  shows "remaining st ev pc1 w1 = remaining st ev pc w"
proof (cases pc)
  case TpStart
  with assms show ?thesis
    by (auto simp: first_step_def read_for_update_def task_Apply_def apply_created_def apply_updated_def
        apply_done_def Let_def split: if_splits sum.splits prod.splits option.splits)
next
  case (TpTry u stale ent)
  with assms show ?thesis
    by (auto simp: retry_update.simps [of st ev u stale ent w]
        split: if_splits sum.splits prod.splits option.splits)
qed (use assms in \<open>auto split: if_splits sum.splits prod.splits option.splits\<close>)

lemma remaining_steps: "task_steps st ev n pc w = (pc1, w1) \<Longrightarrow> remaining st ev pc1 w1 = remaining st ev pc w"
  by (induction n arbitrary: pc w) (auto simp: remaining_step split: prod.splits)

text \<open>One step, then the rest.\<close>

lemma steps_after:
  "task_step st ev pc w = (pc1, w1) \<Longrightarrow> \<exists>n. task_steps st ev n pc1 w1 = res \<Longrightarrow> \<exists>n. task_steps st ev n pc w = res"
  by (elim exE, rule_tac x = "Suc n" in exI) simp

lemma steps_now: "\<exists>n. task_steps st ev n pc w = (pc, w)"
  by (rule exI [of _ 0]) simp

lemma step_returns: "task_step st ev pc w = (TpDone r, w1) \<Longrightarrow> \<exists>n. task_steps st ev n pc w = (TpDone r, w1)"
  by (rule steps_after [OF _ steps_now])

lemma retry_steps:
  "retry_update st ev u stale ent w = Some res \<Longrightarrow>
   \<exists>n. task_steps st ev n (TpTry u stale ent) w = (TpDone (fst res), snd res)"
proof (induction rule: retry_update.raw_induct [rotated, consumes 1, case_names loop])
  case (loop rec st ev u stale ent w y)
  show ?case
  proof (cases "ev_Timestamp ev \<le> te_EventTimestamp ent")
    case True
    with loop(2) have "task_step st ev (TpTry u stale ent) w = (TpDone (fst y), snd y)" by auto
    then show ?thesis by (rule step_returns)
  next
    case False
    obtain r w1 where upd: "ts_UpdateTask st u (te_ETag ent) w = (r, w1)" by fastforce
    show ?thesis
    proof (cases "r = Some ErrConcurrencyConflict")
      case False
      from loop(2) \<open>\<not> _ \<le> _\<close> upd False have "y = (r, w1)" by (auto split: option.splits if_splits)
      with \<open>\<not> _ \<le> _\<close> upd False have "task_step st ev (TpTry u stale ent) w = (TpDone (fst y), snd y)"
        by (auto split: option.splits)
      then show ?thesis by (rule step_returns)
    next
      case True
      with False upd have step: "task_step st ev (TpTry u stale ent) w = (TpReread u stale, w1)" by simp
      obtain x w2 where get: "ts_GetTask st (ev_UserID ev) (ev_EntityID ev) w1 = (x, w2)" by fastforce
      have "\<exists>n. task_steps st ev n (TpReread u stale) w1 = (TpDone (fst y), snd y)"
      proof (cases "\<exists>ent'. x = Inr (Some ent')")
        case False
        with get upd True \<open>\<not> _ \<le> _\<close> loop(2) have "task_step st ev (TpReread u stale) w1 = (TpDone (fst y), snd y)"
          by (auto split: sum.splits option.splits)
        then show ?thesis by (rule step_returns)
      next
        case True
        then obtain ent' where x: "x = Inr (Some ent')" ..
        with get upd \<open>r = _\<close> \<open>\<not> _ \<le> _\<close> loop(2) have "rec st ev u stale ent' w2 = Some y" by simp
        then have "\<exists>n. task_steps st ev n (TpTry u stale ent') w2 = (TpDone (fst y), snd y)" by (rule loop(1))
        moreover have "task_step st ev (TpReread u stale) w1 = (TpTry u stale ent', w2)" using get x by simp
        ultimately show ?thesis by (rule steps_after [rotated])
      qed
      with step show ?thesis by (rule steps_after)
    qed
  qed
qed

lemma started_steps:
  assumes "remaining st ev pc w = Some res" "pc \<noteq> TpStart"
  shows "\<exists>n. task_steps st ev n pc w = (TpDone (fst res), snd res)"
proof (cases pc)
  case (TpTry u stale ent)
  with assms retry_steps [of st ev u stale ent w res] show ?thesis by simp
next
  case (TpReread u stale)
  obtain x w1 where get: "ts_GetTask st (ev_UserID ev) (ev_EntityID ev) w = (x, w1)" by fastforce
  show ?thesis
  proof (cases "\<exists>ent. x = Inr (Some ent)")
    case True
    then obtain ent where "x = Inr (Some ent)" ..
    with get TpReread assms(1) have "task_step st ev pc w = (TpTry u stale ent, w1)"
      "retry_update st ev u stale ent w1 = Some res" by simp_all
    with retry_steps [of st ev u stale ent w1 res] show ?thesis using steps_after by simp
  next
    case False
    with get TpReread assms(1) have "task_step st ev pc w = (TpDone (fst res), snd res)"
      by (auto split: sum.splits option.splits)
    then show ?thesis by (rule step_returns)
  qed
next
  case (TpInsert ent)
  with assms(1) have "task_step st ev pc w = (TpDone (fst res), snd res)" by (auto split: prod.splits)
  then show ?thesis by (rule step_returns)
qed (use assms steps_now in auto)

lemma first_step_started: "task_step st ev TpStart w = (pc, w1) \<Longrightarrow> pc \<noteq> TpStart"
  by (auto simp: first_step_def read_for_update_def split: if_splits sum.splits prod.splits option.splits)

theorem task_Apply_steps:
  "task_Apply st ev w = Some (r, w') \<longleftrightarrow> (\<exists>n. task_steps st ev n TpStart w = (TpDone r, w'))"
proof
  assume r: "task_Apply st ev w = Some (r, w')"
  obtain pc w1 where step: "task_step st ev TpStart w = (pc, w1)" by fastforce
  with r have "remaining st ev pc w1 = Some (r, w')" using remaining_step by fastforce
  with started_steps [OF this first_step_started [OF step]] show "\<exists>n. task_steps st ev n TpStart w = (TpDone r, w')"
    using steps_after [OF step] by simp
next
  assume "\<exists>n. task_steps st ev n TpStart w = (TpDone r, w')"
  then show "task_Apply st ev w = Some (r, w')" using remaining_steps by fastforce
qed

section \<open>Many handlers\<close>

text \<open>The state of the world, the positions of the handlers of \<open>evs\<close>, and, as a record of the
  execution, the handlers that have returned without an error in the order of their last step.\<close>

type_synonym 'w conc = "'w \<times> task_pc list \<times> nat list"

definition conc_init :: "'w \<Rightarrow> event list \<Rightarrow> 'w conc" where
  "conc_init w evs = (w, replicate (length evs) TpStart, [])"

definition conc_exec :: "'w task_storage \<Rightarrow> event list \<Rightarrow> nat \<Rightarrow> 'w conc \<Rightarrow> 'w conc" where
  "conc_exec st evs i s =
     (case s of (w, pcs, log) \<Rightarrow>
        (case task_step st (evs ! i) (pcs ! i) w of
           (pc, w1) \<Rightarrow> (w1, pcs[i := pc], if pc = TpDone None then log @ [i] else log)))"

definition can_step :: "nat \<Rightarrow> 'w conc \<Rightarrow> bool" where
  "can_step i s \<longleftrightarrow> (case s of (w, pcs, log) \<Rightarrow> i < length pcs \<and> \<not> tp_returned (pcs ! i))"

inductive conc_step :: "'w task_storage \<Rightarrow> event list \<Rightarrow> 'w conc \<Rightarrow> 'w conc \<Rightarrow> bool" for st evs where
  conc: "can_step i s \<Longrightarrow> conc_step st evs s (conc_exec st evs i s)"

inductive_cases conc_stepE: "conc_step st evs s t"

definition all_returned :: "'w conc \<Rightarrow> bool" where
  "all_returned s \<longleftrightarrow> (case s of (w, pcs, log) \<Rightarrow> list_all tp_returned pcs)"

text \<open>A run under a given schedule.\<close>

fun conc_run :: "'w task_storage \<Rightarrow> event list \<Rightarrow> nat list \<Rightarrow> 'w conc \<Rightarrow> 'w conc" where
  "conc_run st evs [] s = s"
| "conc_run st evs (i # is) s = conc_run st evs is (if can_step i s then conc_exec st evs i s else s)"

lemma conc_run_steps: "(conc_step st evs)\<^sup>*\<^sup>* s (conc_run st evs is s)"
proof (induction "is" arbitrary: s)
  case (Cons i "is")
  let ?t = "if can_step i s then conc_exec st evs i s else s"
  have "(conc_step st evs)\<^sup>*\<^sup>* s ?t" by (auto intro: conc)
  from rtranclp_trans [OF this Cons.IH [of ?t]] show ?case by simp
qed simp

section \<open>The serial order\<close>

text \<open>Applying the events one after the other, each with success. The new ETags are the store's
  choice.\<close>

fun serial_effect ::
  "event list \<Rightarrow> (key \<Rightarrow> task_entity option) \<Rightarrow> (key \<Rightarrow> task_entity option) \<Rightarrow> bool" where
  "serial_effect [] v v' \<longleftrightarrow> v' = v"
| "serial_effect (ev # evs) v v' \<longleftrightarrow> (\<exists>v1. task_outcome ev v None v1 \<and> serial_effect evs v1 v')"

lemma serial_append:
  "serial_effect (evs @ evs') v v' \<longleftrightarrow> (\<exists>v1. serial_effect evs v v1 \<and> serial_effect evs' v1 v')"
  by (induction evs arbitrary: v) auto

lemma serial_snoc: "serial_effect evs v v1 \<Longrightarrow> task_outcome ev v1 None v' \<Longrightarrow> serial_effect (evs @ [ev]) v v'"
  by (auto simp: serial_append)

text \<open>Along the order no task disappears and no task gets an older timestamp.\<close>

definition not_older :: "(key \<Rightarrow> task_entity option) \<Rightarrow> (key \<Rightarrow> task_entity option) \<Rightarrow> bool" where
  "not_older v v' \<longleftrightarrow> (\<forall>k e. v k = Some e \<longrightarrow>
     (\<exists>e'. v' k = Some e' \<and> te_EventTimestamp e \<le> te_EventTimestamp e'))"

lemma not_older_refl [simp]: "not_older v v"
  by (simp add: not_older_def)

lemma not_older_trans: "not_older u v \<Longrightarrow> not_older v w \<Longrightarrow> not_older u w"
  unfolding not_older_def by (meson order_trans)

lemma outcome_not_older:
  "event_ok ev \<Longrightarrow> task_outcome ev v None v' \<Longrightarrow> not_older v v'"
  using task_effect_timestamp(1,3) [of ev "v (ev_key ev)"]
  by (fastforce simp: task_outcome_def not_older_def)

lemma serial_not_older:
  "\<forall>ev \<in> set evs. event_ok ev \<Longrightarrow> serial_effect evs v v' \<Longrightarrow> not_older v v'"
  by (induction evs arbitrary: v) (auto intro: not_older_trans outcome_not_older)

text \<open>An event that has been applied is refused in every later state.\<close>

lemma outcome_then_refused:
  assumes "event_ok ev" "task_outcome ev v None v1" "not_older v1 v2"
  shows "\<exists>err. task_effect ev (v2 (ev_key ev)) = Inl err"
proof -
  obtain e et where e: "task_effect ev (v (ev_key ev)) = Inr e" "v1 (ev_key ev) = Some (e\<lparr>te_ETag := et\<rparr>)"
    using assms(2) by (auto simp: task_outcome_def)
  then obtain e' where e': "v2 (ev_key ev) = Some e'" "te_EventTimestamp e \<le> te_EventTimestamp e'"
    using assms(3) unfolding not_older_def by fastforce
  with task_effect_timestamp(1) [OF assms(1) e(1)] e(1) show ?thesis
    by (auto simp: task_effect_def split: if_splits sum.splits option.splits)
qed

lemma serial_once:
  assumes "\<forall>ev \<in> set evs. event_ok ev" "serial_effect evs v v'"
  shows "distinct evs"
  using assms
proof (induction evs arbitrary: v)
  case (Cons ev evs)
  then obtain v1 where v1: "task_outcome ev v None v1" "serial_effect evs v1 v'" by auto
  have "ev \<notin> set evs"
  proof
    assume "ev \<in> set evs"
    then obtain as bs where evs: "evs = as @ ev # bs" by (auto simp: in_set_conv_decomp)
    then obtain v2 v3 where v2: "serial_effect as v1 v2" "task_outcome ev v2 None v3"
      using v1(2) by (auto simp: serial_append)
    have "not_older v1 v2" using Cons.prems(1) v2(1) evs by (intro serial_not_older [of as]) auto
    from outcome_then_refused [OF _ v1(1) this] v2(2) Cons.prems(1) show False
      by (auto simp: task_outcome_def)
  qed
  with Cons v1 show ?case by auto
qed simp

section \<open>A store with versions\<close>

text \<open>A task store whose ETags are versions: every write gives the task an ETag that was never
  handed out before.\<close>

locale versioned_task_store = task_store get ins upd view inv
  for get :: "string \<Rightarrow> string \<Rightarrow> 'w \<Rightarrow> (go_error + task_entity option) \<times> 'w"
    and ins upd view inv +
  fixes issued :: "'w \<Rightarrow> string set"
  assumes current: "inv w \<Longrightarrow> view w k = Some e \<Longrightarrow> te_ETag e \<in> issued w"
    and get_issued: "inv w \<Longrightarrow> get pk rk w = (x, w') \<Longrightarrow> issued w' = issued w"
    and ins_issued: "inv w \<Longrightarrow> task_entity_ok e \<Longrightarrow> ins e w = (r, w') \<Longrightarrow> issued w \<subseteq> issued w' \<and>
        (r = None \<longrightarrow> (\<forall>e'. view w' (ent_key e) = Some e' \<longrightarrow> te_ETag e' \<notin> issued w))"
    and upd_issued: "inv w \<Longrightarrow> task_update_ok u \<Longrightarrow> upd u et w = (r, w') \<Longrightarrow> issued w \<subseteq> issued w' \<and>
        (r = None \<longrightarrow> (\<forall>e'. view w' (upd_key u) = Some e' \<longrightarrow> te_ETag e' \<notin> issued w))"
begin

text \<open>What other handlers may do between two steps: tasks do not disappear, and what they change
  has a new version.\<close>

definition evolves :: "'w \<Rightarrow> 'w \<Rightarrow> bool" where
  "evolves w w' \<longleftrightarrow> issued w \<subseteq> issued w' \<and>
     (\<forall>k. view w k \<noteq> None \<longrightarrow> view w' k \<noteq> None) \<and>
     (\<forall>k e. view w' k = Some e \<longrightarrow> view w k = Some e \<or> te_ETag e \<notin> issued w)"

lemma evolves_same: "view w' = view w \<Longrightarrow> issued w \<subseteq> issued w' \<Longrightarrow> evolves w w'"
  by (simp add: evolves_def)

lemma evolves_write:
  "view w' = (view w)(k \<mapsto> e) \<Longrightarrow> issued w \<subseteq> issued w' \<Longrightarrow> te_ETag e \<notin> issued w \<Longrightarrow> evolves w w'"
  by (auto simp: evolves_def)

text \<open>What a handler knows about the task at each position. \<open>seen w ev ent\<close>: the task as it was
  read is the stored one unless the stored one has another version.\<close>

definition seen :: "'w \<Rightarrow> event \<Rightarrow> task_entity \<Rightarrow> bool" where
  "seen w ev ent \<longleftrightarrow> te_ETag ent \<in> issued w \<and> te_ETag ent \<notin> {'''', ETagAny} \<and>
     (\<forall>e. view w (ev_key ev) = Some e \<and> te_ETag e = te_ETag ent \<longrightarrow> e = ent)"

fun pc_ok :: "'w \<Rightarrow> event \<Rightarrow> task_pc \<Rightarrow> bool" where
  "pc_ok w ev (TpInsert ent) \<longleftrightarrow> ev_Type ev = TaskCreated \<and>
     (\<exists>d. unmarshal_raw decode_task_created (ev_Data ev) = Inr d \<and> ent = created_entity ev d)"
| "pc_ok w ev (TpTry u stale ent) \<longleftrightarrow> event_update ev = Inr (u, stale) \<and> \<not> no_fields u \<and> seen w ev ent"
| "pc_ok w ev (TpReread u stale) \<longleftrightarrow> event_update ev = Inr (u, stale) \<and> \<not> no_fields u"
| "pc_ok w ev _ \<longleftrightarrow> True"

lemma seen_evolves: "seen w ev ent \<Longrightarrow> evolves w w' \<Longrightarrow> seen w' ev ent"
  unfolding seen_def evolves_def by (metis (no_types, lifting) subsetD)

lemma pc_ok_evolves: "pc_ok w ev pc \<Longrightarrow> evolves w w' \<Longrightarrow> pc_ok w' ev pc"
  by (cases pc) (auto intro: seen_evolves)

lemma seen_read: "inv w \<Longrightarrow> view w (ev_key ev) = Some ent \<Longrightarrow> seen w ev ent"
  using current keyed by (auto simp: seen_def)

text \<open>A read for an update.\<close>

lemma read_law:
  assumes "inv w" "get (ev_UserID ev) (ev_EntityID ev) w = (r, w1)"
  shows "inv w1" "evolves w w1" "view w1 = view w" "r = Inr (Some ent) \<Longrightarrow> seen w1 ev ent"
proof -
  note g = get_law [OF assms] get_issued [OF assms]
  then show "inv w1" "evolves w w1" "view w1 = view w" by (auto intro: evolves_same)
  assume "r = Inr (Some ent)"
  with g show "seen w1 ev ent" by (auto intro!: seen_read simp: ev_key_def)
qed

text \<open>Every step keeps what the handler knows, changes the world only as the others expect it, and
  changes tasks only when it returns without an error, and then as the specification says.\<close>

definition step_ok :: "event \<Rightarrow> task_pc \<Rightarrow> 'w \<Rightarrow> task_pc \<Rightarrow> 'w \<Rightarrow> bool" where
  "step_ok ev pc w pc1 w1 \<longleftrightarrow> inv w1 \<and> evolves w w1 \<and> pc_ok w1 ev pc1 \<and>
     (if pc1 = TpDone None then task_outcome ev (view w) None (view w1) else view w1 = view w)"

lemma insert_step:
  assumes "inv w" "event_ok ev" "pc_ok w ev (TpInsert ent)" "task_step svc ev (TpInsert ent) w = (pc1, w1)"
  shows "step_ok ev (TpInsert ent) w pc1 w1"
proof -
  obtain d where d: "ev_Type ev = TaskCreated" "unmarshal_raw decode_task_created (ev_Data ev) = Inr d"
    "ent = created_entity ev d" using assms(3) by auto
  note ent = created_entity_ok [OF assms(2) d(2), folded d(3)]
  obtain r where r: "ins ent w = (r, w1)" "pc1 = TpDone r" using assms(4) by (auto split: prod.splits)
  note iss = ins_issued [OF assms(1) _ r(1)] ent
  show ?thesis
  proof (cases r)
    case None
    with r ins_ok [OF assms(1) _ , of ent w1] ent obtain et where w1: "inv w1" "view w (ev_key ev) = None"
      "view w1 = (view w)(ev_key ev \<mapsto> ent\<lparr>te_ETag := et\<rparr>)" by auto
    then have "evolves w w1" using iss None by (intro evolves_write) auto
    moreover have "task_outcome ev (view w) None (view w1)"
      using w1 d by (auto simp: task_outcome_def task_effect_def)
    ultimately show ?thesis using w1 r None by (simp add: step_ok_def)
  next
    case (Some e)
    then show ?thesis
      using ins_err [OF assms(1), of ent e w1] r iss by (auto simp: step_ok_def intro!: evolves_same)
  qed
qed

lemma try_step:
  assumes "inv w" "event_ok ev" "pc_ok w ev (TpTry u stale ent)"
    "task_step svc ev (TpTry u stale ent) w = (pc1, w1)"
  shows "step_ok ev (TpTry u stale ent) w pc1 w1"
proof (cases "ev_Timestamp ev \<le> te_EventTimestamp ent")
  case True
  then show ?thesis using assms(1,4) by (auto simp: step_ok_def intro!: evolves_same)
next
  case False
  have u: "event_update ev = Inr (u, stale)" "\<not> no_fields u" "seen w ev ent" using assms(3) by auto
  note uok = event_update_ok [OF assms(2) u(1)] event_update_type [OF u(1)]
  obtain r where r: "upd u (te_ETag ent) w = (r, w1)" using assms(4) False
    by (auto split: prod.splits option.splits)
  note iss = upd_issued [OF assms(1) uok(1) r]
  show ?thesis
  proof (cases r)
    case None
    have "te_ETag ent \<notin> {'''', ETagAny}" using u(3) by (simp add: seen_def)
    with upd_ok [OF assms(1) uok(1) r [unfolded None]] obtain e et' where e: "inv w1" "view w (ev_key ev) = Some e" "te_ETag e = te_ETag ent"
      "view w1 = (view w)(ev_key ev \<mapsto> (merge_task u e)\<lparr>te_ETag := et'\<rparr>)"
      unfolding uok(2) by metis
    then have "e = ent" using u(3) by (auto simp: seen_def)
    then have "task_outcome ev (view w) None (view w1)"
      using e False u uok by (auto simp: task_outcome_def task_effect_def)
    moreover have "evolves w w1" using e iss None by (intro evolves_write) (auto simp: uok(2))
    ultimately show ?thesis using r None e(1) assms(4) False by (auto simp: step_ok_def)
  next
    case (Some err)
    then show ?thesis
      using upd_err [OF assms(1), of u "te_ETag ent" err w1] r iss assms(4) False u(1,2)
      by (auto simp: step_ok_def intro!: evolves_same split: if_splits)
  qed
qed

lemma read_for_update_step:
  assumes "inv w" "event_update ev = Inr (u, stale)" "read_for_update svc ev u stale w = (pc1, w1)"
  shows "step_ok ev TpStart w pc1 w1"
proof -
  obtain r where "get (ev_UserID ev) (ev_EntityID ev) w = (r, w1)"
    using assms(3) by (auto simp: read_for_update_def split: prod.splits sum.splits option.splits)
  with read_law [OF assms(1) this] assms(2,3) show ?thesis
    by (auto simp: read_for_update_def step_ok_def split: sum.splits option.splits if_splits)
qed

lemma task_step_ok:
  assumes "inv w" "event_ok ev" "pc_ok w ev pc" "task_step svc ev pc w = (pc1, w1)" "\<not> tp_returned pc"
  shows "step_ok ev pc w pc1 w1"
proof (cases pc)
  case TpStart
  have rf: ?thesis if "event_update ev = Inr (u, stale)" "read_for_update svc ev u stale w = (pc1, w1)" for u stale
    using read_for_update_step [OF assms(1) that] TpStart by simp
  have same: ?thesis if "w1 = w" "pc1 = TpDone (Some e)" for e
    using that assms(1) by (simp add: step_ok_def evolves_same)
  show ?thesis
  proof (cases "ev_Type ev = TaskCreated")
    case True
    then show ?thesis
    proof (cases "unmarshal_raw decode_task_created (ev_Data ev)")
      case (Inr d)
      obtain r w2 where g: "get (ev_UserID ev) (ev_EntityID ev) w = (r, w2)" by fastforce
      with read_law [OF assms(1) g] True Inr assms(4) TpStart show ?thesis
        by (auto simp: first_step_def step_ok_def split: sum.splits option.splits)
    qed (use True assms(4) TpStart same in \<open>auto simp: first_step_def\<close>)
  next
    case False
    then show ?thesis
      using assms(4) TpStart rf same
      by (auto simp: first_step_def event_update_def split: if_splits sum.splits)
  qed
next
  case (TpReread u stale)
  obtain r where "get (ev_UserID ev) (ev_EntityID ev) w = (r, w1)"
    using assms(4) TpReread by (auto split: prod.splits sum.splits option.splits)
  with read_law [OF assms(1) this] assms(3,4) TpReread show ?thesis
    by (auto simp: step_ok_def split: sum.splits option.splits)
qed (use assms insert_step try_step in auto)

end

text \<open>The tables of the service have versions.\<close>

sublocale task_table \<subseteq> vs: versioned_task_store "GetTask st" "InsertTask st" "UpdateTask st"
  "\<lambda>w. task_view (tbl w)" "\<lambda>w. tinv w \<and> task_table_ok (tbl w)" issued
proof (unfold_locales, goal_cases)
  case (1 w k e)
  then show ?case
    using azure_table.current [OF azure, of w k] by (auto simp: task_view_def row_task_def)
next
  case (2 w pk rk x w')
  then show ?case using GetTask_law [of w pk rk x w'] by simp
next
  case (3 w e r w')
  show ?case
  proof (cases r)
    case None
    from azure_table.add_ok [OF azure _ _ parse_task_entity [OF 3(2)] task_entity_keys(2), of w] 3 None
    obtain et where "et \<notin> issued w" "issued w' = insert et (issued w)"
      "tbl w' = (tbl w)(ent_key e \<mapsto> (map_of (task_entity_members e), et))"
      by (auto simp: InsertTask_def)
    then show ?thesis by (auto simp: task_view_def row_task_def Let_def)
  next
    case (Some err)
    with 3 azure_table.add_err [OF azure, of w] show ?thesis by (auto simp: InsertTask_def)
  qed
next
  case (4 w u et r w')
  let ?im = "if et \<noteq> '''' then et else ETagAny"
  obtain r' where upd: "UpdateEntity (st_taskTable st) (json_print (JObj (task_update_members u))) ?im w = (r', w')"
    "r = None \<longleftrightarrow> r' = None"
    using 4(3) by (auto simp: UpdateTask_def Let_def split: prod.splits option.splits if_splits)
  show ?case
  proof (cases r')
    case None
    from azure_table.upd_ok [OF azure _ upd(1) [unfolded None] parse_task_update [OF 4(2)] task_update_keys(2)] 4(1)
    obtain p et' where "et' \<notin> issued w" "issued w' = insert et' (issued w)" "tbl w' = (tbl w)(upd_key u \<mapsto> (p, et'))"
      by blast
    then show ?thesis by (auto simp: task_view_def row_task_def Let_def)
  next
    case (Some err)
    with azure_table.upd_err [OF azure _ upd(1) [unfolded Some]] 4(1) upd(2) show ?thesis by auto
  qed
qed

context task_table
begin

lemma is_versioned: "versioned_task_store (GetTask st) (InsertTask st) (UpdateTask st)
    (\<lambda>w. task_view (tbl w)) (\<lambda>w. tinv w \<and> task_table_ok (tbl w)) issued"
  by (rule vs.versioned_task_store_axioms)

end

section \<open>The execution is serial\<close>

context versioned_task_store
begin

definition conc_ok :: "event list \<Rightarrow> (key \<Rightarrow> task_entity option) \<Rightarrow> 'w conc \<Rightarrow> bool" where
  "conc_ok evs v0 s \<longleftrightarrow> (case s of (w, pcs, log) \<Rightarrow>
     inv w \<and> length pcs = length evs \<and> (\<forall>ev \<in> set evs. event_ok ev) \<and>
     (\<forall>i < length evs. pc_ok w (evs ! i) (pcs ! i)) \<and>
     serial_effect (map ((!) evs) log) v0 (view w) \<and> distinct log \<and>
     set log = {i. i < length evs \<and> pcs ! i = TpDone None})"

lemma conc_ok_init: "inv w \<Longrightarrow> \<forall>ev \<in> set evs. event_ok ev \<Longrightarrow> conc_ok evs (view w) (conc_init w evs)"
  by (simp add: conc_ok_def conc_init_def)

lemma conc_step_law:
  assumes "conc_step svc evs s t" "conc_ok evs v0 s"
  obtains i w pcs log pc1 w1 where "s = (w, pcs, log)" "i < length evs" "length pcs = length evs"
    "\<not> tp_returned (pcs ! i)" "inv w" "event_ok (evs ! i)" "pc_ok w (evs ! i) (pcs ! i)"
    "task_step svc (evs ! i) (pcs ! i) w = (pc1, w1)" "step_ok (evs ! i) (pcs ! i) w pc1 w1"
    "t = (w1, pcs[i := pc1], if pc1 = TpDone None then log @ [i] else log)"
proof -
  from assms(1) obtain i where i: "can_step i s" "t = conc_exec svc evs i s" by (rule conc_stepE)
  obtain w pcs log where s: "s = (w, pcs, log)" by (cases s)
  obtain pc1 w1 where st: "task_step svc (evs ! i) (pcs ! i) w = (pc1, w1)" by fastforce
  have "i < length evs" "\<not> tp_returned (pcs ! i)" "length pcs = length evs" "inv w" "event_ok (evs ! i)"
    "pc_ok w (evs ! i) (pcs ! i)"
    using i(1) assms(2) by (auto simp: s can_step_def conc_ok_def)
  with that [OF s, of i pc1 w1] st i(2) s task_step_ok [of w "evs ! i" "pcs ! i" pc1 w1] show ?thesis
    by (simp add: conc_exec_def)
qed

lemma conc_step_ok:
  assumes "conc_step svc evs s t" "conc_ok evs v0 s"
  shows "conc_ok evs v0 t"
  using assms
proof (rule conc_step_law)
  fix i w pcs log pc1 w1
  assume s: "s = (w, pcs, log)" and i: "i < length evs" "length pcs = length evs" "\<not> tp_returned (pcs ! i)"
    and step: "step_ok (evs ! i) (pcs ! i) w pc1 w1"
    and t: "t = (w1, pcs[i := pc1], if pc1 = TpDone None then log @ [i] else log)"
  note ok = assms(2) [unfolded conc_ok_def s prod.case]
  have new: "i \<notin> set log" using ok i(3) by auto
  have "pc_ok w1 (evs ! j) (pcs[i := pc1] ! j)" if "j < length evs" for j
    using step ok that i pc_ok_evolves by (cases "j = i") (auto simp: step_ok_def)
  moreover have "serial_effect (map ((!) evs) (if pc1 = TpDone None then log @ [i] else log)) v0 (view w1)"
    using step ok by (auto simp: step_ok_def intro: serial_snoc)
  moreover have "set (if pc1 = TpDone None then log @ [i] else log)
      = {j. j < length evs \<and> pcs[i := pc1] ! j = TpDone None}"
    using ok i by (auto simp: nth_list_update)
  ultimately show "conc_ok evs v0 t"
    using ok step new i(2) by (simp add: conc_ok_def t step_ok_def)
qed

subsection \<open>The retry loops end\<close>

text \<open>A handler whose task has been overwritten since it was read is behind: it has a failing
  write and a read before it. A write puts others behind, but a handler writes only once.\<close>

definition behind :: "'w \<Rightarrow> event \<Rightarrow> task_entity \<Rightarrow> bool" where
  "behind w ev ent \<longleftrightarrow> (\<forall>e. view w (ev_key ev) = Some e \<longrightarrow> te_ETag e \<noteq> te_ETag ent)"

fun pc_cost :: "'w \<Rightarrow> event \<Rightarrow> task_pc \<Rightarrow> nat" where
  "pc_cost w ev TpStart = 2"
| "pc_cost w ev (TpInsert ent) = 1"
| "pc_cost w ev (TpTry u stale ent) = (if behind w ev ent then 3 else 1)"
| "pc_cost w ev (TpReread u stale) = 2"
| "pc_cost w ev (TpDone r) = 0"

lemma pc_cost_returned: "tp_returned pc \<longleftrightarrow> pc_cost w ev pc = 0"
  by (cases pc) auto

lemma pc_cost_view: "view w1 = view w \<Longrightarrow> pc_cost w1 ev pc = pc_cost w ev pc"
  by (cases pc) (auto simp: behind_def)

lemma pc_cost_other: "pc_cost w1 ev pc \<le> pc_cost w ev pc + 2"
  by (cases pc) auto

lemma read_not_behind:
  assumes "inv w" "get (ev_UserID ev) (ev_EntityID ev) w = (Inr (Some ent), w1)"
  shows "\<not> behind w1 ev ent"
proof -
  have "view w1 (ev_key ev) = Some ent" using get_law [OF assms] by (simp add: ev_key_def)
  then show ?thesis by (simp add: behind_def)
qed

lemma step_cost:
  assumes "inv w" "event_ok ev" "pc_ok w ev pc" "task_step svc ev pc w = (pc1, w1)" "\<not> tp_returned pc"
    "pc1 \<noteq> TpDone None"
  shows "pc_cost w1 ev pc1 < pc_cost w ev pc"
proof (cases pc)
  case TpStart
  with assms(4) read_not_behind [OF assms(1), of ev] show ?thesis
    by (auto simp: first_step_def read_for_update_def split: if_splits sum.splits prod.splits option.splits)
next
  case (TpReread u stale)
  with assms(4) read_not_behind [OF assms(1), of ev] show ?thesis
    by (auto split: sum.splits prod.splits option.splits)
next
  case (TpTry u stale ent)
  have u: "event_update ev = Inr (u, stale)" using assms(3) TpTry by simp
  note uok = event_update_ok [OF assms(2) u]
  show ?thesis
  proof (cases "pc1 = TpReread u stale")
    case True
    with assms(4) TpTry have "upd u (te_ETag ent) w = (Some ErrConcurrencyConflict, w1)"
      by (auto split: if_splits prod.splits option.splits)
    from upd_conflict [OF assms(1) uok(1) this] have "behind w ev ent" by (auto simp: behind_def uok(2))
    with True TpTry show ?thesis by simp
  next
    case False
    with assms(4) TpTry have "tp_returned pc1" by (auto split: if_splits prod.splits option.splits)
    then show ?thesis using TpTry by (simp add: pc_cost_returned [of pc1 w1 ev])
  qed
next
  case (TpInsert ent)
  with assms(4) show ?thesis by (auto split: prod.splits)
qed (use assms(5) in simp)

definition proc_weight :: "nat \<Rightarrow> 'w \<Rightarrow> event \<Rightarrow> task_pc \<Rightarrow> nat" where
  "proc_weight n w ev pc = pc_cost w ev pc + (if tp_returned pc then 0 else 2 * n)"

definition conc_weight :: "event list \<Rightarrow> 'w conc \<Rightarrow> nat" where
  "conc_weight evs s = (case s of (w, pcs, log) \<Rightarrow>
     (\<Sum>i < length evs. proc_weight (length evs) w (evs ! i) (pcs ! i)))"

lemma conc_weight_init: "conc_weight evs (conc_init w evs) = 2 * length evs * (length evs + 1)"
  by (simp add: conc_weight_def conc_init_def proc_weight_def)

lemma conc_step_weight:
  assumes "conc_step svc evs s t" "conc_ok evs v0 s"
  shows "conc_weight evs t < conc_weight evs s"
  using assms
proof (rule conc_step_law)
  fix i w pcs log pc1 w1
  assume s: "s = (w, pcs, log)" and i: "i < length evs" "length pcs = length evs" "\<not> tp_returned (pcs ! i)"
    and pre: "inv w" "event_ok (evs ! i)" "pc_ok w (evs ! i) (pcs ! i)"
      "task_step svc (evs ! i) (pcs ! i) w = (pc1, w1)"
    and step: "step_ok (evs ! i) (pcs ! i) w pc1 w1"
    and t: "t = (w1, pcs[i := pc1], if pc1 = TpDone None then log @ [i] else log)"
  let ?n = "length evs" and ?J = "{..<length evs} - {i}"
  let ?f = "\<lambda>j. proc_weight ?n w (evs ! j) (pcs ! j)"
  let ?g = "\<lambda>j. proc_weight ?n w1 (evs ! j) (pcs[i := pc1] ! j)"
  have split: "conc_weight evs s = ?f i + sum ?f ?J" "conc_weight evs t = ?g i + sum ?g ?J"
    using i by (simp_all add: conc_weight_def s t sum.remove [of "{..<length evs}" i])
  show "conc_weight evs t < conc_weight evs s"
  proof (cases "pc1 = TpDone None")
    case True
    have "?g j \<le> ?f j + 2" if "j \<in> ?J" for j
      using that pc_cost_other [of w1 "evs ! j" "pcs ! j" w] by (simp add: proc_weight_def)
    then have "sum ?g ?J \<le> (\<Sum>j \<in> ?J. ?f j + 2)" by (rule sum_mono)
    also have "\<dots> = sum ?f ?J + 2 * (?n - 1)" using i(1) by (simp add: sum.distrib del: add_2_eq_Suc')
    finally have "sum ?g ?J \<le> sum ?f ?J + 2 * (?n - 1)" .
    moreover have "?g i = 0" "2 * ?n \<le> ?f i" using True i by (simp_all add: proc_weight_def)
    moreover have "a' + b' < a + b" if "b' \<le> b + 2 * (?n - 1)" "a' = 0" "2 * ?n \<le> a" for a a' b b' :: nat
      using that i(1) by simp
    ultimately show ?thesis unfolding split by blast
  next
    case False
    then have vw: "view w1 = view w" using step by (simp add: step_ok_def)
    have "sum ?g ?J = sum ?f ?J" by (intro sum.cong) (auto simp: proc_weight_def pc_cost_view [OF vw])
    moreover have "?g i < ?f i" using step_cost [OF pre i(3) False] i by (auto simp: proc_weight_def)
    ultimately show ?thesis unfolding split by (simp only: add_less_mono1)
  qed
qed

lemma conc_progress:
  assumes "conc_ok evs v0 s" "\<not> all_returned s"
  shows "\<exists>t. conc_step svc evs s t"
proof -
  obtain w pcs log where s: "s = (w, pcs, log)" by (cases s)
  with assms(2) obtain i where "i < length pcs" "\<not> tp_returned (pcs ! i)"
    by (auto simp: all_returned_def list_all_length)
  then have "can_step i s" by (simp add: can_step_def s)
  then show ?thesis by (blast intro: conc)
qed

end

sublocale versioned_task_store \<subseteq> conc: live_system
  "\<lambda>s t. conc_ok evs v0 s \<and> conc_step svc evs s t" "conc_ok evs v0" "conc_weight evs" all_returned for evs v0
  by unfold_locales (use conc_step_ok conc_step_weight conc_progress in blast)+

context versioned_task_store
begin

lemma conc_reach:
  assumes "(conc_step svc evs)\<^sup>*\<^sup>* s t" "conc_ok evs v0 s"
  shows "conc_ok evs v0 t"
  using assms by (induction rule: rtranclp_induct) (auto intro: conc_step_ok)

theorem concurrent_serial:
  assumes "inv w" "\<forall>ev \<in> set evs. event_ok ev" "(conc_step svc evs)\<^sup>*\<^sup>* (conc_init w evs) (w', pcs, log)"
  shows "inv w'" "distinct log" "set log = {i. i < length evs \<and> pcs ! i = TpDone None}"
    "serial_effect (map ((!) evs) log) (view w) (view w')"
  using conc_reach [OF assms(3) conc_ok_init [OF assms(1,2)]] by (auto simp: conc_ok_def)

text \<open>Handlers of the same event: at most one of them succeeds.\<close>

theorem concurrent_once:
  assumes "inv w" "\<forall>ev \<in> set evs. event_ok ev" "(conc_step svc evs)\<^sup>*\<^sup>* (conc_init w evs) (w', pcs, log)"
    and "i < length evs" "j < length evs" "evs ! i = evs ! j" "pcs ! i = TpDone None" "pcs ! j = TpDone None"
  shows "i = j"
proof -
  note ser = concurrent_serial [OF assms(1-3)]
  have "\<forall>ev \<in> set (map ((!) evs) log). event_ok ev" using assms(2) ser(3) by auto
  from serial_once [OF this ser(4)] have "inj_on ((!) evs) (set log)" by (simp add: distinct_map)
  with ser(3) assms(4-) show ?thesis by (auto dest: inj_onD)
qed

theorem concurrent_bound:
  assumes "inv w" "\<forall>ev \<in> set evs. event_ok ev" "(conc_step svc evs ^^ k) (conc_init w evs) s"
  shows "k \<le> 2 * length evs * (length evs + 1)" "(\<nexists>t. conc_step svc evs s t) \<Longrightarrow> all_returned s"
proof -
  note init = conc_ok_init [OF assms(1,2)]
  let ?step = "\<lambda>s t. conc_ok evs (view w) s \<and> conc_step svc evs s t"
  have "(?step ^^ k) (conc_init w evs) s \<and> conc_ok evs (view w) s"
    using assms(3)
  proof (induction k arbitrary: s)
    case (Suc k)
    then obtain u where u: "(conc_step svc evs ^^ k) (conc_init w evs) u" "conc_step svc evs u s" by auto
    with Suc.IH [OF u(1)] conc_step_ok [OF u(2)] show ?case by auto
  qed (use init in auto)
  with conc.run_bound [of k evs "view w" "conc_init w evs" s] conc_progress [of evs "view w" s]
  show "k \<le> 2 * length evs * (length evs + 1)" "(\<nexists>t. conc_step svc evs s t) \<Longrightarrow> all_returned s"
    by (auto simp: conc_weight_init)
qed

end

section \<open>Over Azure tables\<close>

lemma azure_versioned:
  "azure_table (st_taskTable st) tbl issued tinv \<Longrightarrow>
   versioned_task_store (GetTask st) (InsertTask st) (UpdateTask st) (\<lambda>w. task_view (tbl w))
     (\<lambda>w. tinv w \<and> task_table_ok (tbl w)) issued"
  by (rule task_table.is_versioned [OF task_table.intro])

section \<open>Frames\<close>

text \<open>A relation between worlds that the calls of the storage respect is respected by the whole
  call of the service.\<close>

lemma task_step_frame:
  assumes "\<And>w. R w w" "\<And>pk rk w. R w (snd (ts_GetTask st pk rk w))" "\<And>ent w. R w (snd (ts_InsertTask st ent w))"
    "\<And>u et w. R w (snd (ts_UpdateTask st u et w))" "task_step st ev pc w = (pc1, w1)"
  shows "R w w1"
proof -
  have calls: "ts_GetTask st pk rk v = (x, v1) \<Longrightarrow> R v v1" "ts_InsertTask st ent v = (y, v1) \<Longrightarrow> R v v1"
    "ts_UpdateTask st u et v = (y, v1) \<Longrightarrow> R v v1" for v v1 pk rk x ent y u et
    using assms(2) [of v pk rk] assms(3) [of v ent] assms(4) [of v u et] by auto
  from assms(1,5) calls show ?thesis
    by (cases pc) (auto simp: first_step_def read_for_update_def split: if_splits sum.splits prod.splits option.splits)
qed

lemma task_Apply_frame:
  assumes "\<And>w. R w w" "\<And>u v w. R u v \<Longrightarrow> R v w \<Longrightarrow> R u w" "\<And>pk rk w. R w (snd (ts_GetTask st pk rk w))"
    "\<And>ent w. R w (snd (ts_InsertTask st ent w))" "\<And>u et w. R w (snd (ts_UpdateTask st u et w))"
    "task_Apply st ev w = Some (r, w')"
  shows "R w w'"
proof -
  have "task_steps st ev n pc w = (pc1, w1) \<Longrightarrow> R w w1" for n pc w pc1 w1
  proof (induction n arbitrary: pc w)
    case (Suc n)
    obtain pc2 w2 where step: "task_step st ev pc w = (pc2, w2)" by fastforce
    with Suc have "R w2 w1" by simp
    moreover have "R w w2" by (rule task_step_frame [OF assms(1,3-5) step])
    ultimately show ?case using assms(2) by blast
  qed (use assms(1) in simp)
  with assms(6) task_Apply_steps show ?thesis by metis
qed

end
