(* ===== verification/Updater_System.thy ===== *)
theory Updater_System
  imports Rmu_Processor Cache_Transparency Task_Concurrency
begin

text \<open>
  The read-model updater and the reading side of prism-api as one system: requests with domain
  events arrive in any order and any number of times (\<open>read-model-updater/main.go\<close>), Redis drops
  entries, and the API reads pages (\<open>prism-api/storage/storage.go\<close>). The locale \<open>updater_world\<close>
  puts the tables, Redis and the clock into one world and states that they are independent. The
  lemmas show that the tables stay well-formed whatever arrives, what a handled request has done,
  and that every page that the API returns is a page of the table at some time of the execution.
\<close>

section \<open>Frames of the refreshes\<close>

lemma refresh_pages_frame:
  assumes "\<And>w. R w w" "\<And>u v w. R u v \<Longrightarrow> R v w \<Longrightarrow> R u w"
    "\<And>u l pk rk w. R w (snd (cs_ListTasksPage store u l pk rk w))" "refresh_pages store user e l n s w = (r, w')"
  shows "R w w'"
  using assms(4)
proof (induction n arbitrary: s w)
  case (Suc n)
  obtain x w1 where list: "cs_ListTasksPage store user l (rs_nextPK s) (rs_nextRK s) w = (x, w1)" by fastforce
  then have "R w w1" using assms(3) by (metis snd_conv)
  moreover have "w' = w1 \<or> R w1 w'"
    using Suc.prems Suc.IH list by (auto simp: Let_def split: sum.splits prod.splits if_splits)
  ultimately show ?case using assms(2) by blast
qed (use assms(1) in simp)

lemma RefreshTasks_frame:
  assumes "\<And>w. R w w" "\<And>u v w. R u v \<Longrightarrow> R v w \<Longrightarrow> R u w"
    "\<And>u l pk rk w. R w (snd (cs_ListTasksPage store u l pk rk w))"
    "\<And>k w. R w (snd (rc_Del rc k w))" "\<And>k x ttl w. R w (snd (rc_Set rc k x ttl w))" "\<And>w. R w (snd (cu_now cu w))"
    "cu_store cu = Some store" "cu_redis cu = Some rc"
  shows "R w (RefreshTasks (Some cu) user e ts w)"
proof -
  obtain r w1 where rp: "refresh_pages store user e (cu_tasksPerPage cu) (nat (cu_cachedPages cu))
      (initial_refresh e ts) w = (r, w1)" by fastforce
  have r1: "R w w1"
    by (rule refresh_pages_frame [of R, OF assms(1) _ assms(3) rp]) (rule assms(2))
  obtain d w2 where nw: "cu_now cu w1 = (d, w2)" by fastforce
  then have "R w1 w2" using assms(6) by (metis snd_conv)
  with r1 have "R w w2" by (rule assms(2))
  then have "\<And>k. R w (snd (rc_Del rc k w1))" "\<And>k x ttl. R w (snd (rc_Set rc k x ttl w2))"
    using assms(2) [OF r1 assms(4)] assms(2) [OF _ assms(5)] by auto
  with \<open>R w w2\<close> r1 rp nw assms(7,8) show ?thesis
    by (auto simp: RefreshTasks_def split: option.splits sum.splits)
qed

lemma RefreshSettings_frame:
  assumes "\<And>w. R w w" "\<And>u v w. R u v \<Longrightarrow> R v w \<Longrightarrow> R u w"
    "\<And>u w. R w (snd (cs_GetUserSettings store u w))"
    "\<And>w. R w (snd (rc_Del rc (cacheKey user settingsCachePrefix) w))"
    "\<And>x ttl w. R w (snd (rc_Set rc (cacheKey user settingsCachePrefix) x ttl w))" "\<And>w. R w (snd (cu_now cu w))"
    "cu_store cu = Some store" "cu_redis cu = Some rc"
  shows "R w (RefreshSettings (Some cu) user ts w)"
proof -
  obtain r w1 where get: "cs_GetUserSettings store user w = (r, w1)" by fastforce
  then have r1: "R w w1" using assms(3) by (metis snd_conv)
  obtain d w2 where nw: "cu_now cu w1 = (d, w2)" by fastforce
  then have "R w1 w2" using assms(6) by (metis snd_conv)
  with r1 have "R w w2" by (rule assms(2))
  then have "R w (snd (rc_Del rc (cacheKey user settingsCachePrefix) w1))"
    "\<And>x ttl. R w (snd (rc_Set rc (cacheKey user settingsCachePrefix) x ttl w2))"
    using assms(2) [OF r1 assms(4)] assms(2) [OF _ assms(5)] by auto
  with \<open>R w w2\<close> r1 get nw assms(7,8) show ?thesis
    by (auto simp: RefreshSettings_def split: option.splits sum.splits)
qed

lemma user_Apply_frame:
  assumes "\<And>w. R w w" "\<And>u v w. R u v \<Longrightarrow> R v w \<Longrightarrow> R u w" "\<And>ue w. R w (snd (us_UpsertUser st ue w))"
    "\<And>i w. R w (snd (us_GetUserSettings st i w))" "\<And>s w. R w (snd (us_UpsertUserSettings st s w))"
    "\<And>u w. R w (snd (us_UpdateUserSettings st u w))" "user_Apply st ev w = (r, w')"
  shows "R w w'"
proof -
  have calls: "us_UpsertUser st ue v = (y, v1) \<Longrightarrow> R v v1" "us_GetUserSettings st i v = (x, v1) \<Longrightarrow> R v v1"
    "us_UpsertUserSettings st s v = (y, v1) \<Longrightarrow> R v v1" "us_UpdateUserSettings st u v = (y, v1) \<Longrightarrow> R v v1"
    for v v1 ue y i x s u
    using assms(3) [of v ue] assms(4) [of v i] assms(5) [of v s] assms(6) [of v u] by auto
  obtain x w1 where get: "us_GetUserSettings st (ev_EntityID ev) w = (x, w1)" by fastforce
  have "R w1 w' \<Longrightarrow> R w w'" "R w w1" using calls(2) [OF get] assms(2) [OF calls(2) [OF get]] by simp_all
  with assms(1,7) calls(1,3,4) get show ?thesis
    by (auto simp: user_Apply_def apply_user_created_def apply_settings_created_def apply_settings_updated_def
        Let_def split: if_splits sum.splits option.splits)
qed

section \<open>One world\<close>

definition tables_ok ::
  "('w \<Rightarrow> table) \<Rightarrow> ('w \<Rightarrow> bool) \<Rightarrow> ('w \<Rightarrow> table) \<Rightarrow> ('w \<Rightarrow> bool) \<Rightarrow> 'w \<Rightarrow> bool" where
  "tables_ok tbl tinv stbl sinv w \<longleftrightarrow> tinv w \<and> task_table_ok (tbl w) \<and> sinv w \<and> settings_table_ok (stbl w)"

text \<open>What an applied event has done to the two tables.\<close>

definition event_effect :: "('w \<Rightarrow> table) \<Rightarrow> ('w \<Rightarrow> table) \<Rightarrow> event \<Rightarrow> 'w \<Rightarrow> 'w \<Rightarrow> bool" where
  "event_effect tbl stbl ev w w' \<longleftrightarrow>
     (if ev_EntityType ev = ''task''
      then task_outcome ev (task_view (tbl w)) None (task_view (tbl w')) \<and> stbl w' = stbl w
      else settings_outcome ev (settings_view (stbl w)) None (settings_view (stbl w')) \<and> tbl w' = tbl w)"

text \<open>The services put a user into a filter without escaping quotes; the laws of the listing are
  about users without quotes.\<close>

definition plain_user :: "('r \<Rightarrow> go_error + string) \<Rightarrow> 'r \<Rightarrow> bool" where
  "plain_user bnd req \<longleftrightarrow>
     (case bnd req of
        Inl e \<Rightarrow> True
      | Inr raw \<Rightarrow> (case unmarshal_text decode_event (unquote_payload raw) of
                      Inl e \<Rightarrow> True | Inr ev \<Rightarrow> CHR 0x27 \<notin> set (ev_UserID ev)))"

text \<open>What the world does by itself is \<open>env\<close>: time passes and Redis drops entries that have
  expired or been evicted. The laws say that the task table, the settings table and Redis are
  independent of each other.\<close>

locale updater_world = read_model st tbl issued tinv lister rc kv now
  for st :: "'w rmu_storage" and tbl :: "'w \<Rightarrow> table" and issued tinv and lister :: "'w \<Rightarrow> lister"
    and rc kv now +
  fixes stbl :: "'w \<Rightarrow> table"
    and sissued :: "'w \<Rightarrow> string set"
    and sinv :: "'w \<Rightarrow> bool"
    and env :: "'w \<Rightarrow> 'w \<Rightarrow> bool"
  assumes settings: "settings_table st stbl sissued sinv"
    and task_ops: "w' \<in> {snd (GetEntity (st_taskTable st) pk rk w), snd (AddEntity (st_taskTable st) body w),
          snd (UpdateEntity (st_taskTable st) body im w), snd (ListPage (st_taskTable st) f sel m npk nrk w)} \<Longrightarrow>
        kv w' = kv w \<and> (sinv w \<longrightarrow> sinv w' \<and> stbl w' = stbl w)"
    and settings_ops: "w' \<in> {snd (GetEntity (st_settingsTable st) pk rk w),
          snd (UpdateEntity (st_settingsTable st) body im w), snd (UpsertEntity (st_settingsTable st) body w),
          snd (UpsertEntity (st_userTable st) body w)} \<Longrightarrow>
        kv w' = kv w \<and> (tinv w \<longrightarrow> tinv w' \<and> tbl w' = tbl w \<and> lister w' = lister w)"
    and redis_ops: "w' \<in> {snd (rc_Get rc k w), snd (rc_Set rc k v ttl w), snd (rc_Del rc k w),
          snd (rc_Publish rc k v w)} \<Longrightarrow> sinv w \<Longrightarrow> sinv w' \<and> stbl w' = stbl w"
    and publish_apart: "tinv w \<Longrightarrow> w' = snd (rc_Publish rc k v w) \<Longrightarrow>
        tinv w' \<and> tbl w' = tbl w \<and> lister w' = lister w"
    and clock_settings: "sinv w \<Longrightarrow> now w = (d, w') \<Longrightarrow> sinv w' \<and> stbl w' = stbl w"
    and clock_kv: "now w = (d, w') \<Longrightarrow> kv w' = kv w"
    and env_law: "env w w' \<Longrightarrow> kv w' \<subseteq>\<^sub>m kv w \<and>
        (tinv w \<longrightarrow> tinv w' \<and> tbl w' = tbl w \<and> lister w' = lister w) \<and>
        (sinv w \<longrightarrow> sinv w' \<and> stbl w' = stbl w)"
begin

abbreviation sys_ok :: "'w \<Rightarrow> bool" where
  "sys_ok \<equiv> tables_ok tbl tinv stbl sinv"

text \<open>The three parts of the world, each with its frame.\<close>

definition tasks_same :: "'w \<Rightarrow> 'w \<Rightarrow> bool" where
  "tasks_same w w' \<longleftrightarrow> (tinv w \<longrightarrow> tinv w' \<and> tbl w' = tbl w \<and> lister w' = lister w)"

definition settings_same :: "'w \<Rightarrow> 'w \<Rightarrow> bool" where
  "settings_same w w' \<longleftrightarrow> (sinv w \<longrightarrow> sinv w' \<and> stbl w' = stbl w)"

definition keys_same :: "string set \<Rightarrow> 'w \<Rightarrow> 'w \<Rightarrow> bool" where
  "keys_same K w w' \<longleftrightarrow> (\<forall>k \<in> K. kv w' k = kv w k)"

lemma frames_refl [simp]: "tasks_same w w" "settings_same w w" "keys_same K w w"
  by (simp_all add: tasks_same_def settings_same_def keys_same_def)

lemma frames_trans:
  "tasks_same u v \<Longrightarrow> tasks_same v w \<Longrightarrow> tasks_same u w"
  "settings_same u v \<Longrightarrow> settings_same v w \<Longrightarrow> settings_same u w"
  "keys_same K u v \<Longrightarrow> keys_same K v w \<Longrightarrow> keys_same K u w"
  by (auto simp: tasks_same_def settings_same_def keys_same_def)

lemma sys_ok_same: "sys_ok w \<Longrightarrow> tasks_same w w' \<Longrightarrow> settings_same w w' \<Longrightarrow> sys_ok w'"
  by (auto simp: tables_ok_def tasks_same_def settings_same_def)

text \<open>The calls of the storage package.\<close>

lemma storage_worlds:
  "snd (GetTask st pk rk w) = snd (GetEntity (st_taskTable st) pk rk w)"
  "snd (InsertTask st ent w) = snd (AddEntity (st_taskTable st) (json_print (JObj (task_entity_members ent))) w)"
  "snd (UpdateTask st u et w) = snd (UpdateEntity (st_taskTable st) (json_print (JObj (task_update_members u)))
     (if et \<noteq> [] then et else ETagAny) w)"
  "snd (ListTasksPage st user l npk nrk w) = snd (ListPage (st_taskTable st) (partition_filter user)
     taskListSelectClause (if l \<le> 0 then 1 else l) npk nrk w)"
  "snd (GetUserSettings st i w) = snd (GetEntity (st_settingsTable st) i i w)"
  "snd (UpsertUserSettings st s w)
     = snd (UpsertEntity (st_settingsTable st) (json_print (JObj (user_settings_members s))) w)"
  "snd (UpdateUserSettings st su w) = snd (UpdateEntity (st_settingsTable st)
     (json_print (JObj (user_settings_update_members su))) ETagAny w)"
  "snd (UpsertUser st ue w) = snd (UpsertEntity (st_userTable st) (json_print (JObj (user_entity_members ue))) w)"
  by (simp_all add: GetTask_def InsertTask_def UpdateTask_def ListTasksPage_def GetUserSettings_def
      UpsertUserSettings_def UpdateUserSettings_def UpsertUser_def Let_def
      split: prod.split option.split sum.split split del: if_split del: json_print.simps)

lemma task_client:
  "settings_same w (snd (GetEntity (st_taskTable st) pk rk w)) \<and> keys_same K w (snd (GetEntity (st_taskTable st) pk rk w))"
  "settings_same w (snd (AddEntity (st_taskTable st) body w)) \<and> keys_same K w (snd (AddEntity (st_taskTable st) body w))"
  "settings_same w (snd (UpdateEntity (st_taskTable st) body im w)) \<and>
     keys_same K w (snd (UpdateEntity (st_taskTable st) body im w))"
  "settings_same w (snd (ListPage (st_taskTable st) f sel m npk nrk w)) \<and>
     keys_same K w (snd (ListPage (st_taskTable st) f sel m npk nrk w))"
  using task_ops [where w = w and pk = pk and rk = rk, OF insertI1]
    task_ops [where w = w and body = body, OF insertI2 [OF insertI1]]
    task_ops [where w = w and body = body and im = im, OF insertI2 [OF insertI2 [OF insertI1]]]
    task_ops [where w = w and f = f and sel = sel and m = m and npk = npk and nrk = nrk, OF insertI2 [OF insertI2 [OF insertI2 [OF insertI1]]]]
  by (simp_all add: settings_same_def keys_same_def)

lemma settings_client:
  "tasks_same w (snd (GetEntity (st_settingsTable st) pk rk w)) \<and>
     keys_same K w (snd (GetEntity (st_settingsTable st) pk rk w))"
  "tasks_same w (snd (UpdateEntity (st_settingsTable st) body im w)) \<and>
     keys_same K w (snd (UpdateEntity (st_settingsTable st) body im w))"
  "tasks_same w (snd (UpsertEntity (st_settingsTable st) body w)) \<and>
     keys_same K w (snd (UpsertEntity (st_settingsTable st) body w))"
  "tasks_same w (snd (UpsertEntity (st_userTable st) body w)) \<and> keys_same K w (snd (UpsertEntity (st_userTable st) body w))"
  using settings_ops [where w = w and pk = pk and rk = rk, OF insertI1]
    settings_ops [where w = w and body = body and im = im, OF insertI2 [OF insertI1]]
    settings_ops [where w = w and body = body, OF insertI2 [OF insertI2 [OF insertI1]]]
    settings_ops [where w = w and body = body, OF insertI2 [OF insertI2 [OF insertI2 [OF insertI1]]]]
  by (simp_all add: tasks_same_def keys_same_def)

lemma task_calls:
  "settings_same w (snd (GetTask st pk rk w))" "settings_same w (snd (InsertTask st ent w))"
  "settings_same w (snd (UpdateTask st u et w))" "settings_same w (snd (ListTasksPage st user l npk nrk w))"
  "keys_same K w (snd (GetTask st pk rk w))" "keys_same K w (snd (InsertTask st ent w))"
  "keys_same K w (snd (UpdateTask st u et w))" "keys_same K w (snd (ListTasksPage st user l npk nrk w))"
  by (simp_all only: storage_worlds task_client)

lemma settings_calls:
  "tasks_same w (snd (GetUserSettings st i w))" "tasks_same w (snd (UpsertUserSettings st s w))"
  "tasks_same w (snd (UpdateUserSettings st su w))" "tasks_same w (snd (UpsertUser st ue w))"
  "keys_same K w (snd (GetUserSettings st i w))" "keys_same K w (snd (UpsertUserSettings st s w))"
  "keys_same K w (snd (UpdateUserSettings st su w))" "keys_same K w (snd (UpsertUser st ue w))"
  by (simp_all only: storage_worlds settings_client)

lemma redis_calls:
  "settings_same w (snd (rc_Get rc k w))" "settings_same w (snd (rc_Set rc k v ttl w))"
  "settings_same w (snd (rc_Del rc k w))" "settings_same w (snd (rc_Publish rc k v w))"
  "tasks_same w (snd (rc_Get rc k w))" "tasks_same w (snd (rc_Set rc k v ttl w))"
  "tasks_same w (snd (rc_Del rc k w))" "tasks_same w (snd (rc_Publish rc k v w))"
  using redis_ops [where w = w and k = k, OF insertI1]
    redis_ops [where w = w and k = k and v = v and ttl = ttl, OF insertI2 [OF insertI1]]
    redis_ops [where w = w and k = k, OF insertI2 [OF insertI2 [OF insertI1]]]
    redis_ops [where w = w and k = k and v = v, OF insertI2 [OF insertI2 [OF insertI2 [OF insertI1]]]]
    redis_apart [where w = w and k = k, OF _ insertI1]
    redis_apart [where w = w and k = k and v = v and ttl = ttl, OF _ insertI2 [OF insertI1]]
    redis_apart [where w = w and k = k, OF _ insertI2 [OF insertI2 [OF insertI1]]]
    publish_apart [of w _ k v, OF _ refl]
  by (simp_all add: tasks_same_def settings_same_def)

lemma redis_keys:
  "keys_same K w (snd (rc_Get rc k w))" "k \<notin> K \<Longrightarrow> keys_same K w (snd (rc_Set rc k v ttl w))"
  "k \<notin> K \<Longrightarrow> keys_same K w (snd (rc_Del rc k w))" "keys_same K w (snd (rc_Publish rc c v w))"
proof -
  have "rc_Get rc k w = (a, w1) \<Longrightarrow> kv w1 = kv w" for a w1 by (rule redis_store.get_same [OF redis])
  then show "keys_same K w (snd (rc_Get rc k w))"
    unfolding keys_same_def by (metis prod.collapse)
  have "rc_Publish rc c v w = (a, w1) \<Longrightarrow> kv w1 = kv w" for a w1 by (rule redis_store.publish_same [OF redis])
  then show "keys_same K w (snd (rc_Publish rc c v w))"
    unfolding keys_same_def by (metis prod.collapse)
  have "rc_Set rc k v ttl w = (a, w1) \<Longrightarrow> kv w1 = kv w \<or> kv w1 = (kv w)(k \<mapsto> v)" for a w1
    using redis_store.set_ok [OF redis] redis_store.set_err [OF redis] by (cases a) blast+
  then have "kv (snd (rc_Set rc k v ttl w)) = kv w \<or> kv (snd (rc_Set rc k v ttl w)) = (kv w)(k \<mapsto> v)"
    by (metis prod.collapse)
  then show "k \<notin> K \<Longrightarrow> keys_same K w (snd (rc_Set rc k v ttl w))" by (auto simp: keys_same_def)
  have "rc_Del rc k w = (a, w1) \<Longrightarrow> kv w1 = kv w \<or> kv w1 = (kv w)(k := None)" for a w1
    using redis_store.del_ok [OF redis] redis_store.del_err [OF redis] by (cases a) blast+
  then have "kv (snd (rc_Del rc k w)) = kv w \<or> kv (snd (rc_Del rc k w)) = (kv w)(k := None)"
    by (metis prod.collapse)
  then show "k \<notin> K \<Longrightarrow> keys_same K w (snd (rc_Del rc k w))" by (auto simp: keys_same_def)
qed

lemma clock_calls: "settings_same w (snd (now w))" "tasks_same w (snd (now w))" "keys_same K w (snd (now w))"
  using clock_settings [of w "fst (now w)" "snd (now w)"] clock [of w "fst (now w)" "snd (now w)"]
    clock_kv [of w "fst (now w)" "snd (now w)"]
  by (simp_all add: settings_same_def tasks_same_def keys_same_def)

section \<open>The services in the world\<close>

text \<open>Task events leave the settings and Redis alone, user and settings events the tasks and
  Redis.\<close>

lemma task_event_frame:
  assumes "task_Apply (as_task_storage st) ev w = Some (r, w')"
  shows "settings_same w w'" "keys_same K w w'"
proof -
  show "settings_same w w'"
    by (rule task_Apply_frame [of settings_same, OF _ _ _ _ _ assms])
      (rule frames_refl | erule (1) frames_trans | simp add: as_task_storage_def task_calls)+
  show "keys_same K w w'"
    by (rule task_Apply_frame [of "keys_same K", OF _ _ _ _ _ assms])
      (rule frames_refl | erule (1) frames_trans | simp add: as_task_storage_def task_calls)+
qed

lemma user_event_frame:
  assumes "user_Apply (as_user_storage st) ev w = (r, w')"
  shows "tasks_same w w'" "keys_same K w w'"
proof -
  show "tasks_same w w'"
    by (rule user_Apply_frame [of tasks_same, OF _ _ _ _ _ _ assms])
      (rule frames_refl | erule (1) frames_trans | simp add: as_user_storage_def settings_calls)+
  show "keys_same K w w'"
    by (rule user_Apply_frame [of "keys_same K", OF _ _ _ _ _ _ assms])
      (rule frames_refl | erule (1) frames_trans | simp add: as_user_storage_def settings_calls)+
qed

end

lemma cacheKey_inj: "cacheKey u p = cacheKey v p \<longleftrightarrow> u = v"
  by (simp add: cacheKey_def)

lemma cacheKey_kinds: "cacheKey u tasksCachePrefix \<noteq> cacheKey v settingsCachePrefix"
  by (simp add: cacheKey_def tasksCachePrefix_def settingsCachePrefix_def append_eq_append_conv)

lemma fresh_entry_key:
  "kv' (cacheKey u tasksCachePrefix) = kv (cacheKey u tasksCachePrefix) \<Longrightarrow>
   fresh_entry ls kv' u n \<longleftrightarrow> fresh_entry ls kv u n"
  by (simp add: fresh_entry_def)

context updater_world
begin

lemma GetUserSettings_settings: "settings_same w (snd (GetUserSettings st i w))"
proof -
  have az: "azure_table (st_settingsTable st) stbl sissued sinv" by (rule settings_table.azure [OF settings])
  obtain r w' where get: "GetEntity (st_settingsTable st) i i w = (r, w')" by fastforce
  have "sinv w' \<and> stbl w' = stbl w" if "sinv w"
  proof (cases r)
    case (Inl e)
    with azure_table.get_err [OF az that] get show ?thesis by blast
  next
    case (Inr x)
    with azure_table.get_ok [OF az that, of i i "fst x" "snd x" w'] get show ?thesis by simp
  qed
  with get show ?thesis unfolding storage_worlds settings_same_def by simp
qed

text \<open>An applied or refused event.\<close>

lemma orch_Apply_law:
  assumes "sys_ok w" "event_ok ev"
  shows "\<exists>r w'. orch_Apply (NewOrchestrator st) ev w = Some (r, w') \<and> sys_ok w' \<and> keys_same K w w' \<and>
    (if r = None then event_effect tbl stbl ev w w'
     else task_view (tbl w') = task_view (tbl w) \<and> settings_view (stbl w') = settings_view (stbl w))"
proof -
  consider (task) "ev_EntityType ev = ''task''"
    | (user) "ev_EntityType ev \<noteq> ''task''" "ev_EntityType ev = ''user'' \<or> ev_EntityType ev = ''user-settings''"
    | (other) "ev_EntityType ev \<notin> {''task'', ''user'', ''user-settings''}" by auto
  then show ?thesis
  proof cases
    case task
    have "azure_table (st_taskTable st) tbl issued tinv"
      using listing by (rule azure_listing.axioms)
    moreover have "tinv w" "task_table_ok (tbl w)" using assms(1) by (simp_all add: tables_ok_def)
    ultimately obtain r w' where app: "task_Apply (as_task_storage st) ev w = Some (r, w')"
      and w': "tinv w'" "task_table_ok (tbl w')" "task_outcome ev (task_view (tbl w)) r (task_view (tbl w'))"
      using assms(2) by (rule azure_task_Apply)
    from task_event_frame(1) [OF app] task_event_frame(2) [OF app, of K] app w' task assms(1) show ?thesis
      by (auto simp: orch_Apply_def NewOrchestrator_def tables_ok_def settings_same_def event_effect_def
          task_outcome_def split: option.splits)
  next
    case user
    obtain r w' where app: "user_Apply (as_user_storage st) ev w = (r, w')" by fastforce
    from azure_user_Apply [OF settings _ _ assms(2) app] assms(1)
    have w': "sinv w'" "settings_table_ok (stbl w')"
      "settings_outcome ev (settings_view (stbl w)) r (settings_view (stbl w'))" by (auto simp: tables_ok_def)
    from user_event_frame(1) [OF app] user_event_frame(2) [OF app, of K] app w' user assms(1) show ?thesis
      by (auto simp: orch_Apply_def NewOrchestrator_def tables_ok_def tasks_same_def event_effect_def
          settings_outcome_def split: option.splits)
  next
    case other
    with assms(1) show ?thesis by (auto simp: orch_Apply_def)
  qed
qed

text \<open>The refreshes and the publication.\<close>

lemma refresh_frames:
  assumes "updater_uses st rc now cu n"
  shows "settings_same w (RefreshTasks (Some cu) user e ts w)"
    "settings_same w (RefreshSettings (Some cu) user ts w)" "tasks_same w (RefreshSettings (Some cu) user ts w)"
    "cacheKey user settingsCachePrefix \<notin> K \<Longrightarrow> keys_same K w (RefreshSettings (Some cu) user ts w)"
proof -
  have cu: "cu_store cu = Some (as_cache_store st)" "cu_redis cu = Some rc" "cu_now cu = now"
    using assms by (simp_all add: updater_uses_def)
  show "settings_same w (RefreshTasks (Some cu) user e ts w)"
    by (rule RefreshTasks_frame [of settings_same, OF _ _ _ _ _ _ cu(1,2)])
      (rule frames_refl | erule (1) frames_trans | simp add: as_cache_store_def task_calls redis_calls clock_calls cu)+
  show "settings_same w (RefreshSettings (Some cu) user ts w)"
    by (rule RefreshSettings_frame [of settings_same, OF _ _ _ _ _ _ cu(1,2)])
      (rule frames_refl | erule (1) frames_trans
        | simp add: as_cache_store_def GetUserSettings_settings redis_calls clock_calls cu)+
  show "tasks_same w (RefreshSettings (Some cu) user ts w)"
    by (rule RefreshSettings_frame [of tasks_same, OF _ _ _ _ _ _ cu(1,2)])
      (rule frames_refl | erule (1) frames_trans
        | simp add: as_cache_store_def settings_calls redis_calls clock_calls cu)+
  assume "cacheKey user settingsCachePrefix \<notin> K"
  then show "keys_same K w (RefreshSettings (Some cu) user ts w)"
    by (intro RefreshSettings_frame [of "keys_same K", OF _ _ _ _ _ _ cu(1,2)])
      (rule frames_refl | erule (1) frames_trans
        | simp add: as_cache_store_def settings_calls redis_keys clock_calls cu)+
qed

lemma after_apply_law:
  assumes "sys_ok w" "event_ok ev" "CHR 0x27 \<notin> set (ev_UserID ev)" "updater_uses st rc now cu n"
    "w' = after_apply (Some cu) rc tc sc ev payload w"
  shows "sys_ok w'" "tbl w' = tbl w" "stbl w' = stbl w"
    "kv w' (cacheKey u tasksCachePrefix) = kv w (cacheKey u tasksCachePrefix) \<or>
     u = ev_UserID ev \<and> fresh_entry (lister w') (kv w') u n"
proof -
  let ?k = "cacheKey u tasksCachePrefix"
  define w1 where "w1 = (if ev_EntityType ev = ''task''
      then RefreshTasks (Some cu) (ev_UserID ev) (ev_EntityID ev) (ev_Timestamp ev) w
      else if ev_EntityType ev = ''user-settings'' then RefreshSettings (Some cu) (ev_UserID ev) (ev_Timestamp ev) w else w)"
  define c where "c = (if ev_EntityType ev = ''user-settings'' then sc else tc)"
  have w': "w' = snd (rc_Publish rc c payload w1)" by (simp add: assms(5) after_apply_def w1_def c_def Let_def)
  have "in_i64 (ev_Timestamp ev)" using assms(2) by (simp add: event_ok_def)
  note fresh = RefreshTasks_fresh [OF _ _ assms(3,4) this, where w = w and e = "ev_EntityID ev"]
  have tasks: "tasks_same w w1" and sets: "settings_same w w1"
    using refresh_frames [OF assms(4)] fresh(1) assms(1)
    by (auto simp: w1_def tasks_same_def same_table_def tables_ok_def)
  have key: "kv w1 ?k = kv w ?k \<or> u = ev_UserID ev \<and> fresh_entry (lister w1) (kv w1) u n"
  proof (cases "ev_EntityType ev = ''task''")
    case True
    then have "w1 = RefreshTasks (Some cu) (ev_UserID ev) (ev_EntityID ev) (ev_Timestamp ev) w" by (simp add: w1_def)
    moreover have "tinv w" "task_table_ok (tbl w)" using assms(1) by (simp_all add: tables_ok_def)
    ultimately show ?thesis
      using fresh(2) fresh(3) [where k = ?k] cacheKey_inj [of u tasksCachePrefix "ev_UserID ev"] by auto
  next
    case False
    then show ?thesis
      using refresh_frames(4) [OF assms(4), of "ev_UserID ev" "{?k}" w "ev_Timestamp ev"]
        cacheKey_kinds [of u "ev_UserID ev"] by (auto simp: w1_def keys_same_def)
  qed
  have pub: "tasks_same w1 w'" "settings_same w1 w'" "keys_same UNIV w1 w'"
    unfolding w' by (rule redis_calls redis_keys)+
  with tasks sets show "sys_ok w'" "tbl w' = tbl w" "stbl w' = stbl w"
    using assms(1) by (auto simp: tasks_same_def settings_same_def tables_ok_def)
  have "kv w' = kv w1" using pub(3) by (auto simp: keys_same_def)
  moreover have "lister w' = lister w1"
    using pub(1) tasks assms(1) by (auto simp: tasks_same_def tables_ok_def)
  ultimately show "kv w' ?k = kv w ?k \<or> u = ev_UserID ev \<and> fresh_entry (lister w') (kv w') u n"
    using key by simp
qed

text \<open>A request with an event.\<close>

theorem delivery_law:
  assumes "sys_ok w" "updater_uses st rc now cu n" "plain_user bnd req"
  shows "\<exists>status body w'. update_handler bnd (orch_Apply (NewOrchestrator st)) (Some cu) rc tc sc req w
      = Some ((status, body), w') \<and> sys_ok w' \<and>
    (\<forall>u. kv w' (cacheKey u tasksCachePrefix) = kv w (cacheKey u tasksCachePrefix) \<or> fresh_entry (lister w') (kv w') u n) \<and>
    (status = 200 \<and> (\<exists>raw ev. bnd req = Inr raw \<and> unmarshal_text decode_event (unquote_payload raw) = Inr ev \<and>
        event_effect tbl stbl ev w w' \<and> (\<forall>u. u \<noteq> ev_UserID ev \<longrightarrow>
          kv w' (cacheKey u tasksCachePrefix) = kv w (cacheKey u tasksCachePrefix))) \<or>
     status = 400 \<and> task_view (tbl w') = task_view (tbl w) \<and> settings_view (stbl w') = settings_view (stbl w) \<and>
       kv w' = kv w)"
proof (cases "\<exists>raw ev. bnd req = Inr raw \<and> unmarshal_text decode_event (unquote_payload raw) = Inr ev")
  case False
  then have "update_handler bnd (orch_Apply (NewOrchestrator st)) (Some cu) rc tc sc req w = Some ((400, ''''), w)"
    by (auto simp: update_handler_def Let_def split: sum.splits)
  with assms(1) show ?thesis by auto
next
  case True
  then obtain raw ev where ev: "bnd req = Inr raw" "unmarshal_text decode_event (unquote_payload raw) = Inr ev" by blast
  note ok = unmarshal_event_ok [OF ev(2)]
  have plain: "CHR 0x27 \<notin> set (ev_UserID ev)" using assms(3) ev by (simp add: plain_user_def)
  obtain r w1 where app: "orch_Apply (NewOrchestrator st) ev w = Some (r, w1)" and w1: "sys_ok w1" "keys_same UNIV w w1"
    "if r = None then event_effect tbl stbl ev w w1
     else task_view (tbl w1) = task_view (tbl w) \<and> settings_view (stbl w1) = settings_view (stbl w)"
    using orch_Apply_law [OF assms(1) ok, of UNIV] by blast
  have kv1: "kv w1 = kv w" using w1(2) by (auto simp: keys_same_def)
  show ?thesis
  proof (cases r)
    case None
    define w' where "w' = after_apply (Some cu) rc tc sc ev (unquote_payload raw) w1"
    have h: "update_handler bnd (orch_Apply (NewOrchestrator st)) (Some cu) rc tc sc req w = Some ((200, outputs_body), w')"
      using ev app None by (simp add: update_handler_def processEvent_def Let_def w'_def)
    note law = after_apply_law [OF w1(1) ok plain assms(2) w'_def]
    have "event_effect tbl stbl ev w w'"
      using w1(3) None law(2,3) by (simp add: event_effect_def)
    with h law(1) law(4) kv1 ev show ?thesis by (intro exI [of _ 200] exI [of _ outputs_body] exI [of _ w']) metis
  next
    case (Some e)
    then have "update_handler bnd (orch_Apply (NewOrchestrator st)) (Some cu) rc tc sc req w = Some ((400, ''''), w1)"
      using ev app by (simp add: update_handler_def processEvent_def Let_def)
    with w1 kv1 Some show ?thesis by auto
  qed
qed

end

section \<open>The whole read path\<close>

text \<open>Updater and API of one deployment. \<open>'r\<close> is the type of the requests with events.\<close>

record ('w, 'r) deployment =
  dp_storage :: "'w rmu_storage"
  dp_updater :: "'w cache_updater"
  dp_redis :: "'w redis_client"
  dp_tasksChannel :: string
  dp_settingsChannel :: string
  dp_bind :: "'r \<Rightarrow> go_error + string"
  dp_sonic :: sonic
  dp_api :: "'w api_storage"

definition deployment_ok :: "('w, 'r) deployment \<Rightarrow> 'w rmu_storage \<Rightarrow> 'w redis_client \<Rightarrow> ('w \<Rightarrow> datetime \<times> 'w) \<Rightarrow> nat \<Rightarrow> bool" where
  "deployment_ok d st rc now n \<longleftrightarrow> dp_storage d = st \<and> dp_redis d = rc \<and> updater_uses st rc now (dp_updater d) n \<and>
     api_uses st rc (dp_api d) n \<and> sa_settingsTable (dp_api d) = st_settingsTable st \<and> sonic_std (dp_sonic d)"

definition dp_handle :: "('w, 'r) deployment \<Rightarrow> 'r \<Rightarrow> 'w \<Rightarrow> ((int \<times> string) \<times> 'w) option" where
  "dp_handle d req w =
     update_handler (dp_bind d) (orch_Apply (NewOrchestrator (dp_storage d))) (Some (dp_updater d)) (dp_redis d)
       (dp_tasksChannel d) (dp_settingsChannel d) req w"

text \<open>The second component collects the earlier worlds of the execution.\<close>

inductive sys_step ::
  "('w, 'r) deployment \<Rightarrow> ('w \<Rightarrow> 'w \<Rightarrow> bool) \<Rightarrow> 'w \<times> 'w list \<Rightarrow> 'w \<times> 'w list \<Rightarrow> bool" for d env where
  sys_deliver: "plain_user (dp_bind d) req \<Longrightarrow> dp_handle d req w = Some (ans, w') \<Longrightarrow> sys_step d env (w, h) (w', w # h)"
| sys_tasks: "CHR 0x27 \<notin> set user \<Longrightarrow> FetchTasks (dp_sonic d) (dp_api d) user token limit w = (res, w') \<Longrightarrow>
     sys_step d env (w, h) (w', w # h)"
| sys_settings: "FetchSettings (dp_sonic d) (dp_api d) user w = (sres, w') \<Longrightarrow> sys_step d env (w, h) (w', w # h)"
| sys_env: "env w w' \<Longrightarrow> sys_step d env (w, h) (w', w # h)"

inductive_cases sys_stepE: "sys_step d env (w, h) s"

context updater_world
begin

lemma FetchSettings_frames:
  assumes "api_uses st rc api n" "sa_settingsTable api = st_settingsTable st" "FetchSettings sn api user w = (res, w')"
  shows "tasks_same w w'" "settings_same w w'" "keys_same K w w'"
proof -
  let ?key = "api_cacheKey user api_settingsCachePrefix"
  obtain rep w1 where get: "rc_Get rc ?key w = (rep, w1)" by fastforce
  obtain r w2 where ge: "GetEntity (st_settingsTable st) user user w1 = (r, w2)" by fastforce
  have "w' = w1 \<or> w' = w2"
    using assms get ge
    by (auto simp: FetchSettings_def loadSettingsFromCache_def api_uses_def
        split: redis_reply.splits sum.splits prod.splits option.splits)
  moreover have "tasks_same w w1" "settings_same w w1" "keys_same K w w1"
    using redis_calls(5) [of w ?key] redis_calls(1) [of w ?key] redis_keys(1) [of K w ?key] get by simp_all
  moreover have "tasks_same w1 w2" "keys_same K w1 w2" "settings_same w1 w2"
    using settings_client(1) [of w1 user user K] GetUserSettings_settings [of w1 user, unfolded storage_worlds] ge by simp_all
  ultimately show "tasks_same w w'" "settings_same w w'" "keys_same K w w'"
    using frames_trans by blast+
qed

lemma FetchTasks_frames:
  assumes "sys_ok w" "CHR 0x27 \<notin> set user" "api_uses st rc api n" "FetchTasks sn api user token limit w = (res, w')"
  shows "tasks_same w w'" "settings_same w w'" "kv w' = kv w"
proof -
  have "tinv w" using assms(1) by (simp add: tables_ok_def)
  from FetchTasks_same [OF this assms(2-4)] show "tasks_same w w'" "kv w' = kv w"
    by (simp_all add: same_table_def tasks_same_def)
  have direct: "settings_same v v'" if "fetch_direct sn api user token m v = (r, v')" for r m v v'
  proof (cases "decodeContinuationToken (sn_token sn) token")
    case (Inl e)
    with that show ?thesis by (simp add: fetch_direct_def)
  next
    case (Inr pos)
    then have "v' = snd (ListPage (st_taskTable st) (partition_filter user) apiSelectClause m (fst pos) (snd pos) v)"
      using that assms(3)
      by (auto simp: fetch_direct_def api_uses_def split: prod.splits option.splits sum.splits)
    then show ?thesis using task_client(4) by simp
  qed
  have cached: "settings_same w v" if "fetchTasksFromCache sn api user token m w = (r, v)" for r m v
  proof -
    have "v = snd (rc_Get rc (api_cacheKey user api_tasksCachePrefix) w)"
      using that assms(3)
      by (auto simp: fetchTasksFromCache_def loadTasksFromCache_def api_uses_def
          split: redis_reply.splits sum.splits prod.splits if_splits option.splits)
    then show ?thesis using redis_calls(1) by simp
  qed
  let ?m = "resolveTaskPageSize limit (sa_taskPageSize api)"
  obtain r1 w1 where fc: "fetchTasksFromCache sn api user token ?m w = (r1, w1)" by fastforce
  have "(r1 \<noteq> None \<and> w' = w1) \<or> fetch_direct sn api user token ?m w1 = (res, w') \<or>
      fetch_direct sn api user token ?m w = (res, w')"
    using assms(4) fc by (cases r1) (auto simp: FetchTasks_def Let_def split: if_splits)
  then show "settings_same w w'" using cached [OF fc] direct frames_trans(2) by blast
qed

definition sys_inv :: "nat \<Rightarrow> 'w \<times> 'w list \<Rightarrow> bool" where
  "sys_inv n s \<longleftrightarrow> (case s of (w, h) \<Rightarrow> (\<forall>v \<in> set (w # h). sys_ok v) \<and>
     (\<forall>u. \<exists>v \<in> set (w # h). fresh_entry (lister v) (kv w) u n))"

lemma sys_inv_snoc:
  assumes "sys_inv n (w, h)" "sys_ok w'"
    "\<And>u. kv w' (cacheKey u tasksCachePrefix) \<in> {None, kv w (cacheKey u tasksCachePrefix)} \<or>
       fresh_entry (lister w') (kv w') u n"
  shows "sys_inv n (w', w # h)"
proof -
  have "\<exists>v \<in> set (w' # w # h). fresh_entry (lister v) (kv w') u n" for u
  proof (cases "fresh_entry (lister w') (kv w') u n")
    case False
    then have "kv w' (cacheKey u tasksCachePrefix) = kv w (cacheKey u tasksCachePrefix)"
      using assms(3) [of u] by (auto simp: fresh_entry_def)
    from fresh_entry_key [of "kv w'" u "kv w", OF this] show ?thesis using assms(1) by (auto simp: sys_inv_def)
  qed auto
  with assms(1,2) show ?thesis by (auto simp: sys_inv_def)
qed

lemma sys_step_inv:
  assumes "deployment_ok d st rc now n" "sys_step d env s t" "sys_inv n s"
  shows "sys_inv n t"
proof -
  obtain w h where s: "s = (w, h)" by (cases s)
  have ok: "sys_ok w" using assms(3) by (simp add: s sys_inv_def)
  note d = assms(1) [unfolded deployment_ok_def]
  have api: "api_uses st rc (dp_api d) n" "sa_settingsTable (dp_api d) = st_settingsTable st"
    and upd: "updater_uses st rc now (dp_updater d) n" using d by auto
  have same: "\<exists>w'. t = (w', w # h) \<and> sys_ok w' \<and> (\<forall>u. kv w' (cacheKey u tasksCachePrefix)
      \<in> {None, kv w (cacheKey u tasksCachePrefix)} \<or> fresh_entry (lister w') (kv w') u n)"
    if "t = (w', w # h)" "tasks_same w w'" "settings_same w w'" "kv w' \<subseteq>\<^sub>m kv w" for w'
  proof -
    have "kv w' k \<in> {None, kv w k}" for k
      using that(4) by (cases "kv w' k") (auto simp: map_le_def dom_def)
    with that sys_ok_same [OF ok] show ?thesis by blast
  qed
  from assms(2) [unfolded s]
  have "\<exists>w'. t = (w', w # h) \<and> sys_ok w' \<and> (\<forall>u. kv w' (cacheKey u tasksCachePrefix)
      \<in> {None, kv w (cacheKey u tasksCachePrefix)} \<or> fresh_entry (lister w') (kv w') u n)"
  proof (rule sys_stepE)
    fix req ans w'
    assume t: "t = (w', w # h)" and req: "plain_user (dp_bind d) req" "dp_handle d req w = Some (ans, w')"
    from delivery_law [OF ok upd req(1), of "dp_tasksChannel d" "dp_settingsChannel d"] req(2) d
    have "sys_ok w'" "\<forall>u. kv w' (cacheKey u tasksCachePrefix) = kv w (cacheKey u tasksCachePrefix) \<or>
      fresh_entry (lister w') (kv w') u n" by (auto simp: dp_handle_def)
    with t show ?thesis by blast
  next
    fix user token limit res w'
    assume t: "t = (w', w # h)" and ft: "CHR 0x27 \<notin> set user"
      "FetchTasks (dp_sonic d) (dp_api d) user token limit w = (res, w')"
    from FetchTasks_frames [OF ok ft(1) api(1) ft(2)] show ?thesis by (intro same [OF t]) simp_all
  next
    fix user sres w'
    assume t: "t = (w', w # h)" and fs: "FetchSettings (dp_sonic d) (dp_api d) user w = (sres, w')"
    have "kv w' = kv w" using FetchSettings_frames(3) [OF api fs, of UNIV] by (auto simp: keys_same_def)
    with FetchSettings_frames(1,2) [OF api fs] show ?thesis by (intro same [OF t]) simp_all
  next
    fix w'
    assume t: "t = (w', w # h)" and "env w w'"
    from env_law [OF \<open>env w w'\<close>] show ?thesis
      by (intro same [OF t]) (simp_all add: tasks_same_def settings_same_def)
  qed
  then show ?thesis using sys_inv_snoc [of n w h] assms(3) by (auto simp: s)
qed

end

sublocale updater_world \<subseteq> sys: guarded_system "sys_step d env" "\<lambda>s. deployment_ok d st rc now n \<and> sys_inv n s" for d n
  by unfold_locales (use sys_step_inv in blast)

context updater_world
begin

lemma sys_reach:
  assumes "deployment_ok d st rc now n" "sys_ok w0" "\<And>u. fresh_entry (lister w0) (kv w0) u n"
    "(sys_step d env)\<^sup>*\<^sup>* (w0, []) s"
  shows "sys_inv n s"
  using sys.reach_inv [OF assms(4), of n] assms(1-3) by (auto simp: sys_inv_def)

text \<open>Whatever arrives, the tables stay well-formed.\<close>

theorem tables_stay_ok:
  assumes "deployment_ok d st rc now n" "sys_ok w0" "\<And>u. fresh_entry (lister w0) (kv w0) u n"
    "(sys_step d env)\<^sup>*\<^sup>* (w0, []) (w, h)"
  shows "sys_ok w"
  using sys_reach [OF assms] by (simp add: sys_inv_def)

text \<open>Every page that the API returns is a page of the table at some time of the execution.\<close>

theorem reads_from_history:
  assumes "deployment_ok d st rc now n" "sys_ok w0" "\<And>u. fresh_entry (lister w0) (kv w0) u n"
    "(sys_step d env)\<^sup>*\<^sup>* (w0, []) (w, h)" "CHR 0x27 \<notin> set user"
    "FetchTasks (dp_sonic d) (dp_api d) user token limit w = (Inr res, w')"
  shows "\<exists>v \<in> set (w # h). \<exists>pos. decodeContinuationToken (sn_token (dp_sonic d)) token = Inr pos \<and>
    res = table_page (lister v) user (resolveTaskPageSize limit (int n)) pos"
proof -
  have d: "api_uses st rc (dp_api d) n" "sonic_std (dp_sonic d)" using assms(1) by (simp_all add: deployment_ok_def)
  from sys_reach [OF assms(1-4)] have ok: "\<forall>v \<in> set (w # h). sys_ok v"
    and "\<exists>v \<in> set (w # h). fresh_entry (lister v) (kv w) user n" by (simp_all add: sys_inv_def)
  then obtain v where v: "v \<in> set (w # h)" "fresh_entry (lister v) (kv w) user n" by blast
  have "tinv w" "task_table_ok (tbl w)" "tinv v" using ok v(1) by (auto simp: tables_ok_def)
  from FetchTasks_snapshot [OF this(1,2) assms(5) d(2,1) this(3) v(2) assms(6)] v(1) show ?thesis by auto
qed

end

end
