(* ===== verification/Settings_Concurrency.thy ===== *)
theory Settings_Concurrency
  imports User_Service
begin

text \<open>
  \<open>UserService.Apply\<close> (\<open>read-model-updater/domain/user_service.go\<close>) cut at its calls of the storage,
  like the task service in \<open>Task_Concurrency\<close>. The settings are merged without an ETag
  (\<open>UpdateUserSettings\<close> of \<open>read-model-updater/storage/storage.go\<close>), so the staleness check and the
  write are not one step: the lemmas show that run alone the steps are \<open>user_Apply\<close>, and what two
  handlers do to each other.
\<close>

section \<open>One handler, call by call\<close>

datatype user_pc =
    UpStart
  | UpUser user_entity
  | UpUpsert user_settings_entity
  | UpUpdate user_settings_update
  | UpDone "go_error option"

definition user_first_step :: "'w user_storage \<Rightarrow> event \<Rightarrow> 'w \<Rightarrow> user_pc \<times> 'w" where
  "user_first_step st ev w =
     (if ev_Type ev = UserCreated then
        (case unmarshal_raw decode_user_event_data (ev_Data ev) of
           Inl e \<Rightarrow> (UpDone (Some e), w)
         | Inr d \<Rightarrow> (UpUser (user_of_event ev d), w))
      else if ev_Type ev = UserLoggedIn \<or> ev_Type ev = UserLoggedOut then (UpDone None, w)
      else if ev_Type ev = UserSettingsCreated then
        (case unmarshal_raw decode_user_settings (ev_Data ev) of
           Inl e \<Rightarrow> (UpDone (Some e), w)
         | Inr d \<Rightarrow>
             (case us_GetUserSettings st (ev_EntityID ev) w of
                (Inl e, w1) \<Rightarrow> (UpDone (Some e), w1)
              | (Inr (Some _), w1) \<Rightarrow> (UpDone (Some (settings_err ev ''already exists'')), w1)
              | (Inr None, w1) \<Rightarrow> (UpUpsert (created_settings ev d), w1)))
      else if ev_Type ev = UserSettingsUpdated then
        (case unmarshal_raw decode_user_settings_updated (ev_Data ev) of
           Inl e \<Rightarrow> (UpDone (Some e), w)
         | Inr d \<Rightarrow>
             (case us_GetUserSettings st (ev_EntityID ev) w of
                (Inl e, w1) \<Rightarrow> (UpDone (Some e), w1)
              | (Inr None, w1) \<Rightarrow> (UpUpsert (initial_settings ev d), w1)
              | (Inr (Some ent), w1) \<Rightarrow>
                  (if ev_Timestamp ev \<le> se_EventTimestamp ent
                   then UpDone (Some (settings_err ev ''received stale update''))
                   else if uu_TasksPerCategory d \<noteq> None \<or> uu_ShowDoneTasks d \<noteq> None
                   then UpUpdate (settings_update_of ev d)
                   else UpDone (Some (settings_err ev ''update had no fields'')), w1)))
      else (UpDone (Some (ErrText (''unknown user event '' @ ev_Type ev))), w))"

fun user_step :: "'w user_storage \<Rightarrow> event \<Rightarrow> user_pc \<Rightarrow> 'w \<Rightarrow> user_pc \<times> 'w" where
  "user_step st ev UpStart w = user_first_step st ev w"
| "user_step st ev (UpUser u) w = (case us_UpsertUser st u w of (r, w1) \<Rightarrow> (UpDone r, w1))"
| "user_step st ev (UpUpsert s) w = (case us_UpsertUserSettings st s w of (r, w1) \<Rightarrow> (UpDone r, w1))"
| "user_step st ev (UpUpdate u) w = (case us_UpdateUserSettings st u w of (r, w1) \<Rightarrow> (UpDone r, w1))"
| "user_step st ev (UpDone r) w = (UpDone r, w)"

text \<open>Two steps are a whole call.\<close>

theorem user_Apply_steps:
  "user_Apply st ev w = (r, w') \<longleftrightarrow>
   (case user_step st ev UpStart w of (pc, w1) \<Rightarrow> user_step st ev pc w1) = (UpDone r, w')"
  by (auto simp: user_Apply_def apply_user_created_def apply_settings_created_def apply_settings_updated_def
      user_first_step_def settings_update_of_def Let_def split: if_splits sum.splits option.splits prod.splits)

section \<open>Two handlers\<close>

context settings_store
begin

lemma update_start:
  assumes "inv w" "user_step usvc ev UpStart w = (UpUpdate u, w1)"
  shows "inv w1" "view w1 = view w" "su_PartitionKey u = ev_EntityID ev"
    "su_EventTimestamp u = Some (ev_Timestamp ev)" "event_ok ev \<Longrightarrow> settings_update_ok u"
proof -
  obtain r where get: "get (ev_EntityID ev) w = (r, w1)"
    and u: "\<exists>d. unmarshal_raw decode_user_settings_updated (ev_Data ev) = Inr d \<and> u = settings_update_of ev d"
    using assms(2) by (auto simp: user_first_step_def split: if_splits sum.splits option.splits prod.splits)
  from get_law [OF assms(1) get] show "inv w1" "view w1 = view w" by simp_all
  from u show "su_PartitionKey u = ev_EntityID ev" "su_EventTimestamp u = Some (ev_Timestamp ev)"
    by (auto simp: settings_update_of_def)
  show "settings_update_ok u" if "event_ok ev" using u settings_update_of_ok(2) [OF that] by blast
qed

text \<open>Both handlers read the settings before either of them writes: the later write wins, even if it
  is the one of the older event.\<close>

lemma update_race:
  assumes "inv w" "event_ok a" "event_ok b" "ev_EntityID a = ev_EntityID b"
    and "user_step usvc a UpStart w = (UpUpdate ua, w1)" "user_step usvc b UpStart w1 = (UpUpdate ub, w2)"
    and "user_step usvc b (UpUpdate ub) w2 = (UpDone None, w3)" "user_step usvc a (UpUpdate ua) w3 = (UpDone None, w4)"
  shows "\<exists>s. view w (ev_EntityID a) = Some s \<and>
    view w4 = (view w)(ev_EntityID a \<mapsto> merge_settings ua (merge_settings ub s)) \<and>
    se_EventTimestamp (merge_settings ua (merge_settings ub s)) = ev_Timestamp a"
proof -
  note a = update_start [OF assms(1,5)]
  note b = update_start [OF a(1) assms(6)]
  have "update ub w2 = (None, w3)" "update ua w3 = (None, w4)"
    using assms(7,8) by (auto split: prod.splits)
  from update_ok [OF b(1) b(5) [OF assms(3)] this(1)] update_ok [OF _ a(5) [OF assms(2)] this(2)] a b assms(4)
  show ?thesis by (auto simp: merge_settings_def)
qed

end

end
