(* ===== verification/Ref_System.thy ===== *)
theory Ref_System
  imports Ref_Read_Model Updater_System Settings_Concurrency
begin

text \<open>
  The reference world as the world of the whole updater: the contracts of listing, of the pages of
  the cache updater and of \<open>Updater_System\<close> hold in it. The sample executions are the inputs of the
  properties about concurrent handlers and about the read path.
\<close>

interpretation ref_listing: azure_listing "st_taskTable ref_storage" "\<lambda>w. rt_tbl (rw_tasks w)"
  "\<lambda>w. rt_issued (rw_tasks w)" "\<lambda>w. rt_inv (rw_tasks w)" "\<lambda>w. rt_lister (rw_tasks w)"
  by (rule ref_read.listing)

interpretation ref_pages: page_source "as_cache_store ref_storage" "''u1''" 2
  "rt_lister (rw_tasks applied_world) ''u1'' (int 2)" "\<lambda>p. row_task (p, '''')"
  "\<lambda>w. ref_read.same_table applied_world w"
  by (rule ref_read.storage_pages) (simp_all add: applied_world_ok)

interpretation ref_versions: versioned_task_store "GetTask ref_storage" "InsertTask ref_storage" "UpdateTask ref_storage"
  "\<lambda>w. task_view (rt_tbl (rw_tasks w))" "\<lambda>w. rt_inv (rw_tasks w) \<and> task_table_ok (rt_tbl (rw_tasks w))"
  "\<lambda>w. rt_issued (rw_tasks w)"
  by (rule azure_versioned [OF ref_tasks.azure])

text \<open>Redis may drop any entry.\<close>

definition ref_expire :: "ref_world \<Rightarrow> ref_world \<Rightarrow> bool" where
  "ref_expire w w' \<longleftrightarrow> (\<exists>k. w' = w\<lparr>rw_redis := (rw_redis w)\<lparr>rr_values := [x \<leftarrow> rr_values (rw_redis w). fst x \<noteq> k]\<rparr>\<rparr>)"

interpretation ref_world: updater_world ref_storage "\<lambda>w. rt_tbl (rw_tasks w)" "\<lambda>w. rt_issued (rw_tasks w)"
  "\<lambda>w. rt_inv (rw_tasks w)" "\<lambda>w. rt_lister (rw_tasks w)" ref_rc "\<lambda>w. map_of (rr_values (rw_redis w))" ref_now
  "\<lambda>w. rt_tbl (rw_settings w)" "\<lambda>w. rt_issued (rw_settings w)" "\<lambda>w. rt_inv (rw_settings w)" ref_expire
proof (rule updater_world.intro [OF ref_read.read_model_axioms], unfold_locales, goal_cases)
  case (1 w' pk rk w body im f sel m npk nrk)
  then show ?case by (auto simp: ref_storage_def ref_client_def Let_def split: prod.splits option.splits if_splits)
next
  case (2 w' pk rk w body im)
  then show ?case by (auto simp: ref_storage_def ref_client_def Let_def split: prod.splits option.splits if_splits)
next
  case (7 w w')
  then show ?case by (auto simp: ref_expire_def map_of_delete map_le_def split: if_splits)
qed (auto simp: ref_rc_def ref_redis_client_def ref_now_def)

definition ref_deployment :: "(ref_world, string) deployment" where
  "ref_deployment = \<lparr>dp_storage = ref_storage, dp_updater = ref_updater, dp_redis = ref_rc,
     dp_tasksChannel = ''tasks'', dp_settingsChannel = ''settings'', dp_bind = unmarshal_text decode_queue_message, dp_sonic = sample_sonic,
     dp_api = ref_api\<rparr>"

lemma ref_deployment_storage:
  "dp_storage ref_deployment = ref_storage" "dp_updater ref_deployment = ref_updater" "dp_redis ref_deployment = ref_rc"
  "dp_tasksChannel ref_deployment = ''tasks''" "dp_settingsChannel ref_deployment = ''settings''"
  by (simp_all add: ref_deployment_def)

lemma ref_deployment_ok: "deployment_ok ref_deployment ref_storage ref_rc ref_now 2"
  by (simp add: deployment_ok_def ref_deployment_def ref_updater_ok ref_api_ok sample_sonic_def std_sonic_std)
    (simp add: ref_api_def)

lemma empty_tables_ok:
  "tables_ok (\<lambda>w. rt_tbl (rw_tasks w)) (\<lambda>w. rt_inv (rw_tasks w)) (\<lambda>w. rt_tbl (rw_settings w))
     (\<lambda>w. rt_inv (rw_settings w)) empty_world"
  by (simp add: tables_ok_def)

lemma empty_fresh: "fresh_entry ls (map_of (rr_values (rw_redis empty_world))) u n"
  by (simp add: fresh_entry_def empty_redis_def)

section \<open>Sample executions\<close>

fun tp_succeeded :: "task_pc \<Rightarrow> bool" where
  "tp_succeeded (TpDone None) = True"
| "tp_succeeded _ = False"

lemma tp_succeeded_iff [simp]: "tp_succeeded pc \<longleftrightarrow> pc = TpDone None"
  by (cases pc rule: tp_succeeded.cases) auto

text \<open>Two updates of the same task, and one event delivered twice.\<close>

definition sample_reopened :: event where
  "sample_reopened = sample_completed\<lparr>ev_ID := ''e4'', ev_Type := TaskReopened\<rparr>"

definition sample_late :: event where
  "sample_late = sample_completed\<lparr>ev_Timestamp := 30\<rparr>"

lemma sample_concurrent_ok [simp]: "event_ok sample_reopened" "event_ok sample_late"
  by (simp_all add: event_ok_def sample_reopened_def sample_late_def sample_completed_def in_i64_def)

definition sample_race :: "ref_world conc" where
  "sample_race = conc_run (as_task_storage ref_storage) [sample_late, sample_reopened] [0, 1, 1, 0]
     (conc_init applied_world [sample_late, sample_reopened])"

definition sample_twice :: "ref_world conc" where
  "sample_twice = conc_run (as_task_storage ref_storage) [sample_completed, sample_completed] [0, 1, 1, 0]
     (conc_init applied_world [sample_completed, sample_completed])"

text \<open>In both executions the second handler writes between the read and the write of the first, which
  meets a conflict.\<close>

lemma sample_race_end: "(case snd sample_race of (pcs, log) \<Rightarrow> (map tp_succeeded pcs, log)) = ([False, True], [1])"
  by code_simp

lemma sample_twice_end: "map tp_succeeded (fst (snd sample_twice)) = [False, True]"
  by code_simp

text \<open>Two updates of the settings of a user.\<close>

definition sample_settings_a :: event where
  "sample_settings_a = sample_settings\<lparr>ev_Timestamp := 20, ev_Data := Some (JObj [(''tasksPerCategory'', JNum ''7'')])\<rparr>"

definition sample_settings_b :: event where
  "sample_settings_b = sample_settings\<lparr>ev_Timestamp := 30, ev_Data := Some (JObj [(''tasksPerCategory'', JNum ''9'')])\<rparr>"

lemma sample_settings_ok [simp]: "event_ok sample_settings_a" "event_ok sample_settings_b"
  by (simp_all add: event_ok_def sample_settings_a_def sample_settings_b_def sample_settings_def in_i64_def)

definition settings_world :: ref_world where
  "settings_world = snd (user_Apply (as_user_storage ref_storage) sample_settings empty_world)"

lemma settings_world_ok:
  "rt_inv (rw_settings settings_world)" "settings_table_ok (rt_tbl (rw_settings settings_world))"
  using azure_user_Apply [OF ref_settings.settings_table_axioms, of empty_world sample_settings "fst (user_Apply (as_user_storage ref_storage) sample_settings empty_world)" settings_world]
  by (auto simp: settings_world_def prod_eq_iff)

text \<open>Both handlers read, the newer event is written, then the older one.\<close>

definition settings_race ::
  "(user_pc \<times> ref_world) \<times> (user_pc \<times> ref_world) \<times> (user_pc \<times> ref_world) \<times> (user_pc \<times> ref_world)" where
  "settings_race =
     (let st = as_user_storage ref_storage;
          a1 = user_step st sample_settings_a UpStart settings_world;
          b1 = user_step st sample_settings_b UpStart (snd a1);
          b2 = user_step st sample_settings_b (fst b1) (snd b1);
          a2 = user_step st sample_settings_a (fst a1) (snd b2)
      in (a1, b1, b2, a2))"

fun is_update :: "user_pc \<Rightarrow> bool" where
  "is_update (UpUpdate u) = True"
| "is_update _ = False"

fun is_success :: "user_pc \<Rightarrow> bool" where
  "is_success (UpDone None) = True"
| "is_success _ = False"

lemma settings_race_pcs:
  "case settings_race of (a1, b1, b2, a2) \<Rightarrow>
     is_update (fst a1) \<and> is_update (fst b1) \<and> is_success (fst b2) \<and> is_success (fst a2)"
  by code_simp

lemma is_update_iff: "is_update pc \<longleftrightarrow> (\<exists>u. pc = UpUpdate u)"
  by (cases pc) auto

lemma is_success_iff: "is_success pc \<longleftrightarrow> pc = UpDone None"
  by (cases pc rule: is_success.cases) auto

definition settings_race_world :: ref_world where
  "settings_race_world = snd (snd (snd (snd settings_race)))"

lemma settings_race_run:
  obtains ua ub w1 w2 w3 where
    "user_step (as_user_storage ref_storage) sample_settings_a UpStart settings_world = (UpUpdate ua, w1)"
    "user_step (as_user_storage ref_storage) sample_settings_b UpStart w1 = (UpUpdate ub, w2)"
    "user_step (as_user_storage ref_storage) sample_settings_b (UpUpdate ub) w2 = (UpDone None, w3)"
    "user_step (as_user_storage ref_storage) sample_settings_a (UpUpdate ua) w3 = (UpDone None, settings_race_world)"
proof -
  let ?st = "as_user_storage ref_storage"
  obtain p1 w1 p2 w2 p3 w3 p4 w4 where
    steps: "user_step ?st sample_settings_a UpStart settings_world = (p1, w1)"
      "user_step ?st sample_settings_b UpStart w1 = (p2, w2)" "user_step ?st sample_settings_b p2 w2 = (p3, w3)"
      "user_step ?st sample_settings_a p1 w3 = (p4, w4)"
    by (metis prod.exhaust)
  then have race: "settings_race = ((p1, w1), (p2, w2), (p3, w3), (p4, w4))"
    by (simp add: settings_race_def Let_def)
  from settings_race_pcs have "is_update p1 \<and> is_update p2 \<and> is_success p3 \<and> is_success p4"
    unfolding race by simp
  then obtain ua ub where pcs: "p1 = UpUpdate ua" "p2 = UpUpdate ub" "p3 = UpDone None" "p4 = UpDone None"
    by (auto simp: is_update_iff is_success_iff)
  have "w4 = settings_race_world" by (simp add: settings_race_world_def race)
  with steps that show ?thesis unfolding pcs by blast
qed

section \<open>A delivered event\<close>

text \<open>The created event as it is delivered and published.\<close>

definition sample_message :: string where
  "sample_message = json_print (JObj [(''Id'', JStr ''e1''), (''EntityId'', JStr ''t1''), (''EntityType'', JStr ''task''),
     (''Type'', JStr ''task-created''), (''Data'', JObj [(''title'', JStr ''Buy milk''), (''order'', JNum ''3'')]),
     (''Timestamp'', JNum ''10''), (''UserId'', JStr ''u1'')])"

lemma sample_message_event: "unmarshal_text decode_event sample_message = Inr sample_created"
  by code_simp

definition delivered_world :: ref_world where
  "delivered_world = snd (rc_Publish ref_rc ''tasks'' sample_message sample_world)"

lemma sample_message_plain: "unquote_payload sample_message = sample_message"
  by code_simp

text \<open>The request that carries it, with the event quoted once more.\<close>

definition sample_request :: string where
  "sample_request = json_print (JObj [(''Data'', JObj [(''event'', JStr (json_print (JStr sample_message)))])])"

lemma sample_bind: "dp_bind ref_deployment sample_request = Inr (json_print (JStr sample_message))"
  by code_simp

lemma sample_unquoted: "unquote_payload (json_print (JStr sample_message)) = sample_message"
proof (rule unquote_quoted)
  show "valid_utf8 sample_message" by code_simp
qed

lemma sample_delivery: "dp_handle ref_deployment sample_request empty_world = Some ((200, outputs_body), delivered_world)"
  using applied_world_eq
  by (simp add: dp_handle_def update_handler_def sample_bind Let_def sample_unquoted sample_message_event del: json_print.simps)
    (simp add: ref_deployment_def processEvent_def orch_Apply_def NewOrchestrator_def after_apply_def
      delivered_world_def sample_world_def sample_created_def)

lemma sample_plain_user: "plain_user (dp_bind ref_deployment) sample_request"
  by (simp add: plain_user_def sample_bind sample_unquoted sample_message_event del: json_print.simps)
    (simp add: sample_created_def)

lemma sample_system_run:
  "(sys_step ref_deployment ref_expire)\<^sup>*\<^sup>* (empty_world, []) (delivered_world, [empty_world])"
  using sys_deliver [of ref_deployment sample_request empty_world "(200, outputs_body)" delivered_world ref_expire "[]"]
    sample_plain_user sample_delivery by blast

lemma delivered_fetch:
  "fst (FetchTasks sample_sonic ref_api ''u1'' '''' 0 delivered_world) =
   Inr ([\<lparr>at_ID = ''t1'', at_Title = ''Buy milk'', at_Notes = '''', at_Category = '''', at_Order = 3, at_Done = False\<rparr>], '''')"
  by code_simp

end
