(* ===== verification/Go_Duration.thy ===== *)
theory Go_Duration
  imports Go_Text
begin

text \<open>
  \<open>time.ParseDuration\<close> of the Go standard library. A duration is an \<open>int64\<close> number of
  nanoseconds. The contribution of the digits after a decimal point is computed by Go in
  \<open>float64\<close> arithmetic, which is the argument \<open>fl\<close>: \<open>fl f k u\<close> is
  \<open>uint64(float64(f) * (float64(u) / 10^k))\<close>.
\<close>

definition nanosecond :: int where "nanosecond = 1"
definition microsecond :: int where "microsecond = 1000"
definition millisecond :: int where "millisecond = 1000000"
definition second :: int where "second = 1000000000"

definition duration_units :: "(string \<times> int) list" where
  "duration_units =
     [(''ns'', 1), (''us'', 1000), ([CHR 0xC2, CHR 0xB5, CHR ''s''], 1000),
      ([CHR 0xCE, CHR 0xBC, CHR ''s''], 1000), (''ms'', 1000000), (''s'', 1000000000),
      (''m'', 60 * 1000000000), (''h'', 3600 * 1000000000)]"

text \<open>\<open>leadingInt\<close>: \<open>None\<close> is an overflow.\<close>

fun leading_int :: "int \<Rightarrow> string \<Rightarrow> (int \<times> string) option" where
  "leading_int x [] = Some (x, [])"
| "leading_int x (c # s) =
     (if \<not> is_digit c then Some (x, c # s)
      else if x > 2 ^ 63 div 10 then None
      else (let y = x * 10 + (int (byte c) - 48) in
            if y > 2 ^ 63 then None else leading_int y s))"

text \<open>\<open>leadingFraction\<close>: the digits as a number, how many of them it has, and the rest.\<close>

fun leading_fraction :: "int \<Rightarrow> nat \<Rightarrow> bool \<Rightarrow> string \<Rightarrow> int \<times> nat \<times> string" where
  "leading_fraction x k overflow [] = (x, k, [])"
| "leading_fraction x k overflow (c # s) =
     (if \<not> is_digit c then (x, k, c # s)
      else if overflow \<or> x > (2 ^ 63 - 1) div 10 then leading_fraction x k True s
      else (let y = x * 10 + (int (byte c) - 48) in
            if y > 2 ^ 63 then leading_fraction x k True s
            else leading_fraction y (Suc k) False s))"

definition unit_char :: "char \<Rightarrow> bool" where
  "unit_char c \<longleftrightarrow> c \<noteq> CHR ''.'' \<and> \<not> is_digit c"

text \<open>One number with its unit: the nanoseconds and the rest of the text.\<close>

definition duration_part :: "(int \<Rightarrow> nat \<Rightarrow> int \<Rightarrow> int) \<Rightarrow> string \<Rightarrow> (int \<times> string) option" where
  "duration_part fl s =
     (if s = [] \<or> unit_char (hd s) then None
      else
        (case leading_int 0 s of
           None \<Rightarrow> None
         | Some (v, s1) \<Rightarrow>
             (let pre = (length s1 \<noteq> length s);
                  dot = (s1 \<noteq> [] \<and> hd s1 = CHR ''.'');
                  (f, k, s2) = (if dot then leading_fraction 0 0 False (tl s1) else (0, 0, s1));
                  post = (dot \<and> length s2 \<noteq> length (tl s1));
                  u = takeWhile unit_char s2;
                  s3 = dropWhile unit_char s2
              in if \<not> pre \<and> \<not> post then None
                 else if u = [] then None
                 else
                   (case map_of duration_units u of
                      None \<Rightarrow> None
                    | Some unit \<Rightarrow>
                        (if v > 2 ^ 63 div unit then None
                         else
                           (let v1 = (if f > 0 then (v * unit + fl f k unit) mod 2 ^ 64 else v * unit) in
                            if v1 > 2 ^ 63 then None else Some (v1, s3)))))))"

lemma leading_int_length: "leading_int x s = Some (v, r) \<Longrightarrow> length r \<le> length s"
  by (induction x s rule: leading_int.induct) (auto simp: Let_def split: if_splits)

lemma leading_fraction_length: "length (snd (snd (leading_fraction x k b s))) \<le> length s"
  by (induction x k b s rule: leading_fraction.induct) (auto simp: Let_def)

lemma unit_rest_length: "takeWhile P s \<noteq> [] \<Longrightarrow> length (dropWhile P s) < length s"
  by (cases s) (auto simp: less_Suc_eq_le length_dropWhile_le split: if_splits)

lemma duration_part_length:
  assumes "duration_part fl s = Some (v, r)"
  shows "length r < length s"
proof -
  obtain v0 s1 s2 where 1: "leading_int 0 s = Some (v0, s1)"
    and 2: "s2 = s1 \<or> s1 \<noteq> [] \<and> (\<exists>f k. leading_fraction 0 0 False (tl s1) = (f, k, s2))"
    and 3: "takeWhile unit_char s2 \<noteq> []" "r = dropWhile unit_char s2"
    using assms
    by (auto simp: duration_part_def Let_def split: if_splits option.splits prod.splits)
  have "length s2 \<le> length s1"
    using 2 leading_fraction_length [of 0 0 False "tl s1"] by (cases s1) fastforce+
  with unit_rest_length [OF 3(1)] 3(2) leading_int_length [OF 1] show ?thesis by simp
qed

function duration_parts :: "(int \<Rightarrow> nat \<Rightarrow> int \<Rightarrow> int) \<Rightarrow> int \<Rightarrow> string \<Rightarrow> int option" where
  "duration_parts fl d s =
     (if s = [] then Some d
      else
        (case duration_part fl s of
           None \<Rightarrow> None
         | Some (v, r) \<Rightarrow>
             (let d1 = (d + v) mod 2 ^ 64 in
              if d1 > 2 ^ 63 then None else duration_parts fl d1 r)))"
  by pat_completeness auto
termination
  by (relation "measure (\<lambda>(_, _, s). length s)") (auto dest: duration_part_length)

declare duration_parts.simps [simp del]

definition parse_duration :: "(int \<Rightarrow> nat \<Rightarrow> int \<Rightarrow> int) \<Rightarrow> string \<Rightarrow> int option" where
  "parse_duration fl s =
     (let neg = (s \<noteq> [] \<and> hd s = CHR ''-'');
          s1 = (if s \<noteq> [] \<and> (hd s = CHR ''-'' \<or> hd s = CHR ''+'') then tl s else s)
      in if s1 = ''0'' then Some 0
         else if s1 = '''' then None
         else
           (case duration_parts fl 0 s1 of
              None \<Rightarrow> None
            | Some d \<Rightarrow>
                (if neg then Some (i64 (- i64 d))
                 else if d > 2 ^ 63 - 1 then None
                 else Some d)))"

end
