(* ===== verification/Api_Pool.thy ===== *)
theory Api_Pool
  imports Api_Storage Go_Duration Step_Systems "HOL-Library.Multiset"
begin

text \<open>
  The command sender of prism-api (\<open>prism-api/api/pool.go\<close>): a pool of worker goroutines that
  take jobs from a buffered channel and send their commands to the queue. The sizing of the pool and
  the two ways of offering a job are functions; the pool itself is the step relation
  \<open>pool_step\<close>. The environment readers of \<open>utils.go\<close> are here too.
\<close>

section \<open>Sizing\<close>

definition minEnqueueWorkers :: int where "minEnqueueWorkers = 32"
definition maxEnqueueWorkers :: int where "maxEnqueueWorkers = 192"
definition workersPerCPU :: int where "workersPerCPU = 32"
definition workersPerQueueUnit :: int where "workersPerQueueUnit = 4"
definition bufferPerWorker :: int where "bufferPerWorker = 128"
definition minEnqueueBuffer :: int where "minEnqueueBuffer = minEnqueueWorkers * bufferPerWorker"
definition maxEnqueueBuffer :: int where "maxEnqueueBuffer = 64 * 1024"
definition defaultHandoffTimeout :: int where "defaultHandoffTimeout = 50 * millisecond"
definition defaultQueueParallel :: int where "defaultQueueParallel = 8"

lemmas pool_consts = minEnqueueWorkers_def maxEnqueueWorkers_def workersPerCPU_def
  workersPerQueueUnit_def bufferPerWorker_def minEnqueueBuffer_def maxEnqueueBuffer_def
  defaultQueueParallel_def

definition computeWorkerDefaults :: "int \<Rightarrow> int \<Rightarrow> int \<times> int" where
  "computeWorkerDefaults queueConcurrency numCPU =
     (let qc = (if queueConcurrency \<le> 0 then defaultQueueParallel else queueConcurrency);
          cpu = (if numCPU \<le> 0 then 1 else numCPU);
          queueScaled = i64 (qc * workersPerQueueUnit);
          cpuScaled = i64 (cpu * workersPerCPU);
          w0 = (if cpuScaled > queueScaled then cpuScaled else queueScaled);
          workers = (if w0 < minEnqueueWorkers then minEnqueueWorkers
                     else if w0 > maxEnqueueWorkers then maxEnqueueWorkers else w0);
          b0 = i64 (workers * bufferPerWorker);
          buffer = (if b0 < minEnqueueBuffer then minEnqueueBuffer
                    else if b0 > maxEnqueueBuffer then maxEnqueueBuffer else b0)
      in (workers, buffer))"

section \<open>Reading the environment\<close>

definition lookupPositiveInt :: "environ \<Rightarrow> string \<Rightarrow> int \<Rightarrow> int" where
  "lookupPositiveInt env key fallback =
     (let v = getenv env key in
      if v \<noteq> '''' then (case parse_int v of Some n \<Rightarrow> if n > 0 then n else fallback | None \<Rightarrow> fallback)
      else fallback)"

definition deriveQueueConcurrency :: "environ \<Rightarrow> int" where
  "deriveQueueConcurrency env =
     (let v = getenv env ''COMMAND_QUEUE_CONCURRENCY'' in
      if v \<noteq> '''' then
        (case parse_int v of Some n \<Rightarrow> if n > 0 then n else defaultQueueParallel | None \<Rightarrow> defaultQueueParallel)
      else defaultQueueParallel)"

definition envInt :: "environ \<Rightarrow> string \<Rightarrow> int \<Rightarrow> int" where
  "envInt env key def =
     (let v = getenv env key in
      if v \<noteq> '''' then (case parse_int v of Some n \<Rightarrow> if n > 0 then n else def | None \<Rightarrow> def)
      else def)"

definition envDur :: "(int \<Rightarrow> nat \<Rightarrow> int \<Rightarrow> int) \<Rightarrow> environ \<Rightarrow> string \<Rightarrow> int \<Rightarrow> int" where
  "envDur fl env key def =
     (let v = getenv env key in
      if v \<noteq> '''' then (case parse_duration fl v of Some d \<Rightarrow> if d > 0 then d else def | None \<Rightarrow> def)
      else def)"

section \<open>Offering a job\<close>

record enqueue_job =
  ej_userID :: string
  ej_cmds :: "command list"

text \<open>A channel of jobs: its capacity, the buffered jobs (first in front), whether it is closed.\<close>

record job_chan =
  jc_cap :: nat
  jc_buf :: "enqueue_job list"
  jc_closed :: bool

text \<open>Both senders recover from the panic of a send on a closed channel. The results are \<open>ok\<close>
  and \<open>closed\<close>.\<close>

definition trySendNonBlocking :: "job_chan \<Rightarrow> enqueue_job \<Rightarrow> (bool \<times> bool) \<times> job_chan" where
  "trySendNonBlocking ch job =
     (if jc_closed ch then ((False, True), ch)
      else if length (jc_buf ch) < jc_cap ch then ((True, False), ch\<lparr>jc_buf := jc_buf ch @ [job]\<rparr>)
      else ((False, False), ch))"

text \<open>What ends the wait of the second sender, with the channel as it is at that moment: the
  channel has room or is closed, or the timer fires.\<close>

datatype send_event = ChannelReady job_chan | TimerFired job_chan

definition sendWithTimer :: "send_event \<Rightarrow> enqueue_job \<Rightarrow> (bool \<times> bool) \<times> job_chan" where
  "sendWithTimer ev job =
     (case ev of
        ChannelReady ch \<Rightarrow>
          (if jc_closed ch then ((False, True), ch)
           else ((True, False), ch\<lparr>jc_buf := jc_buf ch @ [job]\<rparr>))
      | TimerFired ch \<Rightarrow> ((False, False), ch))"

text \<open>The channel at the end of the call is returned. \<open>wait\<close> says how the wait of the second
  attempt ends, given the channel after the first one.\<close>

definition tryEnqueueJob ::
  "int \<Rightarrow> job_chan option \<Rightarrow> (job_chan \<Rightarrow> send_event) \<Rightarrow> enqueue_job \<Rightarrow> bool \<times> job_chan option" where
  "tryEnqueueJob handoffTimeout jobs wait job =
     (case jobs of
        None \<Rightarrow> (False, None)
      | Some ch \<Rightarrow>
          (case trySendNonBlocking ch job of
             ((ok, closed), ch1) \<Rightarrow>
               (if closed then (False, Some ch1)
                else if ok then (True, Some ch1)
                else if handoffTimeout \<le> 0 then (False, Some ch1)
                else
                  (case sendWithTimer (wait ch1) job of
                     ((ok2, closed2), ch2) \<Rightarrow> (if closed2 then (False, Some ch2) else (ok2, Some ch2))))))"

subsection \<open>Recycled timers\<close>

text \<open>A timer is running or not, and its channel may hold a tick. When it fires it stops running
  and puts a tick into the channel. \<open>sync.Pool\<close> gives back any of its values, or makes a new
  one: \<open>pick\<close> is the index of the value.\<close>

record go_timer =
  tm_running :: bool
  tm_tick :: bool

definition timer_Stop :: "go_timer \<Rightarrow> bool \<times> go_timer" where
  "timer_Stop t = (tm_running t, t\<lparr>tm_running := False\<rparr>)"

definition timer_fire :: "go_timer \<Rightarrow> go_timer" where
  "timer_fire t = (if tm_running t then \<lparr>tm_running = False, tm_tick = True\<rparr> else t)"

definition new_timer :: go_timer where
  "new_timer = snd (timer_Stop \<lparr>tm_running = True, tm_tick = False\<rparr>)"

definition acquireTimer :: "nat option \<Rightarrow> go_timer list \<Rightarrow> go_timer \<times> go_timer list" where
  "acquireTimer pick pool =
     (case pick of
        Some i \<Rightarrow>
          (if i < length pool then ((pool ! i)\<lparr>tm_running := True\<rparr>, take i pool @ drop (Suc i) pool)
           else (new_timer\<lparr>tm_running := True\<rparr>, pool))
      | None \<Rightarrow> (new_timer\<lparr>tm_running := True\<rparr>, pool))"

definition releaseTimer :: "go_timer \<Rightarrow> go_timer list \<Rightarrow> go_timer list" where
  "releaseTimer t pool =
     (case timer_Stop t of
        (stopped, t1) \<Rightarrow> (if stopped then t1 else t1\<lparr>tm_tick := False\<rparr>) # pool)"

definition timers_clean :: "go_timer list \<Rightarrow> bool" where
  "timers_clean pool \<longleftrightarrow> list_all (\<lambda>t. \<not> tm_running t \<and> \<not> tm_tick t) pool"

text \<open>A timer that is not running when a tick waits, as after \<open>acquireTimer\<close> and at most one
  firing.\<close>

definition timer_sane :: "go_timer \<Rightarrow> bool" where
  "timer_sane t \<longleftrightarrow> \<not> (tm_running t \<and> tm_tick t)"

lemma acquireTimer_clean:
  assumes "timers_clean pool" "acquireTimer pick pool = (t, pool')"
  shows "tm_running t" "\<not> tm_tick t" "timers_clean pool'"
  using assms set_take_subset [of _ pool] set_drop_subset [of _ pool]
  by (auto simp: acquireTimer_def timers_clean_def new_timer_def timer_Stop_def list_all_iff
      split: option.splits if_splits dest: in_set_takeD in_set_dropD) blast+

lemma releaseTimer_clean: "timers_clean pool \<Longrightarrow> timer_sane t \<Longrightarrow> timers_clean (releaseTimer t pool)"
  by (auto simp: releaseTimer_def timers_clean_def timer_sane_def timer_Stop_def)

section \<open>The pool\<close>

datatype pool_worker = WorkerIdle | WorkerBusy enqueue_job | WorkerExited

record pool_state =
  pl_chan :: job_chan
  pl_workers :: "pool_worker list"
  pl_accepted :: "enqueue_job list"
  pl_started :: "enqueue_job list"
  pl_finished :: "(enqueue_job \<times> go_error option) list"

text \<open>\<open>pl_accepted\<close>, \<open>pl_started\<close> and \<open>pl_finished\<close> record the history: the jobs that a
  handler has put into the channel, those that a worker has taken, and those whose
  \<open>EnqueueCommands\<close> has returned, with its error (which is logged).\<close>

inductive pool_step :: "pool_state \<Rightarrow> pool_state \<Rightarrow> bool" where
  pool_offer: "trySendNonBlocking (pl_chan s) j = ((True, False), ch) \<Longrightarrow>
     pool_step s (s\<lparr>pl_chan := ch, pl_accepted := pl_accepted s @ [j]\<rparr>)"
| pool_handoff: "length (jc_buf (pl_chan s)) < jc_cap (pl_chan s) \<Longrightarrow>
     sendWithTimer (ChannelReady (pl_chan s)) j = ((True, False), ch) \<Longrightarrow>
     pool_step s (s\<lparr>pl_chan := ch, pl_accepted := pl_accepted s @ [j]\<rparr>)"
| pool_take: "i < length (pl_workers s) \<Longrightarrow> pl_workers s ! i = WorkerIdle \<Longrightarrow> jc_buf (pl_chan s) = j # js \<Longrightarrow>
     pool_step s (s\<lparr>pl_chan := (pl_chan s)\<lparr>jc_buf := js\<rparr>, pl_started := pl_started s @ [j],
       pl_workers := (pl_workers s)[i := WorkerBusy j]\<rparr>)"
| pool_finish: "i < length (pl_workers s) \<Longrightarrow> pl_workers s ! i = WorkerBusy j \<Longrightarrow>
     pool_step s (s\<lparr>pl_finished := pl_finished s @ [(j, r)], pl_workers := (pl_workers s)[i := WorkerIdle]\<rparr>)"
| pool_close: "\<not> jc_closed (pl_chan s) \<Longrightarrow> pool_step s (s\<lparr>pl_chan := (pl_chan s)\<lparr>jc_closed := True\<rparr>\<rparr>)"
| pool_exit: "i < length (pl_workers s) \<Longrightarrow> pl_workers s ! i = WorkerIdle \<Longrightarrow>
     jc_buf (pl_chan s) = [] \<Longrightarrow> jc_closed (pl_chan s) \<Longrightarrow>
     pool_step s (s\<lparr>pl_workers := (pl_workers s)[i := WorkerExited]\<rparr>)"

definition pool_init :: "nat \<Rightarrow> nat \<Rightarrow> pool_state" where
  "pool_init workers cap =
     \<lparr>pl_chan = \<lparr>jc_cap = cap, jc_buf = [], jc_closed = False\<rparr>, pl_workers = replicate workers WorkerIdle,
      pl_accepted = [], pl_started = [], pl_finished = []\<rparr>"

section \<open>Starting and stopping the sender\<close>

text \<open>The package variables of \<open>pool.go\<close>. \<open>'s\<close> is the type of the stores.\<close>

record 's sender =
  gs_once :: bool
  gs_store :: "'s option"
  gs_log :: bool
  gs_workerCount :: int
  gs_jobBuf :: int
  gs_enqueueTimeout :: int
  gs_handoffTimeout :: int
  gs_pool :: "pool_state option"

definition sender_zero :: "'s sender" where
  "sender_zero = \<lparr>gs_once = False, gs_store = None, gs_log = False, gs_workerCount = 0, gs_jobBuf = 0,
     gs_enqueueTimeout = 0, gs_handoffTimeout = 0, gs_pool = None\<rparr>"

text \<open>A panic is an error. \<open>log\<close> says whether a logger is given.\<close>

definition initCommandSender ::
  "(int \<Rightarrow> nat \<Rightarrow> int \<Rightarrow> int) \<Rightarrow> environ \<Rightarrow> int \<Rightarrow> 's option \<Rightarrow> bool \<Rightarrow> 's sender \<Rightarrow> go_error + 's sender" where
  "initCommandSender fl env numCPU store log g =
     (if gs_once g then Inr g
      else if \<not> log then Inl (ErrText ''Logger is not initialized'')
      else
        (let queueParallel = deriveQueueConcurrency env;
             (autoWorkers, autoBuf) = computeWorkerDefaults queueParallel numCPU;
             workers = lookupPositiveInt env ''ENQUEUE_WORKERS'' autoWorkers;
             buf0 = lookupPositiveInt env ''ENQUEUE_BUFFER'' autoBuf;
             buf = (if buf0 < workers then workers else buf0)
         in Inr (g\<lparr>gs_once := True, gs_store := store, gs_log := True,
              gs_workerCount := workers, gs_jobBuf := buf,
              gs_enqueueTimeout := envDur fl env ''ENQUEUE_TIMEOUT'' (60 * second),
              gs_handoffTimeout := envDur fl env ''ENQUEUE_HANDOFF_TIMEOUT'' defaultHandoffTimeout,
              gs_pool := Some (pool_init (nat workers) (nat buf))\<rparr>)))"

text \<open>\<open>shutdownCommandSender\<close> closes the channel, waits until all workers have returned (the steps
  of \<open>pool_step\<close> from \<open>shutdown_begin\<close>), and clears the variables.\<close>

definition shutdown_begin :: "'s sender \<Rightarrow> 's sender" where
  "shutdown_begin g =
     (case gs_pool g of
        None \<Rightarrow> g
      | Some p \<Rightarrow> g\<lparr>gs_pool := Some (p\<lparr>pl_chan := (pl_chan p)\<lparr>jc_closed := True\<rparr>\<rparr>)\<rparr>)"

definition workers_returned :: "pool_state \<Rightarrow> bool" where
  "workers_returned s \<longleftrightarrow> list_all (\<lambda>w. w = WorkerExited) (pl_workers s)"

definition shutdown_end :: "'s sender \<Rightarrow> 's sender" where
  "shutdown_end g = sender_zero"

section \<open>Bounds\<close>

lemma computeWorkerDefaults_bounds:
  "computeWorkerDefaults qc cpu = (w, b) \<Longrightarrow>
   minEnqueueWorkers \<le> w \<and> w \<le> maxEnqueueWorkers \<and> b = w * bufferPerWorker \<and>
   minEnqueueBuffer \<le> b \<and> b \<le> maxEnqueueBuffer"
  by (auto simp: computeWorkerDefaults_def Let_def pool_consts i64_id in_i64_def split: if_splits)

lemma lookupPositiveInt_pos: "0 < fallback \<Longrightarrow> 0 < lookupPositiveInt env key fallback"
  by (auto simp: lookupPositiveInt_def Let_def split: option.splits)

lemma envDur_pos: "0 < d \<Longrightarrow> 0 < envDur fl env key d"
  by (auto simp: envDur_def Let_def split: option.splits)

lemma initCommandSender_config:
  assumes "\<not> gs_once g" "initCommandSender fl env numCPU store True g = Inr g'"
  shows "0 < gs_workerCount g'" "gs_workerCount g' \<le> gs_jobBuf g'"
    "0 < gs_enqueueTimeout g'" "0 < gs_handoffTimeout g'"
    "gs_pool g' = Some (pool_init (nat (gs_workerCount g')) (nat (gs_jobBuf g')))"
    "gs_once g'" "gs_store g' = store"
proof -
  obtain w b where wb: "computeWorkerDefaults (deriveQueueConcurrency env) numCPU = (w, b)" by fastforce
  then have "0 < w" "0 < b" using computeWorkerDefaults_bounds [OF wb] by (auto simp: pool_consts)
  then have pos: "0 < lookupPositiveInt env ''ENQUEUE_WORKERS'' w"
    "0 < envDur fl env ''ENQUEUE_TIMEOUT'' (60 * second)"
    "0 < envDur fl env ''ENQUEUE_HANDOFF_TIMEOUT'' defaultHandoffTimeout"
    by (auto intro!: lookupPositiveInt_pos envDur_pos simp: second_def defaultHandoffTimeout_def millisecond_def)
  with assms wb show "0 < gs_workerCount g'" "gs_workerCount g' \<le> gs_jobBuf g'"
    "0 < gs_enqueueTimeout g'" "0 < gs_handoffTimeout g'"
    "gs_pool g' = Some (pool_init (nat (gs_workerCount g')) (nat (gs_jobBuf g')))"
    "gs_once g'" "gs_store g' = store"
    by (auto simp: initCommandSender_def Let_def)
qed

section \<open>Jobs are neither lost nor duplicated\<close>

definition busy_jobs :: "pool_worker \<Rightarrow> enqueue_job multiset" where
  "busy_jobs w = (case w of WorkerBusy j \<Rightarrow> {#j#} | _ \<Rightarrow> {#})"

definition pool_inv :: "pool_state \<Rightarrow> bool" where
  "pool_inv s \<longleftrightarrow>
     pl_accepted s = pl_started s @ jc_buf (pl_chan s) \<and>
     mset (pl_started s) = mset (map fst (pl_finished s)) + sum_list (map busy_jobs (pl_workers s)) \<and>
     length (jc_buf (pl_chan s)) \<le> jc_cap (pl_chan s) \<and>
     (WorkerExited \<in> set (pl_workers s) \<longrightarrow> jc_closed (pl_chan s) \<and> jc_buf (pl_chan s) = [])"

lemma send_result:
  "trySendNonBlocking ch j = ((True, False), ch') \<Longrightarrow>
   \<not> jc_closed ch \<and> length (jc_buf ch) < jc_cap ch \<and> ch' = ch\<lparr>jc_buf := jc_buf ch @ [j]\<rparr>"
  "sendWithTimer (ChannelReady ch) j = ((True, False), ch') \<Longrightarrow>
   \<not> jc_closed ch \<and> ch' = ch\<lparr>jc_buf := jc_buf ch @ [j]\<rparr>"
  by (auto simp: trySendNonBlocking_def sendWithTimer_def split: if_splits)

lemma busy_set:
  assumes "i < length ws"
  shows "sum_list (map busy_jobs (ws[i := w])) + busy_jobs (ws ! i) = sum_list (map busy_jobs ws) + busy_jobs w"
proof -
  have "sum_list (map busy_jobs ws) =
      busy_jobs (ws ! i) + sum_list (map busy_jobs (take i ws @ drop (Suc i) ws))"
    using assms by (subst id_take_nth_drop [of i ws]) (auto simp: ac_simps)
  with assms show ?thesis by (simp add: upd_conv_take_nth_drop ac_simps)
qed

lemma exited_update: "WorkerExited \<in> set (ws[i := w]) \<Longrightarrow> w \<noteq> WorkerExited \<Longrightarrow> WorkerExited \<in> set ws"
  using set_update_subset_insert [of ws i w] by auto

lemma pool_step_inv: "pool_step s t \<Longrightarrow> pool_inv s \<Longrightarrow> pool_inv t"
proof (induction rule: pool_step.induct)
  case (pool_take i s j js)
  then show ?case
    using busy_set [OF pool_take(1), of "WorkerBusy j"]
    by (auto simp: pool_inv_def busy_jobs_def dest: exited_update)
next
  case (pool_finish i s j r)
  then show ?case
    using busy_set [OF pool_finish(1), of WorkerIdle]
    by (auto simp: pool_inv_def busy_jobs_def dest: exited_update)
next
  case (pool_exit i s)
  then show ?case
    using busy_set [OF pool_exit(1), of WorkerExited] by (auto simp: pool_inv_def busy_jobs_def)
qed (auto simp: pool_inv_def dest!: send_result)

lemma pool_inv_init: "pool_inv (pool_init n cap)"
proof -
  have "sum_list (replicate n (busy_jobs WorkerIdle)) = {#}" by (induction n) (auto simp: busy_jobs_def)
  then show ?thesis by (simp add: pool_inv_def pool_init_def)
qed

interpretation pool_guarded: guarded_system pool_step pool_inv
  by unfold_locales (rule pool_step_inv)

section \<open>Shutting down\<close>

text \<open>Once the channel is closed, the workers finish every job that was accepted and return.\<close>

definition drain_step :: "pool_state \<Rightarrow> pool_state \<Rightarrow> bool" where
  "drain_step s t \<longleftrightarrow> jc_closed (pl_chan s) \<and> pool_step s t"

definition pool_worker_weight :: "pool_worker \<Rightarrow> nat" where
  "pool_worker_weight w = (case w of WorkerIdle \<Rightarrow> 1 | WorkerBusy _ \<Rightarrow> 2 | WorkerExited \<Rightarrow> 0)"

definition pool_weight :: "pool_state \<Rightarrow> nat" where
  "pool_weight s = 2 * length (jc_buf (pl_chan s)) + sum_list (map pool_worker_weight (pl_workers s))"

definition draining :: "nat \<Rightarrow> enqueue_job list \<Rightarrow> pool_state \<Rightarrow> bool" where
  "draining n accepted s \<longleftrightarrow> pool_inv s \<and> jc_closed (pl_chan s) \<and> pl_accepted s = accepted \<and>
     length (pl_workers s) = n"

lemma pool_weight_set:
  assumes "i < length ws"
  shows "sum_list (map pool_worker_weight (ws[i := w])) + pool_worker_weight (ws ! i)
    = sum_list (map pool_worker_weight ws) + pool_worker_weight w"
  using elem_le_sum_list [of i "map pool_worker_weight ws"] assms
  by (simp add: map_update sum_list_update)

lemma drain_step_weight: "drain_step s t \<Longrightarrow> pool_weight t < pool_weight s"
proof -
  have "pool_step s t \<Longrightarrow> jc_closed (pl_chan s) \<Longrightarrow> pool_weight t < pool_weight s"
  proof (induction rule: pool_step.induct)
    case (pool_take i s j js)
    then show ?case using pool_weight_set [of i "pl_workers s" "WorkerBusy j"]
      by (simp add: pool_weight_def pool_worker_weight_def)
  next
    case (pool_finish i s j r)
    then show ?case using pool_weight_set [of i "pl_workers s" WorkerIdle]
      by (simp add: pool_weight_def pool_worker_weight_def)
  next
    case (pool_exit i s)
    then show ?case using pool_weight_set [of i "pl_workers s" WorkerExited]
      by (simp add: pool_weight_def pool_worker_weight_def)
  qed (auto dest!: send_result)
  then show "drain_step s t \<Longrightarrow> pool_weight t < pool_weight s" by (simp add: drain_step_def)
qed

lemma drain_step_draining: "drain_step s t \<Longrightarrow> draining n accepted s \<Longrightarrow> draining n accepted t"
proof -
  assume *: "drain_step s t" "draining n accepted s"
  then have step: "pool_step s t" and c: "jc_closed (pl_chan s)" by (auto simp: drain_step_def)
  from step c have "pl_accepted t = pl_accepted s \<and> jc_closed (pl_chan t) \<and>
      length (pl_workers t) = length (pl_workers s)"
    by (induction rule: pool_step.induct) (auto dest!: send_result)
  with * pool_step_inv [OF step] show ?thesis by (simp add: draining_def)
qed

lemma drain_progress:
  assumes "draining n accepted s" "\<not> workers_returned s"
  shows "\<exists>t. drain_step s t"
proof -
  obtain i where i: "i < length (pl_workers s)" "pl_workers s ! i \<noteq> WorkerExited"
    using assms(2) by (auto simp: workers_returned_def list_all_length)
  have "\<exists>t. pool_step s t"
  proof (cases "pl_workers s ! i")
    case WorkerIdle
    with i assms(1) pool_take [OF i(1) WorkerIdle] pool_exit [OF i(1) WorkerIdle] show ?thesis
      by (cases "jc_buf (pl_chan s)") (auto simp: draining_def)
  next
    case (WorkerBusy j)
    with pool_finish [OF i(1) WorkerBusy] show ?thesis by blast
  qed (use i in auto)
  with assms(1) show ?thesis by (auto simp: drain_step_def draining_def)
qed

interpretation drain: live_system drain_step "draining n accepted" pool_weight workers_returned
  for n accepted
  by unfold_locales (fact drain_step_draining drain_step_weight drain_progress)+

lemma drained:
  assumes "draining n accepted s" "workers_returned s" "0 < n"
  shows "mset (map fst (pl_finished s)) = mset accepted"
proof -
  have "sum_list (map busy_jobs ws) = {#}" if "list_all (\<lambda>w. w = WorkerExited) ws" for ws
    using that by (induction ws) (auto simp: busy_jobs_def)
  moreover have "WorkerExited \<in> set (pl_workers s)"
    using assms by (cases "pl_workers s") (auto simp: draining_def workers_returned_def)
  ultimately show ?thesis
    using assms(1,2) by (auto simp: draining_def pool_inv_def workers_returned_def)
qed

end
