(* ===== verification/Api_Metrics.thy ===== *)
theory Api_Metrics
  imports Api_Pool
begin

text \<open>
  Observability of \<open>GET /api/tasks\<close> (\<open>prism-api/api/metrics.go\<close>). The tracing library is
  third-party code; a call of \<open>Log\<close> is modelled by the list of calls it makes on its span. A
  \<open>float64\<close> quotient is kept as its two operands: \<open>F64 n d\<close> is \<open>float64(n) / float64(d)\<close>.
\<close>

section \<open>Data\<close>

definition tasksSpanName :: string where "tasksSpanName = ''GET /api/tasks''"
definition tasksEventName :: string where "tasksEventName = ''prism.api.tasks.request''"
definition tasksEventDomain :: string where "tasksEventDomain = ''app''"
definition tasksEventBody :: string where "tasksEventBody = ''tasks request completed''"

datatype attr_value = AString string | AInt int | AInt64 int | ABool bool | F64 int int

type_synonym attrs = "(string \<times> attr_value) list"

text \<open>\<open>trace.SpanContext\<close>: the identifiers as text, empty when there is none.\<close>

record span_context =
  sc_TraceID :: string
  sc_SpanID :: string

record task_request_metrics =
  tm_logger :: bool
  tm_span :: "span_context option"
  tm_spanContext :: span_context
  tm_start :: int
  tm_authDuration :: int
  tm_fetchDuration :: int
  tm_encodeDuration :: int
  tm_pageTokenProvided :: bool
  tm_tasksReturned :: int
  tm_hasNextPage :: bool
  tm_errorStage :: string

record task_log_record =
  lr_status :: int
  lr_total :: int
  lr_auth :: int
  lr_fetch :: int
  lr_encode :: int
  lr_requestStartNS :: int
  lr_tasksReturned :: int
  lr_pageTokenProvided :: bool
  lr_hasNextPage :: bool
  lr_errorStage :: string
  lr_errorMessage :: string

record task_log_event =
  le_logger :: bool
  le_record :: task_log_record
  le_eventTime :: int
  le_severityText :: string
  le_severityNumber :: int
  le_traceID :: string
  le_spanID :: string

datatype span_status = StatusOk | StatusError

datatype span_call =
    SpanRecordError go_error
  | SpanSetStatus span_status string
  | SpanSetAttributes attrs
  | SpanAddEvent string int attrs
  | SpanEnd int

section \<open>Observing a request\<close>

text \<open>\<open>start\<close> is the time, \<open>sc\<close> the context of the span that the tracer has started; the calls
  on the new span are returned with the metrics.\<close>

definition newTaskRequestMetrics ::
  "bool \<Rightarrow> int \<Rightarrow> span_context \<Rightarrow> task_request_metrics \<times> span_call list" where
  "newTaskRequestMetrics logger start sc =
     (\<lparr>tm_logger = logger, tm_span = Some sc, tm_spanContext = sc, tm_start = start,
       tm_authDuration = 0, tm_fetchDuration = 0, tm_encodeDuration = 0, tm_pageTokenProvided = False,
       tm_tasksReturned = 0, tm_hasNextPage = False, tm_errorStage = ''''\<rparr>,
      [SpanSetAttributes [(''http.route'', AString ''/api/tasks''), (''http.method'', AString ''GET'')]])"

definition ObserveAuth :: "int \<Rightarrow> task_request_metrics \<Rightarrow> task_request_metrics" where
  "ObserveAuth d m = (if d \<le> 0 then m else m\<lparr>tm_authDuration := d\<rparr>)"

definition ObserveFetch :: "int \<Rightarrow> task_request_metrics \<Rightarrow> task_request_metrics" where
  "ObserveFetch d m = (if d \<le> 0 then m else m\<lparr>tm_fetchDuration := d\<rparr>)"

definition ObserveEncode :: "int \<Rightarrow> task_request_metrics \<Rightarrow> task_request_metrics" where
  "ObserveEncode d m = (if d \<le> 0 then m else m\<lparr>tm_encodeDuration := d\<rparr>)"

definition SetPageTokenProvided :: "bool \<Rightarrow> task_request_metrics \<Rightarrow> task_request_metrics" where
  "SetPageTokenProvided provided m = m\<lparr>tm_pageTokenProvided := provided\<rparr>"

definition SetTasksReturned :: "int \<Rightarrow> task_request_metrics \<Rightarrow> task_request_metrics" where
  "SetTasksReturned n m = m\<lparr>tm_tasksReturned := (if n < 0 then 0 else n)\<rparr>"

definition SetHasNextPage :: "bool \<Rightarrow> task_request_metrics \<Rightarrow> task_request_metrics" where
  "SetHasNextPage hasNext m = m\<lparr>tm_hasNextPage := hasNext\<rparr>"

definition SetErrorStage :: "string \<Rightarrow> task_request_metrics \<Rightarrow> task_request_metrics" where
  "SetErrorStage stage m = (if stage = '''' then m else m\<lparr>tm_errorStage := stage\<rparr>)"

section \<open>Attributes\<close>

definition durationToMillis :: "int \<Rightarrow> attr_value" where
  "durationToMillis d = (if d \<le> 0 then F64 0 1 else F64 d millisecond)"

definition severityForStatus :: "int \<Rightarrow> go_error option \<Rightarrow> string \<times> int" where
  "severityForStatus status err =
     (let st = (if err \<noteq> None \<and> status = 0 then 500 else status) in
      if st \<ge> 500 \<or> err \<noteq> None then (''ERROR'', 17)
      else if st \<ge> 400 then (''WARN'', 13)
      else (''INFO'', 9))"

definition keyValues :: "task_log_record \<Rightarrow> attrs" where
  "keyValues r =
     [(''http.route'', AString ''/api/tasks''),
      (''http.status_code'', AInt (lr_status r)),
      (''prism.tasks.total_ms'', durationToMillis (lr_total r)),
      (''prism.tasks.page_token_provided'', ABool (lr_pageTokenProvided r)),
      (''prism.tasks.tasks_returned'', AInt (lr_tasksReturned r)),
      (''prism.tasks.has_next_page'', ABool (lr_hasNextPage r)),
      (''prism.tasks.request_start_ns'', AInt64 (lr_requestStartNS r))] @
     (if lr_auth r > 0 then [(''prism.tasks.auth_ms'', durationToMillis (lr_auth r))] else []) @
     (if lr_fetch r > 0 then [(''prism.tasks.fetch_ms'', durationToMillis (lr_fetch r))] else []) @
     (if lr_encode r > 0 then [(''prism.tasks.encode_ms'', durationToMillis (lr_encode r))] else []) @
     (if lr_errorStage r \<noteq> '''' then [(''prism.tasks.error_stage'', AString (lr_errorStage r))] else []) @
     (if lr_errorMessage r \<noteq> '''' then [(''error.message'', AString (lr_errorMessage r))] else [])"

definition put_if :: "bool \<Rightarrow> string \<Rightarrow> attr_value \<Rightarrow> (string \<rightharpoonup> attr_value) \<Rightarrow> (string \<rightharpoonup> attr_value)" where
  "put_if b k v m = (if b then m(k \<mapsto> v) else m)"

definition attributesMap :: "task_log_record \<Rightarrow> string \<rightharpoonup> attr_value" where
  "attributesMap r =
     put_if (lr_errorMessage r \<noteq> '''') ''error.message'' (AString (lr_errorMessage r))
     (put_if (lr_errorStage r \<noteq> '''') ''prism.tasks.error_stage'' (AString (lr_errorStage r))
     (put_if (lr_encode r > 0) ''prism.tasks.encode_ms'' (durationToMillis (lr_encode r))
     (put_if (lr_fetch r > 0) ''prism.tasks.fetch_ms'' (durationToMillis (lr_fetch r))
     (put_if (lr_auth r > 0) ''prism.tasks.auth_ms'' (durationToMillis (lr_auth r))
       [''http.route'' \<mapsto> AString ''/api/tasks'',
        ''http.status_code'' \<mapsto> AInt (lr_status r),
        ''prism.tasks.total_ms'' \<mapsto> durationToMillis (lr_total r),
        ''prism.tasks.page_token_provided'' \<mapsto> ABool (lr_pageTokenProvided r),
        ''prism.tasks.tasks_returned'' \<mapsto> AInt (lr_tasksReturned r),
        ''prism.tasks.has_next_page'' \<mapsto> ABool (lr_hasNextPage r),
        ''prism.tasks.request_start_ns'' \<mapsto> AInt64 (lr_requestStartNS r)]))))"

datatype field_value = FieldAttr attr_value | FieldMap "string \<rightharpoonup> attr_value"

definition log_fields :: "task_log_event \<Rightarrow> string \<rightharpoonup> field_value" where
  "log_fields e =
     (let fields = [''time_unix_nano'' \<mapsto> FieldAttr (AInt64 (le_eventTime e)),
            ''observed_time_unix_nano'' \<mapsto> FieldAttr (AInt64 (le_eventTime e)),
            ''severity_text'' \<mapsto> FieldAttr (AString (le_severityText e)),
            ''severity_number'' \<mapsto> FieldAttr (AInt (le_severityNumber e)),
            ''body'' \<mapsto> FieldAttr (AString tasksEventBody),
            ''event.name'' \<mapsto> FieldAttr (AString tasksEventName),
            ''event.domain'' \<mapsto> FieldAttr (AString tasksEventDomain),
            ''attributes'' \<mapsto> FieldMap (attributesMap (le_record e))];
          f1 = (if le_traceID e \<noteq> '''' then fields(''trace_id'' \<mapsto> FieldAttr (AString (le_traceID e))) else fields)
      in if le_spanID e \<noteq> '''' then f1(''span_id'' \<mapsto> FieldAttr (AString (le_spanID e))) else f1)"

text \<open>The line written to the logger, if there is one.\<close>

definition event_log :: "task_log_event \<Rightarrow> (string \<times> (string \<rightharpoonup> field_value)) option" where
  "event_log e = (if le_logger e then Some (''observability.event'', log_fields e) else None)"

section \<open>The log queue\<close>

text \<open>Workers and buffer; \<open>workers*1024\<close> wraps.\<close>

definition initTaskLogQueue :: "environ \<Rightarrow> int \<Rightarrow> int \<times> int" where
  "initTaskLogQueue env numCPU =
     (let w0 = envInt env ''TASK_METRICS_LOG_WORKERS'' numCPU;
          workers = (if w0 < 1 then 1 else w0);
          b0 = envInt env ''TASK_METRICS_LOG_QUEUE'' (i64 (workers * 1024));
          buffer = (if b0 < 1 then i64 (workers * 1024) else b0)
      in (workers, buffer))"

text \<open>The queue is made by the first event; a queue is its capacity and its events.\<close>

type_synonym log_queue = "(int \<times> task_log_event list) option"

definition enqueueTaskLogEvent ::
  "environ \<Rightarrow> int \<Rightarrow> task_log_event \<Rightarrow> log_queue \<Rightarrow> bool \<times> log_queue" where
  "enqueueTaskLogEvent env numCPU event q =
     (if \<not> le_logger event then (True, q)
      else
        (case (case q of Some cb \<Rightarrow> cb | None \<Rightarrow> (snd (initTaskLogQueue env numCPU), [])) of
           (cap, buf) \<Rightarrow>
             (if int (length buf) < cap then (True, Some (cap, buf @ [event]))
              else (False, Some (cap, buf)))))"

section \<open>Finishing a request\<close>


definition log_record :: "task_request_metrics \<Rightarrow> int \<Rightarrow> go_error option \<Rightarrow> int \<Rightarrow> task_log_record" where
  "log_record m status err elapsed =
     \<lparr>lr_status = status, lr_total = elapsed, lr_auth = tm_authDuration m, lr_fetch = tm_fetchDuration m,
      lr_encode = tm_encodeDuration m, lr_requestStartNS = tm_start m, lr_tasksReturned = tm_tasksReturned m,
      lr_pageTokenProvided = tm_pageTokenProvided m, lr_hasNextPage = tm_hasNextPage m,
      lr_errorStage = tm_errorStage m,
      lr_errorMessage = (case err of None \<Rightarrow> '''' | Some e \<Rightarrow> error_text e)\<rparr>"

text \<open>\<open>http.StatusText\<close> of the standard library.\<close>

definition StatusText :: "int \<Rightarrow> string" where
  "StatusText code = (case map_of
     [(100, ''Continue''), (101, ''Switching Protocols''), (102, ''Processing''), (103, ''Early Hints''),
      (200, ''OK''), (201, ''Created''), (202, ''Accepted''), (203, ''Non-Authoritative Information''),
      (204, ''No Content''), (205, ''Reset Content''), (206, ''Partial Content''), (207, ''Multi-Status''),
      (208, ''Already Reported''), (226, ''IM Used''), (300, ''Multiple Choices''),
      (301, ''Moved Permanently''), (302, ''Found''), (303, ''See Other''), (304, ''Not Modified''),
      (305, ''Use Proxy''), (307, ''Temporary Redirect''), (308, ''Permanent Redirect''),
      (400, ''Bad Request''), (401, ''Unauthorized''), (402, ''Payment Required''), (403, ''Forbidden''),
      (404, ''Not Found''), (405, ''Method Not Allowed''), (406, ''Not Acceptable''),
      (407, ''Proxy Authentication Required''), (408, ''Request Timeout''), (409, ''Conflict''),
      (410, ''Gone''), (411, ''Length Required''), (412, ''Precondition Failed''),
      (413, ''Request Entity Too Large''), (414, ''Request URI Too Long''),
      (415, ''Unsupported Media Type''), (416, ''Requested Range Not Satisfiable''),
      (417, ''Expectation Failed''), (418, ''I'' @ [CHR 0x27] @ ''m a teapot''),
      (421, ''Misdirected Request''), (422, ''Unprocessable Entity''), (423, ''Locked''),
      (424, ''Failed Dependency''), (425, ''Too Early''), (426, ''Upgrade Required''),
      (428, ''Precondition Required''), (429, ''Too Many Requests''),
      (431, ''Request Header Fields Too Large''), (451, ''Unavailable For Legal Reasons''),
      (500, ''Internal Server Error''), (501, ''Not Implemented''), (502, ''Bad Gateway''),
      (503, ''Service Unavailable''), (504, ''Gateway Timeout''), (505, ''HTTP Version Not Supported''),
      (506, ''Variant Also Negotiates''), (507, ''Insufficient Storage''), (508, ''Loop Detected''),
      (510, ''Not Extended''), (511, ''Network Authentication Required'')] code of
     None \<Rightarrow> '''' | Some t \<Rightarrow> t)"

definition span_calls :: "task_log_record \<Rightarrow> int \<Rightarrow> go_error option \<Rightarrow> int \<Rightarrow> span_call list" where
  "span_calls record status err eventTime =
     (case severityForStatus status err of
        (sevText, sevNumber) \<Rightarrow>
          (let kv = keyValues record;
               eventKV = kv @ [(''event.name'', AString tasksEventName), (''event.domain'', AString tasksEventDomain),
                  (''body'', AString tasksEventBody), (''severity_text'', AString sevText),
                  (''severity_number'', AInt sevNumber)];
               msg0 = StatusText status;
               msg = (if msg0 = '''' then (case err of None \<Rightarrow> msg0 | Some e \<Rightarrow> error_text e) else msg0)
           in (case err of None \<Rightarrow> [] | Some e \<Rightarrow> [SpanRecordError e]) @
              [if sevNumber \<ge> 17 \<or> status \<ge> 400 \<or> err \<noteq> None then SpanSetStatus StatusError msg
               else SpanSetStatus StatusOk '''',
               SpanSetAttributes kv, SpanAddEvent ''observability.event'' eventTime eventKV, SpanEnd eventTime]))"

text \<open>The log queue, the calls on the span, and the line that is written directly when the queue is
  full. \<open>elapsed\<close> is the time since the start of the request and \<open>now\<close> the time of the event.\<close>

definition Log ::
  "environ \<Rightarrow> int \<Rightarrow> int \<Rightarrow> int \<Rightarrow> int \<Rightarrow> go_error option \<Rightarrow> task_request_metrics \<Rightarrow> log_queue \<Rightarrow>
   task_request_metrics \<times> log_queue \<times> span_call list \<times> (string \<times> (string \<rightharpoonup> field_value)) option" where
  "Log env numCPU elapsed now status err m q =
     (let record = log_record m status err elapsed;
          (sevText, sevNumber) = severityForStatus status err;
          calls = (case tm_span m of None \<Rightarrow> [] | Some _ \<Rightarrow> span_calls record status err now);
          m1 = (case tm_span m of None \<Rightarrow> m | Some sc \<Rightarrow> m\<lparr>tm_spanContext := sc, tm_span := None\<rparr>)
      in if \<not> tm_logger m1 then (m1, q, calls, None)
         else
           (let event = \<lparr>le_logger = True, le_record = record, le_eventTime = now, le_severityText = sevText,
                  le_severityNumber = sevNumber, le_traceID = sc_TraceID (tm_spanContext m1),
                  le_spanID = sc_SpanID (tm_spanContext m1)\<rparr>
            in (case enqueueTaskLogEvent env numCPU event q of
                  (queued, q1) \<Rightarrow> (m1, q1, calls, if queued then None else event_log event))))"

section \<open>The two forms of the attributes agree\<close>

lemma distinct_optional:
  "distinct (xs @ [a, b, c, d, e]) \<Longrightarrow>
   distinct (xs @ (if p then [a] else []) @ (if q then [b] else []) @ (if r then [c] else []) @
     (if s then [d] else []) @ (if t then [e] else []))"
  by auto

lemma map_fst_optional: "map fst (if p then [(k, v)] else []) = (if p then [k] else [])"
  by simp

lemma keyValues_keys_distinct: "distinct (map fst (keyValues r))"
  unfolding keyValues_def map_append map_fst_optional list.map fst_conv
  by (rule distinct_optional) code_simp

lemma put_if_map_of: "put_if b k v (map_of kvs) = map_of ((if b then [(k, v)] else []) @ kvs)"
  by (simp add: put_if_def)

lemma rev_if_one: "rev (if b then [x] else []) = (if b then [x] else [])"
  by simp

lemma attributesMap_rev: "attributesMap r = map_of (rev (keyValues r))"
proof -
  define base where "base = [(''prism.tasks.request_start_ns'', AInt64 (lr_requestStartNS r)),
      (''prism.tasks.has_next_page'', ABool (lr_hasNextPage r)),
      (''prism.tasks.tasks_returned'', AInt (lr_tasksReturned r)),
      (''prism.tasks.page_token_provided'', ABool (lr_pageTokenProvided r)),
      (''prism.tasks.total_ms'', durationToMillis (lr_total r)),
      (''http.status_code'', AInt (lr_status r)),
      (''http.route'', AString ''/api/tasks'')]"
  have "attributesMap r =
     put_if (lr_errorMessage r \<noteq> '''') ''error.message'' (AString (lr_errorMessage r))
     (put_if (lr_errorStage r \<noteq> '''') ''prism.tasks.error_stage'' (AString (lr_errorStage r))
     (put_if (lr_encode r > 0) ''prism.tasks.encode_ms'' (durationToMillis (lr_encode r))
     (put_if (lr_fetch r > 0) ''prism.tasks.fetch_ms'' (durationToMillis (lr_fetch r))
     (put_if (lr_auth r > 0) ''prism.tasks.auth_ms'' (durationToMillis (lr_auth r)) (map_of base)))))"
    unfolding attributesMap_def base_def map_of.simps fst_conv snd_conv ..
  also have "\<dots> = map_of (rev (keyValues r))"
    unfolding put_if_map_of keyValues_def rev_append rev_if_one base_def by simp
  finally show ?thesis .
qed

lemma keyValues_attributesMap: "map_of (keyValues r) = attributesMap r"
  unfolding attributesMap_rev using keyValues_keys_distinct [of r]
  by (subst map_of_inject_set) (simp_all add: rev_map [symmetric])

lemma severity_error_iff: "snd (severityForStatus status err) = 17 \<longleftrightarrow> err \<noteq> None \<or> 500 \<le> status"
  by (auto simp: severityForStatus_def Let_def)

text \<open>A queue that has been made has room for an event, and never holds more than its capacity.\<close>

lemma initTaskLogQueue_bounds:
  assumes "initTaskLogQueue env numCPU = (w, b)" "w < 2 ^ 53"
  shows "1 \<le> w" "1 \<le> b"
proof -
  show "1 \<le> w" using assms(1) by (auto simp: initTaskLogQueue_def Let_def split: if_splits)
  with assms(2) have "i64 (w * 1024) = w * 1024" by (simp add: i64_id in_i64_def)
  with assms(1) \<open>1 \<le> w\<close> show "1 \<le> b" by (auto simp: initTaskLogQueue_def Let_def split: if_splits)
qed

definition log_queue_ok :: "log_queue \<Rightarrow> bool" where
  "log_queue_ok q = (case q of None \<Rightarrow> True | Some (cap, buf) \<Rightarrow> int (length buf) \<le> max cap 0)"

lemma enqueueTaskLogEvent_ok:
  "log_queue_ok q \<Longrightarrow> enqueueTaskLogEvent env numCPU e q = (b, q') \<Longrightarrow> log_queue_ok q'"
  by (auto simp: enqueueTaskLogEvent_def log_queue_ok_def split: if_splits option.splits prod.splits)

text \<open>A request ends its span once: a second call of \<open>Log\<close> makes no calls on the span.\<close>

lemma Log_ends_span:
  assumes "Log env numCPU elapsed now status err m q = (m', q', calls, direct)"
  shows "tm_span m' = None" "tm_span m \<noteq> None \<Longrightarrow> SpanEnd now \<in> set calls"
    "tm_span m = None \<Longrightarrow> calls = []"
  using assms
  by (auto simp: Log_def Let_def span_calls_def split: prod.splits option.splits if_splits)

end
