(* ===== verification/Api_Timestamps.thy ===== *)
theory Api_Timestamps
  imports Api_Storage Step_Systems
begin

text \<open>
  Server timestamps and idempotency keys (\<open>prism-api/api/utils.go\<close>, and
  \<open>finalizeCommands\<close> of \<open>prism-api/api/handlers.go\<close>). \<open>nextTimestampRange\<close> reserves a
  range of timestamps with a compare-and-swap on a global variable; any number of goroutines may do
  so at the same time, which is the step relation \<open>ts_step\<close>.
\<close>

section \<open>One reservation\<close>

text \<open>The range chosen for a clock reading and the last timestamp seen.\<close>

definition range_start :: "int \<Rightarrow> int \<Rightarrow> int" where
  "range_start now lst = (if now \<le> lst then i64 (lst + 1) else now)"

definition range_end :: "int \<Rightarrow> int \<Rightarrow> int" where
  "range_end start n = i64 (start + i64 (n - 1))"

text \<open>Without interference: result and new value of \<open>lastTimestamp\<close>.\<close>

definition nextTimestampRange :: "int \<Rightarrow> int \<Rightarrow> int \<Rightarrow> int \<times> int" where
  "nextTimestampRange n now lst =
     (if n \<le> 0 then (0, lst)
      else (let start = range_start now lst in (start, range_end start n)))"

definition nextTimestamp :: "int \<Rightarrow> int \<Rightarrow> int \<times> int" where
  "nextTimestamp now lst = nextTimestampRange 1 now lst"

section \<open>Concurrent reservations\<close>

text \<open>A goroutine is before its loop body, between the load and the compare-and-swap, or has
  returned.\<close>

datatype ts_proc =
    TsReady (ts_n: int)
  | TsLoaded (ts_n: int) (ts_last: int) (ts_start: int)
  | TsReturned (ts_n: int) (ts_start: int)

record ts_state =
  ts_global :: int
  ts_procs :: "ts_proc list"

text \<open>\<open>C\<close> bounds the clock readings.\<close>

inductive ts_step :: "int \<Rightarrow> ts_state \<Rightarrow> ts_state \<Rightarrow> bool" for C where
  ts_load: "i < length (ts_procs s) \<Longrightarrow> ts_procs s ! i = TsReady n \<Longrightarrow> in_i64 now \<Longrightarrow> now \<le> C \<Longrightarrow>
     ts_step C s (s\<lparr>ts_procs := (ts_procs s)[i := TsLoaded n (ts_global s) (range_start now (ts_global s))]\<rparr>)"
| ts_swap: "i < length (ts_procs s) \<Longrightarrow> ts_procs s ! i = TsLoaded n l st \<Longrightarrow> ts_global s = l \<Longrightarrow>
     ts_step C s (s\<lparr>ts_global := range_end st n, ts_procs := (ts_procs s)[i := TsReturned n st]\<rparr>)"
| ts_retry: "i < length (ts_procs s) \<Longrightarrow> ts_procs s ! i = TsLoaded n l st \<Longrightarrow> ts_global s \<noteq> l \<Longrightarrow>
     ts_step C s (s\<lparr>ts_procs := (ts_procs s)[i := TsReady n]\<rparr>)"

definition ts_init :: "int \<Rightarrow> int list \<Rightarrow> ts_state" where
  "ts_init g ns = \<lparr>ts_global = g, ts_procs = map TsReady ns\<rparr>"

subsection \<open>Ranges are disjoint\<close>

definition returned_n :: "ts_proc \<Rightarrow> int" where
  "returned_n p = (case p of TsReturned n _ \<Rightarrow> n | _ \<Rightarrow> 0)"

text \<open>Every range lies above the initial value and below the current one; a loaded value is not
  above the current one.\<close>

definition ts_inv :: "int \<Rightarrow> int \<Rightarrow> int list \<Rightarrow> ts_state \<Rightarrow> bool" where
  "ts_inv C g0 ns s \<longleftrightarrow>
     map ts_n (ts_procs s) = ns \<and> g0 \<le> ts_global s \<and>
     ts_global s \<le> C + sum_list (map returned_n (ts_procs s)) \<and>
     (\<forall>n l st. TsLoaded n l st \<in> set (ts_procs s) \<longrightarrow> l \<le> ts_global s \<and> l < st \<and> st \<le> max C (l + 1) \<and> in_i64 st) \<and>
     (\<forall>n st. TsReturned n st \<in> set (ts_procs s) \<longrightarrow> g0 < st \<and> st + n - 1 \<le> ts_global s)"

definition disjoint_ranges :: "ts_state \<Rightarrow> bool" where
  "disjoint_ranges s \<longleftrightarrow>
     (\<forall>i j n m a b. i < length (ts_procs s) \<longrightarrow> j < length (ts_procs s) \<longrightarrow> i \<noteq> j \<longrightarrow>
        ts_procs s ! i = TsReturned n a \<longrightarrow> ts_procs s ! j = TsReturned m b \<longrightarrow> a + n \<le> b \<or> b + m \<le> a)"

lemma returned_sum:
  "\<forall>n \<in> set (map ts_n ps). 1 \<le> n \<Longrightarrow> sum_list (map returned_n ps) \<le> sum_list (map ts_n ps)"
  by (induction ps) (auto simp: returned_n_def split: ts_proc.splits)

lemma returned_sum_nonneg: "\<forall>n \<in> set (map ts_n ps). 1 \<le> n \<Longrightarrow> 0 \<le> sum_list (map returned_n ps)"
  by (induction ps) (auto simp: returned_n_def split: ts_proc.splits)

lemma sum_list_set:
  fixes xs :: "int list"
  shows "i < length xs \<Longrightarrow> sum_list (xs[i := x]) = sum_list xs - xs ! i + x"
  by (induction xs arbitrary: i) (auto split: nat.splits)

lemma returned_sum_set:
  "i < length ps \<Longrightarrow>
   sum_list (map returned_n (ps[i := p])) = sum_list (map returned_n ps) - returned_n (ps ! i) + returned_n p"
  by (simp add: map_update sum_list_set)

text \<open>A goroutine that has not returned still has room for its range.\<close>

lemma pending_room:
  "i < length ps \<Longrightarrow> returned_n (ps ! i) = 0 \<Longrightarrow> \<forall>p \<in> set ps. 1 \<le> ts_n p \<Longrightarrow>
   sum_list (map returned_n ps) + ts_n (ps ! i) \<le> sum_list (map ts_n ps)"
proof (induction ps arbitrary: i)
  case (Cons p ps)
  show ?case
  proof (cases i)
    case 0
    with Cons.prems returned_sum [of ps] show ?thesis by auto
  next
    case (Suc j)
    have "returned_n p \<le> ts_n p"
      using Cons.prems(3) by (cases p) (auto simp: returned_n_def)
    with Suc Cons show ?thesis by fastforce
  qed
qed simp

lemma range_start_bounds:
  assumes "in_i64 now" "now \<le> C" "- (2 ^ 63) \<le> g" "g + 1 < 2 ^ 63"
  shows "g < range_start now g" "range_start now g \<le> max C (g + 1)" "in_i64 (range_start now g)"
  using assms by (auto simp: range_start_def i64_id in_i64_def)

lemma range_end_exact:
  assumes "1 \<le> n" "in_i64 st" "st + n - 1 < 2 ^ 63"
  shows "range_end st n = st + n - 1"
proof -
  have "i64 (n - 1) = n - 1 \<or> 2 ^ 63 \<le> n - 1"
    using assms(1) by (cases "n - 1 < 2 ^ 63") (auto simp: i64_id in_i64_def)
  then show ?thesis
  proof
    assume "i64 (n - 1) = n - 1"
    then show ?thesis using assms by (simp add: range_end_def i64_id in_i64_def)
  next
    assume "2 ^ 63 \<le> n - 1"
    have "i64 (st + i64 (n - 1)) = i64 (st + (n - 1))"
      by (simp add: i64_def mod_simps algebra_simps)
    then show ?thesis using assms by (simp add: range_end_def i64_id in_i64_def)
  qed
qed

lemma set_update_cases:
  "i < length xs \<Longrightarrow> y \<in> set (xs[i := x]) \<Longrightarrow> y = x \<or> y \<in> set xs"
  using set_update_subset_insert [of xs i x] by auto

lemma ts_n_set: "i < length ps \<Longrightarrow> ts_n p = ts_n (ps ! i) \<Longrightarrow> map ts_n (ps[i := p]) = map ts_n ps"
  by (metis length_map list_update_id map_update nth_map)

lemma proc_n_pos: "i < length ps \<Longrightarrow> \<forall>n \<in> set (map ts_n ps). 1 \<le> n \<Longrightarrow> 1 \<le> ts_n (ps ! i)"
  by simp

lemma ts_step_inv:
  assumes "ts_step C s t" "ts_inv C g0 ns s" "\<forall>n \<in> set ns. 1 \<le> n" "- (2 ^ 63) \<le> g0" "C + sum_list ns < 2 ^ 63"
  shows "ts_inv C g0 ns t"
  using assms
proof (induction rule: ts_step.induct)
  case (ts_load i s n now)
  let ?p = "TsLoaded n (ts_global s) (range_start now (ts_global s))"
  have ns: "map ts_n (ts_procs s) = ns" and g: "g0 \<le> ts_global s"
    "ts_global s \<le> C + sum_list (map returned_n (ts_procs s))"
    using ts_load(5) by (auto simp: ts_inv_def)
  have n: "1 \<le> n" using proc_n_pos [OF ts_load(1)] ts_load(2,6) ns by simp
  have "sum_list (map returned_n (ts_procs s)) + n \<le> sum_list ns"
    using pending_room [OF ts_load(1)] ts_load(2,6) ns by (auto simp: returned_n_def)
  then have room: "ts_global s + 1 < 2 ^ 63" using g n ts_load(8) by linarith
  note b = range_start_bounds [OF ts_load(3,4) _ room]
  have "map ts_n ((ts_procs s)[i := ?p]) = ns"
    using ts_n_set [OF ts_load(1), of ?p] ts_load(2) ns by simp
  moreover have "sum_list (map returned_n ((ts_procs s)[i := ?p])) = sum_list (map returned_n (ts_procs s))"
    using ts_load(1,2) by (simp add: returned_sum_set) (simp add: returned_n_def)
  ultimately show ?case
    using ts_load(5,7) g b unfolding ts_inv_def
    by (auto dest!: set_update_cases [OF ts_load(1)])
next
  case (ts_swap i s n l st)
  let ?p = "TsReturned n st"
  have ns: "map ts_n (ts_procs s) = ns" and g: "g0 \<le> ts_global s"
    "ts_global s \<le> C + sum_list (map returned_n (ts_procs s))"
    using ts_swap(4) by (auto simp: ts_inv_def)
  have "TsLoaded n l st \<in> set (ts_procs s)" using nth_mem [OF ts_swap(1)] ts_swap(2) by simp
  then have l: "l < st" "st \<le> max C (l + 1)" "in_i64 st" using ts_swap(4) unfolding ts_inv_def by blast+
  have n: "1 \<le> n" using proc_n_pos [OF ts_swap(1)] ts_swap(2,5) ns by simp
  have room: "sum_list (map returned_n (ts_procs s)) + n \<le> sum_list ns"
    using pending_room [OF ts_swap(1)] ts_swap(2,5) ns by (auto simp: returned_n_def)
  moreover have "0 \<le> sum_list (map returned_n (ts_procs s))"
    using returned_sum_nonneg [of "ts_procs s"] ts_swap(5) ns by simp
  ultimately have "st + n - 1 < 2 ^ 63" using l g ts_swap(3,7) by linarith
  from range_end_exact [OF n l(3) this] have e: "range_end st n = st + n - 1" .
  have "map ts_n ((ts_procs s)[i := ?p]) = ns"
    using ts_n_set [OF ts_swap(1), of ?p] ts_swap(2) ns by simp
  moreover have "sum_list (map returned_n ((ts_procs s)[i := ?p])) = sum_list (map returned_n (ts_procs s)) + n"
    using ts_swap(1,2) by (simp add: returned_sum_set) (simp add: returned_n_def)
  moreover have "0 \<le> sum_list (map returned_n (ts_procs s))" by fact
  ultimately show ?case
    using ts_swap(3,4) g l n e unfolding ts_inv_def
    by (fastforce dest!: set_update_cases [OF ts_swap(1)])
next
  case (ts_retry i s n l st)
  have "map ts_n ((ts_procs s)[i := TsReady n]) = map ts_n (ts_procs s)"
    using ts_n_set [OF ts_retry(1), of "TsReady n"] ts_retry(2) by simp
  moreover have "sum_list (map returned_n ((ts_procs s)[i := TsReady n])) = sum_list (map returned_n (ts_procs s))"
    using ts_retry(1,2) by (simp add: returned_sum_set) (simp add: returned_n_def)
  ultimately show ?case
    using ts_retry(4) unfolding ts_inv_def by (auto dest!: set_update_cases [OF ts_retry(1)])
qed

lemma ts_step_disjoint:
  assumes "ts_step C s t" "ts_inv C g0 ns s" "disjoint_ranges s"
  shows "disjoint_ranges t"
  using assms
proof (induction rule: ts_step.induct)
  case (ts_swap i s n l st)
  have below: "b + m \<le> st" if "j < length (ts_procs s)" "ts_procs s ! j = TsReturned m b" for j m b
  proof -
    have "TsReturned m b \<in> set (ts_procs s)" "TsLoaded n l st \<in> set (ts_procs s)"
      using that ts_swap(1,2) by (metis nth_mem)+
    with ts_swap(3,4) have "b + m - 1 \<le> l" "l < st" unfolding ts_inv_def by blast+
    then show ?thesis by simp
  qed
  show ?case unfolding disjoint_ranges_def
  proof (intro allI impI)
    fix a b p q x y
    let ?ps = "ts_procs (s\<lparr>ts_global := range_end st n, ts_procs := (ts_procs s)[i := TsReturned n st]\<rparr>)"
    assume *: "a < length ?ps" "b < length ?ps" "a \<noteq> b" "?ps ! a = TsReturned p x" "?ps ! b = TsReturned q y"
    then consider "a = i" | "b = i" | "a \<noteq> i" "b \<noteq> i" by blast
    then show "x + p \<le> y \<or> y + q \<le> x"
    proof cases
      case 1
      with * below [of b q y] show ?thesis by auto
    next
      case 2
      with * below [of a p x] show ?thesis by auto
    next
      case 3
      with * ts_swap(5) show ?thesis by (simp add: disjoint_ranges_def)
    qed
  qed
qed (auto simp: disjoint_ranges_def nth_list_update split: if_splits)

definition ts_ok :: "int \<Rightarrow> int \<Rightarrow> int list \<Rightarrow> ts_state \<Rightarrow> bool" where
  "ts_ok C g0 ns s \<longleftrightarrow> (\<forall>n \<in> set ns. 1 \<le> n) \<and> - (2 ^ 63) \<le> g0 \<and> g0 \<le> C \<and> C + sum_list ns < 2 ^ 63 \<and>
     ts_inv C g0 ns s \<and> disjoint_ranges s"

lemma ts_ok_init:
  assumes "\<forall>n \<in> set ns. 1 \<le> n" "- (2 ^ 63) \<le> g0" "g0 \<le> C" "C + sum_list ns < 2 ^ 63"
  shows "ts_ok C g0 ns (ts_init g0 ns)"
proof -
  have "sum_list (map (returned_n \<circ> TsReady) ns) = 0"
    by (induction ns) (auto simp: returned_n_def)
  moreover have "map (ts_n \<circ> TsReady) ns = ns" by (induction ns) auto
  ultimately show ?thesis
    using assms by (auto simp: ts_ok_def ts_inv_def ts_init_def disjoint_ranges_def)
qed

lemma ts_ok_step: "ts_step C s t \<Longrightarrow> ts_ok C g0 ns s \<Longrightarrow> ts_ok C g0 ns t"
  unfolding ts_ok_def using ts_step_inv ts_step_disjoint by blast

subsection \<open>Every goroutine returns\<close>

text \<open>A goroutine has to go round again only because another one has returned in the meantime, so
  the number of steps is bounded.\<close>

definition ts_weight :: "int \<Rightarrow> ts_proc \<Rightarrow> nat" where
  "ts_weight g p =
     (case p of TsReturned _ _ \<Rightarrow> 0 | TsLoaded _ l _ \<Rightarrow> (if l = g then 1 else 3) | TsReady _ \<Rightarrow> 2)"

definition pending :: "ts_proc list \<Rightarrow> nat" where
  "pending ps = length (filter (\<lambda>p. \<not> (\<exists>n st. p = TsReturned n st)) ps)"

definition ts_measure :: "ts_state \<Rightarrow> nat" where
  "ts_measure s = (2 * length (ts_procs s) + 2) * pending (ts_procs s)
     + sum_list (map (ts_weight (ts_global s)) (ts_procs s))"

lemma pending_Cons:
  "pending (p # ps) = (if \<exists>n st. p = TsReturned n st then 0 else 1) + pending ps"
  by (simp add: pending_def)

lemma pending_set:
  "i < length ps \<Longrightarrow> (\<exists>n st. p = TsReturned n st) = (\<exists>n st. ps ! i = TsReturned n st) \<Longrightarrow>
   pending (ps[i := p]) = pending ps"
  by (induction ps arbitrary: i) (auto simp: pending_Cons split: nat.splits)

lemma pending_returned:
  "i < length ps \<Longrightarrow> ps ! i = TsLoaded n l st \<Longrightarrow> Suc (pending (ps[i := TsReturned n st'])) = pending ps"
proof (induction ps arbitrary: i)
  case (Cons p ps)
  then show ?case by (cases i) (auto simp: pending_Cons)
qed simp

lemma weight_swap_bound: "sum_list (map (ts_weight g') ps) \<le> sum_list (map (ts_weight g) ps) + 2 * length ps"
  by (induction ps) (auto simp: ts_weight_def split: ts_proc.splits)

lemma ts_step_measure: "ts_step C s t \<Longrightarrow> ts_measure t < ts_measure s"
proof (induction rule: ts_step.induct)
  case (ts_load i s n now)
  then show ?case
    using elem_le_sum_list [of i "map (ts_weight (ts_global s)) (ts_procs s)"]
    by (simp add: ts_measure_def pending_set map_update sum_list_update ts_weight_def)
next
  case (ts_retry i s n l st)
  then show ?case
    using elem_le_sum_list [of i "map (ts_weight (ts_global s)) (ts_procs s)"]
    by (simp add: ts_measure_def pending_set map_update sum_list_update ts_weight_def)
next
  case (ts_swap i s n l st)
  let ?ps = "(ts_procs s)[i := TsReturned n st]"
  have "sum_list (map (ts_weight (ts_global s)) ?ps) \<le> sum_list (map (ts_weight (ts_global s)) (ts_procs s))"
    using ts_swap(1) elem_le_sum_list [of i "map (ts_weight (ts_global s)) (ts_procs s)"]
    by (simp add: map_update sum_list_update ts_weight_def)
  then have "sum_list (map (ts_weight (range_end st n)) ?ps)
      \<le> sum_list (map (ts_weight (ts_global s)) (ts_procs s)) + 2 * length (ts_procs s)"
    using weight_swap_bound [of "range_end st n" ?ps "ts_global s"] by simp
  then show ?case
    using pending_returned [OF ts_swap(1,2), of st] by (simp add: ts_measure_def flip: \<open>Suc _ = _\<close>)
qed

fun ts_is_returned :: "ts_proc \<Rightarrow> bool" where
  "ts_is_returned (TsReturned _ _) = True"
| "ts_is_returned _ = False"

definition ts_final :: "ts_state \<Rightarrow> bool" where
  "ts_final s \<longleftrightarrow> list_all ts_is_returned (ts_procs s)"

text \<open>As long as a goroutine has not returned, it can take a step.\<close>

lemma ts_progress:
  assumes "i < length (ts_procs s)" "\<not> ts_is_returned (ts_procs s ! i)" "- (2 ^ 63) \<le> C" "C < 2 ^ 63"
  shows "\<exists>t. ts_step C s t"
proof (cases "ts_procs s ! i")
  case (TsReady n)
  then show ?thesis using ts_load [OF assms(1), of n C C] assms by (auto simp: in_i64_def)
next
  case (TsLoaded n l st)
  then show ?thesis using ts_swap [OF assms(1) TsLoaded] ts_retry [OF assms(1) TsLoaded] by blast
qed (use assms in auto)

lemma sum_list_pos_ints: "\<forall>n \<in> set ns. (1 :: int) \<le> n \<Longrightarrow> 0 \<le> sum_list ns"
  by (induction ns) auto

lemma ts_ok_progress: "ts_ok C g0 ns s \<Longrightarrow> \<not> ts_final s \<Longrightarrow> \<exists>t. ts_step C s t"
proof -
  assume *: "ts_ok C g0 ns s" "\<not> ts_final s"
  then obtain i where "i < length (ts_procs s)" "\<not> ts_is_returned (ts_procs s ! i)"
    by (auto simp: ts_final_def list_all_length)
  with * sum_list_pos_ints [of ns] show ?thesis by (intro ts_progress [of i]) (auto simp: ts_ok_def)
qed

interpretation ts_live: live_system "ts_step C" "ts_ok C g0 ns" ts_measure ts_final for C g0 ns
  by unfold_locales (fact ts_ok_step ts_step_measure ts_ok_progress)+

lemma ts_measure_init: "ts_measure (ts_init g ns) = (2 * length ns + 4) * length ns"
proof -
  have "sum_list (map (ts_weight g \<circ> TsReady) ns) = 2 * length ns"
    by (induction ns) (auto simp: ts_weight_def)
  moreover have "pending (map TsReady ns) = length ns" by (simp add: pending_def filter_map comp_def)
  ultimately show ?thesis by (simp add: ts_measure_def ts_init_def algebra_simps)
qed

section \<open>Completing commands\<close>

definition applyCommandMetadata :: "command \<Rightarrow> int \<Rightarrow> command \<times> string" where
  "applyCommandMetadata cmd ts =
     (let key = (if cmd_IdempotencyKey cmd = '''' then format_int 36 ts else cmd_IdempotencyKey cmd)
      in (cmd\<lparr>cmd_IdempotencyKey := key, cmd_ID := key, cmd_Timestamp := ts\<rparr>, key))"

fun finalize_loop :: "int \<Rightarrow> int \<Rightarrow> command list \<Rightarrow> (command \<times> string) list" where
  "finalize_loop start i [] = []"
| "finalize_loop start i (c # cs) =
     applyCommandMetadata c (i64 (start + i)) # finalize_loop start (i + 1) cs"

text \<open>\<open>reserve\<close> is \<open>nextTimestampRange\<close>, which acts on the global variable. The commands are
  changed in place; the result is the changed commands and the keys.\<close>

definition finalizeCommands ::
  "(int \<Rightarrow> 'w \<Rightarrow> int \<times> 'w) \<Rightarrow> command list \<Rightarrow> 'w \<Rightarrow> (command list \<times> string list) \<times> 'w" where
  "finalizeCommands reserve cmds w =
     (if cmds = [] then (([], []), w)
      else (case reserve (int (length cmds)) w of
              (start, w1) \<Rightarrow>
                (let r = finalize_loop start 0 cmds in ((map fst r, map snd r), w1))))"

lemma length_finalize_loop [simp]: "length (finalize_loop start i cs) = length cs"
  by (induction cs arbitrary: i) auto

lemma finalize_loop_nth:
  "k < length cs \<Longrightarrow>
   finalize_loop start i cs ! k = applyCommandMetadata (cs ! k) (i64 (start + i + int k))"
proof (induction cs arbitrary: i k)
  case (Cons c cs)
  then show ?case by (cases k) (auto simp: algebra_simps)
qed simp

text \<open>What a batch looks like afterwards: each command carries its key as \<open>ID\<close>, keeps a key it
  came with, and has the timestamp of its position.\<close>

lemma finalizeCommands_nth:
  assumes "finalizeCommands reserve cmds w = ((cs, keys), w')" "cmds \<noteq> []"
    "reserve (int (length cmds)) w = (start, w1)" "in_i64 start" "start + int (length cmds) - 1 < 2 ^ 63"
  shows "length cs = length cmds" "length keys = length cmds" "w' = w1"
    "k < length cmds \<Longrightarrow> cs ! k = fst (applyCommandMetadata (cmds ! k) (start + int k)) \<and>
       keys ! k = snd (applyCommandMetadata (cmds ! k) (start + int k))"
proof -
  have r: "cs = map fst (finalize_loop start 0 cmds)" "keys = map snd (finalize_loop start 0 cmds)" "w' = w1"
    using assms(1-3) by (auto simp: finalizeCommands_def Let_def)
  then show "length cs = length cmds" "length keys = length cmds" "w' = w1" by simp_all
  assume k: "k < length cmds"
  then have "in_i64 (start + int k)" using assms(4,5) by (auto simp: in_i64_def)
  then show "cs ! k = fst (applyCommandMetadata (cmds ! k) (start + int k)) \<and>
       keys ! k = snd (applyCommandMetadata (cmds ! k) (start + int k))"
    using k r by (simp add: finalize_loop_nth i64_id)
qed

lemma generated_keys_distinct:
  assumes "cmd_IdempotencyKey a = ''''" "cmd_IdempotencyKey b = ''''" "s \<noteq> t"
  shows "snd (applyCommandMetadata a s) \<noteq> snd (applyCommandMetadata b t)"
  using assms format_int_inj [of 36 s t] by (auto simp: applyCommandMetadata_def Let_def)

end
