(* ===== verification/Api_Enqueue.thy ===== *)
theory Api_Enqueue
  imports Api_Storage Step_Systems "HOL-Library.Multiset"
begin

text \<open>
  \<open>EnqueueCommands\<close> (\<open>prism-api/storage/storage.go\<close>): the commands of a request are sent to
  the queue one after the other, or by a group of worker goroutines that a producer feeds through a
  buffered channel. The second way is the step relation \<open>eq_step\<close>; the scheduler, the outcome
  of each call and the cancellation of the request are its choices.
\<close>

section \<open>Payloads and the sequential way\<close>

fun marshal_payloads :: "sonic \<Rightarrow> string \<Rightarrow> command list \<Rightarrow> go_error + string list" where
  "marshal_payloads sn userID [] = Inr []"
| "marshal_payloads sn userID (c # cs) =
     (case sn_envelope sn \<lparr>env_UserID = userID, env_Command = c\<rparr> of
        Inl e \<Rightarrow> Inl e
      | Inr p \<Rightarrow> (case marshal_payloads sn userID cs of Inl e \<Rightarrow> Inl e | Inr ps \<Rightarrow> Inr (p # ps)))"

fun enqueue_seq :: "'w command_queue \<Rightarrow> string list \<Rightarrow> 'w \<Rightarrow> go_error option \<times> 'w" where
  "enqueue_seq q [] w = (None, w)"
| "enqueue_seq q (p # ps) w =
     (case cq_EnqueueMessage q p w of
        (Some e, w1) \<Rightarrow> (Some e, w1)
      | (None, w1) \<Rightarrow> enqueue_seq q ps w1)"

text \<open>How a call proceeds, by the number of commands and the configured concurrency.\<close>

datatype enqueue_way =
    PlanDone "go_error option"
  | PlanSequential "string list"
  | PlanWorkers nat "string list"

definition enqueue_plan :: "sonic \<Rightarrow> 'w api_storage \<Rightarrow> string \<Rightarrow> command list \<Rightarrow> enqueue_way" where
  "enqueue_plan sn s userID cmds =
     (if cmds = [] then PlanDone None
      else (case marshal_payloads sn userID cmds of
              Inl e \<Rightarrow> PlanDone (Some e)
            | Inr payloads \<Rightarrow>
                (let workers = sa_queueConcurrency s in
                 if workers \<le> 1 then PlanSequential payloads
                 else PlanWorkers (nat (min workers (int (length payloads)))) payloads)))"

section \<open>The workers\<close>

datatype eq_worker = EqIdle | EqSending string | EqDone

record eq_state =
  eq_todo :: "string list"
  eq_chan :: "string list"
  eq_closed :: bool
  eq_workers :: "eq_worker list"
  eq_firstErr :: "go_error option"
  eq_parentErr :: "go_error option"
  eq_sent :: "string list"

text \<open>\<open>ctx.Done()\<close>: the context is cancelled after the first error, and with its parent.\<close>

definition eq_cancelled :: "eq_state \<Rightarrow> bool" where
  "eq_cancelled s \<longleftrightarrow> eq_firstErr s \<noteq> None \<or> eq_parentErr s \<noteq> None"

definition eq_init :: "nat \<Rightarrow> string list \<Rightarrow> eq_state" where
  "eq_init n payloads = \<lparr>eq_todo = payloads, eq_chan = [], eq_closed = False,
     eq_workers = replicate n EqIdle, eq_firstErr = None, eq_parentErr = None, eq_sent = []\<rparr>"

text \<open>\<open>cap\<close> is the capacity of the channel. A failed call may or may not have delivered its
  message.\<close>

inductive eq_step :: "nat \<Rightarrow> eq_state \<Rightarrow> eq_state \<Rightarrow> bool" for cap where
  eq_offer: "\<not> eq_closed s \<Longrightarrow> eq_todo s = p # ps \<Longrightarrow> length (eq_chan s) < cap \<Longrightarrow>
     eq_step cap s (s\<lparr>eq_todo := ps, eq_chan := eq_chan s @ [p]\<rparr>)"
| eq_break: "\<not> eq_closed s \<Longrightarrow> eq_todo s \<noteq> [] \<Longrightarrow> eq_cancelled s \<Longrightarrow> eq_step cap s (s\<lparr>eq_closed := True\<rparr>)"
| eq_close: "\<not> eq_closed s \<Longrightarrow> eq_todo s = [] \<Longrightarrow> eq_step cap s (s\<lparr>eq_closed := True\<rparr>)"
| eq_take: "i < length (eq_workers s) \<Longrightarrow> eq_workers s ! i = EqIdle \<Longrightarrow> eq_chan s = p # ps \<Longrightarrow>
     eq_step cap s (s\<lparr>eq_chan := ps, eq_workers := (eq_workers s)[i := EqSending p]\<rparr>)"
| eq_quit_closed: "i < length (eq_workers s) \<Longrightarrow> eq_workers s ! i = EqIdle \<Longrightarrow> eq_chan s = [] \<Longrightarrow> eq_closed s \<Longrightarrow>
     eq_step cap s (s\<lparr>eq_workers := (eq_workers s)[i := EqDone]\<rparr>)"
| eq_quit_cancel: "i < length (eq_workers s) \<Longrightarrow> eq_workers s ! i = EqIdle \<Longrightarrow> eq_cancelled s \<Longrightarrow>
     eq_step cap s (s\<lparr>eq_workers := (eq_workers s)[i := EqDone]\<rparr>)"
| eq_send_ok: "i < length (eq_workers s) \<Longrightarrow> eq_workers s ! i = EqSending p \<Longrightarrow>
     eq_step cap s (s\<lparr>eq_sent := eq_sent s @ [p], eq_workers := (eq_workers s)[i := EqIdle]\<rparr>)"
| eq_send_err: "i < length (eq_workers s) \<Longrightarrow> eq_workers s ! i = EqSending p \<Longrightarrow>
     eq_step cap s (s\<lparr>eq_firstErr := (case eq_firstErr s of None \<Rightarrow> Some e | Some e' \<Rightarrow> Some e'),
       eq_sent := (if delivered then eq_sent s @ [p] else eq_sent s),
       eq_workers := (eq_workers s)[i := EqDone]\<rparr>)"
| eq_parent_cancel: "eq_parentErr s = None \<Longrightarrow> eq_step cap s (s\<lparr>eq_parentErr := Some e\<rparr>)"

text \<open>The call returns when the producer has closed the channel and all workers are done.\<close>

definition eq_final :: "eq_state \<Rightarrow> bool" where
  "eq_final s \<longleftrightarrow> eq_closed s \<and> list_all (\<lambda>w. w = EqDone) (eq_workers s)"

definition eq_result :: "eq_state \<Rightarrow> go_error option" where
  "eq_result s = (case eq_firstErr s of Some e \<Rightarrow> Some e | None \<Rightarrow> eq_parentErr s)"

subsection \<open>Messages are neither lost nor duplicated\<close>

definition in_flight :: "eq_worker \<Rightarrow> string multiset" where
  "in_flight w = (case w of EqSending p \<Rightarrow> {#p#} | _ \<Rightarrow> {#})"

definition eq_messages :: "eq_state \<Rightarrow> string multiset" where
  "eq_messages s = mset (eq_sent s) + sum_list (map in_flight (eq_workers s)) + mset (eq_chan s)
     + mset (eq_todo s)"

definition eq_inv :: "nat \<Rightarrow> string list \<Rightarrow> eq_state \<Rightarrow> bool" where
  "eq_inv cap payloads s \<longleftrightarrow>
     eq_messages s \<subseteq># mset payloads \<and> (eq_firstErr s = None \<longrightarrow> eq_messages s = mset payloads) \<and>
     length (eq_chan s) \<le> cap \<and>
     (\<not> eq_cancelled s \<longrightarrow> (eq_closed s \<longrightarrow> eq_todo s = []) \<and>
        (EqDone \<in> set (eq_workers s) \<longrightarrow> eq_closed s \<and> eq_chan s = []))"

lemma in_flight_split:
  "i < length ws \<Longrightarrow> sum_list (map in_flight ws) = in_flight (ws ! i) + sum_list (map in_flight (take i ws @ drop (Suc i) ws))"
  by (subst id_take_nth_drop [of i ws]) (auto simp: ac_simps)

lemma in_flight_set:
  assumes "i < length ws"
  shows "sum_list (map in_flight (ws[i := w])) + in_flight (ws ! i) = sum_list (map in_flight ws) + in_flight w"
  using in_flight_split [OF assms] assms
  by (simp add: upd_conv_take_nth_drop ac_simps)

lemmas flight_simps = in_flight_def eq_messages_def

lemma done_update: "i < length ws \<Longrightarrow> EqDone \<in> set (ws[i := w]) \<Longrightarrow> w \<noteq> EqDone \<Longrightarrow> EqDone \<in> set ws"
  using set_update_subset_insert [of ws i w] by auto

lemma eq_step_inv:
  assumes "eq_step cap s t" "eq_inv cap payloads s"
  shows "eq_inv cap payloads t"
  using assms
proof (induction rule: eq_step.induct)
  case (eq_take i s p ps)
  have "eq_messages (s\<lparr>eq_chan := ps, eq_workers := (eq_workers s)[i := EqSending p]\<rparr>) = eq_messages s"
    using in_flight_set [OF eq_take(1), of "EqSending p"] eq_take(2,3)
    by (simp add: eq_messages_def in_flight_def)
  then show ?case
    using eq_take by (auto simp: eq_inv_def eq_cancelled_def dest: done_update)
next
  case (eq_quit_closed i s)
  then show ?case
    using in_flight_set [OF eq_quit_closed(1), of EqDone]
    by (auto simp: eq_inv_def eq_cancelled_def flight_simps)
next
  case (eq_quit_cancel i s)
  then show ?case
    using in_flight_set [OF eq_quit_cancel(1), of EqDone]
    by (auto simp: eq_inv_def eq_cancelled_def flight_simps)
next
  case (eq_send_ok i s p)
  have "eq_messages (s\<lparr>eq_sent := eq_sent s @ [p], eq_workers := (eq_workers s)[i := EqIdle]\<rparr>) = eq_messages s"
    using in_flight_set [OF eq_send_ok(1), of EqIdle] eq_send_ok(2)
    by (simp add: eq_messages_def in_flight_def)
  then show ?case
    using eq_send_ok by (auto simp: eq_inv_def eq_cancelled_def dest: done_update)
next
  case (eq_send_err i s p delivered e)
  let ?t = "s\<lparr>eq_firstErr := (case eq_firstErr s of None \<Rightarrow> Some e | Some e' \<Rightarrow> Some e'),
       eq_sent := (if delivered then eq_sent s @ [p] else eq_sent s),
       eq_workers := (eq_workers s)[i := EqDone]\<rparr>"
  have "sum_list (map in_flight (eq_workers s)) =
      add_mset p (sum_list (map in_flight ((eq_workers s)[i := EqDone])))"
    using in_flight_set [OF eq_send_err(1), of EqDone] eq_send_err(2) by (simp add: in_flight_def)
  then have "eq_messages ?t \<subseteq># eq_messages s" by (auto simp: eq_messages_def)
  then have "eq_messages ?t \<subseteq># mset payloads"
    using eq_send_err(3) by (auto simp: eq_inv_def intro: subset_mset.order_trans)
  then show ?case
    using eq_send_err(3) by (auto simp: eq_inv_def eq_cancelled_def split: option.splits)
qed (auto simp: eq_inv_def eq_cancelled_def eq_messages_def)

lemma no_flight:
  "list_all (\<lambda>w. w = EqDone) ws \<Longrightarrow> sum_list (map in_flight ws) = {#}"
  by (induction ws) (auto simp: in_flight_def)

lemma no_flight_idle: "sum_list (replicate n (in_flight EqIdle)) = {#}"
  by (induction n) (auto simp: in_flight_def)

lemma eq_inv_init: "eq_inv cap payloads (eq_init n payloads)"
  by (simp add: eq_inv_def eq_init_def eq_messages_def eq_cancelled_def no_flight_idle)

lemma eq_final_none:
  assumes "eq_inv cap payloads s" "eq_final s" "eq_result s = None" "eq_workers s \<noteq> []"
  shows "mset (eq_sent s) = mset payloads"
proof -
  have "\<not> eq_cancelled s" using assms(3) by (auto simp: eq_result_def eq_cancelled_def split: option.splits)
  moreover have "EqDone \<in> set (eq_workers s)"
    using assms(2,4) by (cases "eq_workers s") (auto simp: eq_final_def)
  ultimately have "eq_chan s = []" "eq_todo s = []" "eq_messages s = mset payloads"
    using assms(1) by (auto simp: eq_inv_def eq_cancelled_def)
  with assms(2) show ?thesis by (simp add: eq_messages_def eq_final_def no_flight)
qed

lemma eq_sent_sub: "eq_inv cap payloads s \<Longrightarrow> mset (eq_sent s) \<subseteq># mset payloads"
  by (rule subset_mset.order_trans [of _ "eq_messages s"]) (auto simp: eq_inv_def eq_messages_def)

subsection \<open>The call returns\<close>

definition eq_worker_weight :: "eq_worker \<Rightarrow> nat" where
  "eq_worker_weight w = (case w of EqIdle \<Rightarrow> 1 | EqSending _ \<Rightarrow> 3 | EqDone \<Rightarrow> 0)"

definition eq_weight :: "eq_state \<Rightarrow> nat" where
  "eq_weight s = 4 * length (eq_todo s) + 3 * length (eq_chan s)
     + sum_list (map eq_worker_weight (eq_workers s))
     + (if eq_closed s then 0 else 1) + (if eq_parentErr s = None then 1 else 0)"

lemma worker_weight_set:
  assumes "i < length ws"
  shows "sum_list (map eq_worker_weight (ws[i := w])) + eq_worker_weight (ws ! i)
    = sum_list (map eq_worker_weight ws) + eq_worker_weight w"
  using elem_le_sum_list [of i "map eq_worker_weight ws"] assms
  by (simp add: map_update sum_list_update)

lemma eq_step_weight: "eq_step cap s t \<Longrightarrow> eq_weight t < eq_weight s"
proof (induction rule: eq_step.induct)
  case (eq_take i s p ps)
  then show ?case using worker_weight_set [of i "eq_workers s" "EqSending p"]
    by (simp add: eq_weight_def eq_worker_weight_def)
next
  case (eq_send_ok i s p)
  then show ?case using worker_weight_set [of i "eq_workers s" EqIdle]
    by (simp add: eq_weight_def eq_worker_weight_def)
next
  case (eq_quit_closed i s)
  then show ?case using worker_weight_set [of i "eq_workers s" EqDone]
    by (simp add: eq_weight_def eq_worker_weight_def)
next
  case (eq_quit_cancel i s)
  then show ?case using worker_weight_set [of i "eq_workers s" EqDone]
    by (simp add: eq_weight_def eq_worker_weight_def)
next
  case (eq_send_err i s p delivered e)
  then show ?case using worker_weight_set [of i "eq_workers s" EqDone]
    by (simp add: eq_weight_def eq_worker_weight_def)
qed (simp_all add: eq_weight_def)

lemma eq_step_workers: "eq_step cap s t \<Longrightarrow> length (eq_workers t) = length (eq_workers s)"
  by (induction rule: eq_step.induct) simp_all

text \<open>A call that has not returned can go on without the request being cancelled.\<close>

lemma eq_progress:
  assumes "eq_inv cap payloads s" "\<not> eq_final s" "0 < cap" "eq_workers s \<noteq> []"
  shows "\<exists>t. eq_step cap s t \<and> eq_parentErr t = eq_parentErr s"
proof -
  consider (sending) i p where "i < length (eq_workers s)" "eq_workers s ! i = EqSending p"
    | (idle) i where "i < length (eq_workers s)" "eq_workers s ! i = EqIdle"
    | (finished) "list_all (\<lambda>w. w = EqDone) (eq_workers s)"
    unfolding list_all_length by (meson eq_worker.exhaust)
  then show ?thesis
  proof cases
    case sending
    from eq_send_ok [OF this] show ?thesis by force
  next
    case idle
    show ?thesis
    proof (cases "eq_chan s")
      case (Cons p ps)
      from eq_take [OF idle this] show ?thesis by force
    next
      case Nil
      show ?thesis
      proof (cases "eq_closed s")
        case True
        from eq_quit_closed [OF idle Nil True] show ?thesis by force
      next
        case False
        then show ?thesis
          using eq_close [OF False, of cap] eq_offer [OF False, of _ _ cap] Nil assms(3)
          by (cases "eq_todo s") force+
      qed
    qed
  next
    case finished
    then have "\<not> eq_closed s" "EqDone \<in> set (eq_workers s)"
      using assms(2,4) by (auto simp: eq_final_def) (cases "eq_workers s", auto)
    with assms(1) have "eq_cancelled s" by (auto simp: eq_inv_def)
    with \<open>\<not> eq_closed s\<close> eq_close [of s cap] eq_break [of s cap] show ?thesis
      by (cases "eq_todo s") force+
  qed
qed

definition eq_ok :: "nat \<Rightarrow> string list \<Rightarrow> eq_state \<Rightarrow> bool" where
  "eq_ok cap payloads s \<longleftrightarrow> 0 < cap \<and> eq_workers s \<noteq> [] \<and> eq_inv cap payloads s"

interpretation eq_live: live_system "eq_step cap" "eq_ok cap payloads" eq_weight eq_final for cap payloads
proof unfold_locales
  show "eq_step cap s t \<Longrightarrow> eq_ok cap payloads s \<Longrightarrow> eq_ok cap payloads t" for s t
    using eq_step_inv [of cap s t payloads] eq_step_workers [of cap s t] by (auto simp: eq_ok_def)
  show "eq_ok cap payloads s \<Longrightarrow> \<not> eq_final s \<Longrightarrow> \<exists>t. eq_step cap s t" for s
    using eq_progress [of cap payloads s] by (auto simp: eq_ok_def)
qed (rule eq_step_weight)

lemma eq_weight_init: "eq_weight (eq_init n payloads) = 4 * length payloads + n + 2"
  by (simp add: eq_weight_def eq_init_def eq_worker_weight_def sum_list_replicate)

lemma eq_ok_init: "0 < n \<Longrightarrow> eq_ok n payloads (eq_init n payloads)"
  by (simp add: eq_ok_def eq_inv_init) (simp add: eq_init_def)

subsection \<open>The sequential way\<close>

text \<open>What the queue promises: a call that succeeds appends its message, a call that fails appends
  it or not.\<close>

locale queue_store =
  fixes q :: "'w command_queue" and messages :: "'w \<Rightarrow> string list"
  assumes enqueue_ok: "cq_EnqueueMessage q p w = (None, w') \<Longrightarrow> messages w' = messages w @ [p]"
    and enqueue_err: "cq_EnqueueMessage q p w = (Some e, w') \<Longrightarrow>
      messages w' = messages w \<or> messages w' = messages w @ [p]"
begin

lemma enqueue_seq_messages:
  "enqueue_seq q ps w = (r, w') \<Longrightarrow>
   \<exists>k \<le> length ps. messages w' = messages w @ take k ps \<and> (r = None \<longrightarrow> k = length ps)"
proof (induction ps arbitrary: w)
  case (Cons p ps)
  obtain r1 w1 where s: "cq_EnqueueMessage q p w = (r1, w1)" by fastforce
  show ?case
  proof (cases r1)
    case None
    with Cons.prems s have "enqueue_seq q ps w1 = (r, w')" by simp
    from Cons.IH [OF this] obtain k where "k \<le> length ps" "messages w' = messages w1 @ take k ps"
      "r = None \<longrightarrow> k = length ps" by blast
    with None s enqueue_ok [of p w w1] show ?thesis by (intro exI [of _ "Suc k"]) simp
  next
    case (Some e)
    with Cons.prems s have "r = Some e" "w' = w1" by simp_all
    with Some s enqueue_err [of p w e w1] show ?thesis
      by (auto intro: exI [of _ 0] exI [of _ "Suc 0"])
  qed
qed simp

end

subsection \<open>The plan\<close>

lemma marshal_payloads_length: "marshal_payloads sn u cmds = Inr ps \<Longrightarrow> length ps = length cmds"
  by (induction cmds arbitrary: ps) (auto split: sum.splits)

lemma enqueue_plan_workers:
  assumes "enqueue_plan sn s u cmds = PlanWorkers n ps"
  shows "0 < n" "n \<le> length ps" "length ps = length cmds" "int n \<le> sa_queueConcurrency s"
  using assms
  by (auto simp: enqueue_plan_def Let_def dest: marshal_payloads_length split: if_splits sum.splits)

end
