(* ===== verification/Api_Handlers.thy ===== *)
theory Api_Handlers
  imports Api_Metrics Api_Timestamps Api_Enqueue
begin

text \<open>
  The HTTP handlers of prism-api (\<open>prism-api/api/handlers.go\<close>, \<open>types.go\<close>,
  \<open>protocol.go\<close>). The web framework is third-party code: \<open>echo_ctx\<close> holds what a handler uses of
  a request and of its response. A handler is a function of the request and the world.
\<close>

section \<open>Interfaces\<close>

record 'w api_store =
  if_FetchTasks :: "string \<Rightarrow> string \<Rightarrow> int \<Rightarrow> 'w \<Rightarrow> (go_error + api_task list \<times> string) \<times> 'w"
  if_FetchSettings :: "string \<Rightarrow> 'w \<Rightarrow> (go_error + api_settings) \<times> 'w"
  if_EnqueueCommands :: "string \<Rightarrow> command list \<Rightarrow> 'w \<Rightarrow> go_error option \<times> 'w"

type_synonym 'w authenticator = "string \<Rightarrow> 'w \<Rightarrow> (go_error + string) \<times> 'w"

text \<open>\<open>errors.As(err, &invalidTokenErr)\<close> for the interface of \<open>types.go\<close>.\<close>

definition is_invalid_token :: "go_error \<Rightarrow> bool" where
  "is_invalid_token e = (case e of InvalidContinuationToken _ \<Rightarrow> True | _ \<Rightarrow> False)"

record tasks_response =
  tr_Tasks :: "api_task list"
  tr_NextPageToken :: string

record post_command_response =
  pr_IdempotencyKeys :: "string list"
  pr_Error :: string

text \<open>The calls that answer a request: \<open>c.String\<close>, \<open>c.JSON\<close> of the types that the handlers
  use, \<open>c.Blob\<close> and \<open>c.NoContent\<close>.\<close>

datatype reply =
    ReplyString (reply_status: int) string
  | ReplyTasks (reply_status: int) tasks_response
  | ReplySettings (reply_status: int) api_settings
  | ReplyPosted (reply_status: int) post_command_response
  | ReplyBlob (reply_status: int) string string
  | ReplyNoContent (reply_status: int)

record 'w echo_ctx =
  ec_Authorization :: string
  ec_QueryParam :: "string \<Rightarrow> string"
  ec_Body :: string
  ec_send :: "reply \<Rightarrow> 'w \<Rightarrow> go_error option \<times> 'w"
  ec_Status :: "'w \<Rightarrow> int"
  ec_Now :: "'w \<Rightarrow> int \<times> 'w"
  ec_StartSpan :: "'w \<Rightarrow> span_context \<times> 'w"

section \<open>GET /healthz and GET /api/settings\<close>

definition healthz :: "'w echo_ctx \<Rightarrow> 'w \<Rightarrow> go_error option \<times> 'w" where
  "healthz c w = ec_send c (ReplyNoContent 200) w"

definition getSettings ::
  "'w api_store \<Rightarrow> 'w authenticator \<Rightarrow> 'w echo_ctx \<Rightarrow> 'w \<Rightarrow> go_error option \<times> 'w" where
  "getSettings store auth c w =
     (case auth (ec_Authorization c) w of
        (Inl e, w1) \<Rightarrow> ec_send c (ReplyString 401 (error_text e)) w1
      | (Inr userID, w1) \<Rightarrow>
          (case if_FetchSettings store userID w1 of
             (Inl e, w2) \<Rightarrow> ec_send c (ReplyString 500 (error_text e)) w2
           | (Inr settings, w2) \<Rightarrow> ec_send c (ReplySettings 200 settings) w2))"

section \<open>GET /api/tasks\<close>

text \<open>\<open>time.Now()\<close> before and \<open>time.Since\<close> after an operation.\<close>

definition timed :: "'w echo_ctx \<Rightarrow> ('w \<Rightarrow> 'a \<times> 'w) \<Rightarrow> 'w \<Rightarrow> int \<times> 'a \<times> 'w" where
  "timed c f w =
     (case ec_Now c w of
        (t0, w0) \<Rightarrow> (case f w0 of (r, w1) \<Rightarrow> (case ec_Now c w1 of (t1, w2) \<Rightarrow> (t1 - t0, r, w2))))"

definition page_size_param :: "string \<Rightarrow> int option" where
  "page_size_param q =
     (let p = trim_space q in
      if p = '''' then Some 0
      else (case parse_int p of None \<Rightarrow> None | Some n \<Rightarrow> if n \<le> 0 then None else Some n))"

definition fetch_error_reply :: "go_error \<Rightarrow> string \<times> reply" where
  "fetch_error_reply e =
     (if is_invalid_token e then (''invalid_page_token'', ReplyString 400 ''invalid page token'')
      else (''storage'', ReplyString 500 (error_text e)))"

definition tasks_response_of :: "api_task list \<Rightarrow> string \<Rightarrow> tasks_response" where
  "tasks_response_of tasks next = \<lparr>tr_Tasks = tasks, tr_NextPageToken = next\<rparr>"

text \<open>From the authentication to the return, without the deferred call.\<close>

definition get_tasks_body ::
  "'w api_store \<Rightarrow> 'w authenticator \<Rightarrow> 'w echo_ctx \<Rightarrow> task_request_metrics \<Rightarrow> 'w \<Rightarrow>
   task_request_metrics \<times> go_error option \<times> 'w" where
  "get_tasks_body store auth c m w =
     (case timed c (auth (ec_Authorization c)) w of
        (d, r, w1) \<Rightarrow>
          (let m1 = ObserveAuth d m in
           (case r of
              Inl e \<Rightarrow> (SetErrorStage ''auth'' m1, ec_send c (ReplyString 401 (error_text e)) w1)
            | Inr userID \<Rightarrow>
                (let pageToken = ec_QueryParam c ''pageToken'';
                     m2 = SetPageTokenProvided (pageToken \<noteq> '''') m1
                 in (case page_size_param (ec_QueryParam c ''pageSize'') of
                       None \<Rightarrow>
                         (SetErrorStage ''invalid_page_size'' m2,
                          ec_send c (ReplyString 400 ''invalid page size'') w1)
                     | Some pageSize \<Rightarrow>
                         (case timed c (if_FetchTasks store userID pageToken pageSize) w1 of
                            (d2, r2, w2) \<Rightarrow>
                              (let m3 = ObserveFetch d2 m2 in
                               (case r2 of
                                  Inl e \<Rightarrow>
                                    (SetErrorStage (fst (fetch_error_reply e)) m3,
                                     ec_send c (snd (fetch_error_reply e)) w2)
                                | Inr (tasks, nextToken) \<Rightarrow>
                                    (let m4 = SetTasksReturned (int (length tasks)) m3;
                                         m5 = (if nextToken \<noteq> '''' then SetHasNextPage True m4 else m4)
                                     in (case timed c (ec_send c (ReplyTasks 200 (tasks_response_of tasks nextToken))) w2 of
                                           (d3, err, w3) \<Rightarrow>
                                             (let m6 = ObserveEncode d3 m5 in
                                              (if err \<noteq> None then SetErrorStage ''encode_response'' m6 else m6,
                                               err, w3))))))))))))"

record 'w tasks_result =
  gr_err :: "go_error option"
  gr_world :: 'w
  gr_queue :: log_queue
  gr_calls :: "span_call list"
  gr_direct :: "(string \<times> (string \<rightharpoonup> field_value)) option"

definition getTasks ::
  "environ \<Rightarrow> int \<Rightarrow> bool \<Rightarrow> 'w api_store \<Rightarrow> 'w authenticator \<Rightarrow> 'w echo_ctx \<Rightarrow> log_queue \<Rightarrow> 'w \<Rightarrow> 'w tasks_result" where
  "getTasks env numCPU logger store auth c q w =
     (case ec_Now c w of
        (start, w1) \<Rightarrow>
          (case ec_StartSpan c w1 of
             (sc, w2) \<Rightarrow>
               (case newTaskRequestMetrics logger start sc of
                  (m, calls0) \<Rightarrow>
                    (case get_tasks_body store auth c m w2 of
                       (m1, err, w3) \<Rightarrow>
                         (case ec_Now c w3 of
                            (t1, w4) \<Rightarrow>
                              (case ec_Now c w4 of
                                 (t2, w5) \<Rightarrow>
                                   (case Log env numCPU (t1 - start) t2 (ec_Status c w3) err m1 q of
                                      (m2, q1, calls, direct) \<Rightarrow>
                                        \<lparr>gr_err = err, gr_world = w5, gr_queue = q1, gr_calls = calls0 @ calls,
                                         gr_direct = direct\<rparr>)))))))"

section \<open>POST /api/commands\<close>

definition postCommandMaxSize :: nat where "postCommandMaxSize = 64 * 1024"

text \<open>\<open>marshal\<close> is \<open>sonic.Marshal\<close> of the response.\<close>

definition respondJSON ::
  "(post_command_response \<Rightarrow> go_error + string) \<Rightarrow> 'w echo_ctx \<Rightarrow> int \<Rightarrow> post_command_response \<Rightarrow> 'w \<Rightarrow>
   go_error option \<times> 'w" where
  "respondJSON marshal c status payload w =
     (case marshal payload of
        Inl e \<Rightarrow> ec_send c (ReplyPosted status payload) w
      | Inr data \<Rightarrow> ec_send c (ReplyBlob status ''application/json'' data) w)"

text \<open>The package variables that the handler uses.\<close>

record api_pkg =
  pk_lastTimestamp :: int
  pk_jobs :: "job_chan option"
  pk_handoffTimeout :: int

text \<open>\<open>decode\<close> is the JSON decoder with unknown fields disallowed; \<open>now\<close> is the clock reading of
  \<open>nextTimestampRange\<close> and \<open>wait\<close> how a wait for the channel ends.\<close>

definition postCommands ::
  "(string \<Rightarrow> go_error + command list) \<Rightarrow> (post_command_response \<Rightarrow> go_error + string) \<Rightarrow>
   int \<Rightarrow> (job_chan \<Rightarrow> send_event) \<Rightarrow> 'w api_store \<Rightarrow> 'w authenticator \<Rightarrow> 'w echo_ctx \<Rightarrow>
   api_pkg \<Rightarrow> 'w \<Rightarrow> go_error option \<times> api_pkg \<times> 'w" where
  "postCommands decode marshal now wait store auth c pk w =
     (case auth (ec_Authorization c) w of
        (Inl e, w1) \<Rightarrow>
          (case ec_send c (ReplyString 401 (error_text e)) w1 of (r, w2) \<Rightarrow> (r, pk, w2))
      | (Inr userID, w1) \<Rightarrow>
          (case decode (take postCommandMaxSize (ec_Body c)) of
             Inl e \<Rightarrow> (case ec_send c (ReplyString 400 ''invalid body'') w1 of (r, w2) \<Rightarrow> (r, pk, w2))
           | Inr cmds \<Rightarrow>
               (case finalizeCommands (\<lambda>n. nextTimestampRange n now) cmds (pk_lastTimestamp pk) of
                  ((cmds', keys), lastTs) \<Rightarrow>
                    (let job = \<lparr>ej_userID = userID, ej_cmds = cmds'\<rparr>;
                         posted = \<lparr>pr_IdempotencyKeys = keys, pr_Error = ''''\<rparr>
                     in (case tryEnqueueJob (pk_handoffTimeout pk) (pk_jobs pk) wait job of
                           (accepted, jobs) \<Rightarrow>
                             (let pk1 = pk\<lparr>pk_lastTimestamp := lastTs, pk_jobs := jobs\<rparr> in
                              if accepted then
                                (case respondJSON marshal c 202 posted w1 of (r, w2) \<Rightarrow> (r, pk1, w2))
                              else
                                (case if_EnqueueCommands store userID cmds' w1 of
                                   (Some e, w2) \<Rightarrow>
                                     (case ec_send c (ReplyString 500 ''failed to enqueue commands'') w2 of
                                        (r, w3) \<Rightarrow> (r, pk1, w3))
                                 | (None, w2) \<Rightarrow>
                                     (case respondJSON marshal c 202 posted w2 of (r, w3) \<Rightarrow> (r, pk1, w3)))))))))"

section \<open>Routes\<close>

datatype api_route = RouteTasks | RouteSettings | RouteCommands | RouteHealthz

definition api_routes :: "(string \<times> string \<times> api_route) list" where
  "api_routes = [(''GET'', ''/api/tasks'', RouteTasks), (''GET'', ''/api/settings'', RouteSettings),
     (''POST'', ''/api/commands'', RouteCommands), (''GET'', ''/healthz'', RouteHealthz)]"

text \<open>\<open>Register\<close> wires the routes and starts the command sender.\<close>

definition api_Register ::
  "(int \<Rightarrow> nat \<Rightarrow> int \<Rightarrow> int) \<Rightarrow> environ \<Rightarrow> int \<Rightarrow> 's option \<Rightarrow> bool \<Rightarrow> 's sender \<Rightarrow>
   go_error + (string \<times> string \<times> api_route) list \<times> 's sender" where
  "api_Register fl env numCPU store log g =
     (case initCommandSender fl env numCPU store log g of
        Inl e \<Rightarrow> Inl e
      | Inr g' \<Rightarrow> Inr (api_routes, g'))"

section \<open>What a request is answered with\<close>

text \<open>The answer to a request for tasks, as a function of the results of the authentication and of the
  storage.\<close>

definition tasks_answer ::
  "'w api_store \<Rightarrow> 'w authenticator \<Rightarrow> 'w echo_ctx \<Rightarrow> 'w \<Rightarrow> reply \<times> 'w" where
  "tasks_answer store auth c w =
     (case auth (ec_Authorization c) w of
        (Inl e, w1) \<Rightarrow> (ReplyString 401 (error_text e), w1)
      | (Inr u, w1) \<Rightarrow>
          (case page_size_param (ec_QueryParam c ''pageSize'') of
             None \<Rightarrow> (ReplyString 400 ''invalid page size'', w1)
           | Some n \<Rightarrow>
               (case if_FetchTasks store u (ec_QueryParam c ''pageToken'') n w1 of
                  (Inl e, w2) \<Rightarrow> (if is_invalid_token e then ReplyString 400 ''invalid page token''
                                  else ReplyString 500 (error_text e), w2)
                | (Inr (tasks, next), w2) \<Rightarrow> (ReplyTasks 200 \<lparr>tr_Tasks = tasks, tr_NextPageToken = next\<rparr>, w2))))"

text \<open>Reading the clock and starting a span leave the world alone.\<close>

definition passive_clock :: "'w echo_ctx \<Rightarrow> bool" where
  "passive_clock c \<longleftrightarrow> (\<forall>w. snd (ec_Now c w) = w) \<and> (\<forall>w. snd (ec_StartSpan c w) = w)"

lemma timed_passive:
  "passive_clock c \<Longrightarrow> timed c f w = (fst (ec_Now c (snd (f w))) - fst (ec_Now c w), f w)"
  by (auto simp: timed_def passive_clock_def prod_eq_iff case_prod_beta)

lemma get_tasks_body_answer:
  assumes "passive_clock c"
  shows "snd (get_tasks_body store auth c m w) = (case tasks_answer store auth c w of (r, w1) \<Rightarrow> ec_send c r w1)"
  by (simp add: get_tasks_body_def tasks_answer_def timed_passive [OF assms] fetch_error_reply_def
      tasks_response_of_def Let_def split: prod.splits sum.splits option.splits)

lemma getTasks_answer:
  assumes "passive_clock c"
  shows "(gr_err (getTasks env numCPU logger store auth c q w), gr_world (getTasks env numCPU logger store auth c q w))
    = (case tasks_answer store auth c w of (r, w1) \<Rightarrow> ec_send c r w1)"
proof -
  define t sp where "t = fst \<circ> ec_Now c" and "sp = fst \<circ> ec_StartSpan c"
  have n: "ec_Now c v = (t v, v)" "ec_StartSpan c v = (sp v, v)" for v
    using assms by (auto simp: passive_clock_def t_def sp_def prod_eq_iff)
  obtain m calls0 where m: "newTaskRequestMetrics logger (t w) (sp w) = (m, calls0)" by fastforce
  obtain m1 err w3 where b: "get_tasks_body store auth c m w = (m1, err, w3)" by (metis surj_pair)
  have "(err, w3) = (case tasks_answer store auth c w of (r, w1) \<Rightarrow> ec_send c r w1)"
    using get_tasks_body_answer [OF assms, of store auth m w] b by simp
  then show ?thesis by (simp add: getTasks_def n m b split: prod.splits)
qed

text \<open>Requests that fail the authentication do not reach the storage.\<close>

lemma unauthenticated_tasks:
  assumes "\<And>w. isl (fst (auth (ec_Authorization c) w))"
  shows "getTasks env numCPU logger store auth c q w = getTasks env numCPU logger store' auth c q w"
proof -
  have "get_tasks_body store auth c m v = get_tasks_body store' auth c m v" for m v
  proof -
    obtain d r w1 where t: "timed c (auth (ec_Authorization c)) v = (d, r, w1)" by (metis surj_pair)
    then have "isl r" using assms by (auto simp: timed_def split: prod.splits) (metis fst_conv)
    with t show ?thesis by (auto simp: get_tasks_body_def Let_def isl_def)
  qed
  then show ?thesis by (simp add: getTasks_def)
qed

end
