(* ===== verification/Auth.thy ===== *)
theory Auth
  imports Go_Text Go_Duration
begin

text \<open>
  Authentication of requests (\<open>prism-api/api/auth.go\<close>, \<open>stream-service/api/auth.go\<close>). The
  token library \<open>golang-jwt\<close> and the key set are third-party code and are arguments:
  \<open>'c\<close> is the type of the claims of a token.
\<close>

datatype signing_method = SigningMethodHMAC | SigningMethodOther string

record 'c jwt_token =
  tk_Method :: signing_method
  tk_Claims :: "'c option"

text \<open>\<open>jw_Parse methods key tok\<close> is \<open>Parse\<close> of a parser that accepts the listed methods
  (\<open>None\<close>: all of them) with the key function \<open>key\<close>. \<open>tk_Claims\<close> is \<open>None\<close> when the claims
  are no \<open>MapClaims\<close>; \<open>jw_sub\<close> is \<open>claims["sub"].(string)\<close>. The last argument of the checks says
  whether the claim is required.\<close>

record 'c jwt_lib =
  jw_Parse :: "string list option \<Rightarrow> ('c jwt_token \<Rightarrow> go_error + string) \<Rightarrow> string \<Rightarrow> go_error + 'c jwt_token"
  jw_sub :: "'c \<Rightarrow> string option"
  jw_VerifyExpiresAt :: "'c \<Rightarrow> int \<Rightarrow> bool \<Rightarrow> bool"
  jw_VerifyNotBefore :: "'c \<Rightarrow> int \<Rightarrow> bool \<Rightarrow> bool"
  jw_VerifyIssuedAt :: "'c \<Rightarrow> int \<Rightarrow> bool \<Rightarrow> bool"
  jw_VerifyAudience :: "'c \<Rightarrow> string \<Rightarrow> bool \<Rightarrow> bool"
  jw_VerifyIssuer :: "'c \<Rightarrow> string \<Rightarrow> bool \<Rightarrow> bool"

record 'c auth =
  au_Keyfunc :: "'c jwt_token \<Rightarrow> go_error + string"
  au_Audience :: string
  au_Issuer :: string
  au_TestMode :: bool
  au_TestSecret :: string

text \<open>A panic is an error.\<close>

definition NewAuth ::
  "environ \<Rightarrow> ('c jwt_token \<Rightarrow> go_error + string) \<Rightarrow> string \<Rightarrow> string \<Rightarrow> go_error + 'c auth" where
  "NewAuth env jwks audience issuer =
     (let a = \<lparr>au_Keyfunc = jwks, au_Audience = audience, au_Issuer = issuer, au_TestMode = False, au_TestSecret = ''''\<rparr> in
      if getenv env ''AUTH0_TEST_MODE'' = ''1'' then
        (let secret = getenv env ''TEST_JWT_SECRET'' in
         if secret = '''' then Inl (ErrText ''TEST_JWT_SECRET must be set when AUTH0_TEST_MODE=1'')
         else Inr (a\<lparr>au_TestMode := True, au_TestSecret := secret\<rparr>))
      else Inr a)"

text \<open>The stream service has its own copy.\<close>

type_synonym 'c stream_auth = "'c auth"

definition stream_NewAuth ::
  "environ \<Rightarrow> ('c jwt_token \<Rightarrow> go_error + string) \<Rightarrow> string \<Rightarrow> string \<Rightarrow> go_error + 'c stream_auth" where
  "stream_NewAuth env jwks audience issuer =
     (let a = \<lparr>au_Keyfunc = jwks, au_Audience = audience, au_Issuer = issuer, au_TestMode = False, au_TestSecret = ''''\<rparr> in
      if getenv env ''AUTH0_TEST_MODE'' = ''1'' then
        (let secret = getenv env ''TEST_JWT_SECRET'' in
         if secret = '''' then Inl (ErrText ''TEST_JWT_SECRET must be set when AUTH0_TEST_MODE=1'')
         else Inr (a\<lparr>au_TestMode := True, au_TestSecret := secret\<rparr>))
      else Inr a)"

definition test_keyfunc :: "string \<Rightarrow> 'c jwt_token \<Rightarrow> go_error + string" where
  "test_keyfunc secret token =
     (case tk_Method token of
        SigningMethodHMAC \<Rightarrow> Inr secret
      | SigningMethodOther _ \<Rightarrow> Inl (ErrText ''invalid signing method''))"

definition user_of_claims :: "'c jwt_lib \<Rightarrow> 'c \<Rightarrow> go_error + string" where
  "user_of_claims lib claims =
     (case jw_sub lib claims of
        None \<Rightarrow> Inl (ErrText ''missing sub'')
      | Some sub \<Rightarrow> if sub = '''' then Inl (ErrText ''missing sub'') else Inr sub)"

text \<open>\<open>strings.SplitN(h, " ", 2)\<close> and the shape of the token.\<close>

definition header_token :: "string \<Rightarrow> go_error + string" where
  "header_token h =
     (if h = '''' then Inl (ErrText ''missing authorization header'')
      else
        (let parts = split_n2 (CHR '' '') h in
         if length parts \<noteq> 2 then Inl (ErrText ''bad auth header'')
         else
           (let tokenStr = parts ! 1 in
            if count_list tokenStr (CHR ''.'') \<noteq> 2 then Inl (ErrText ''bad auth header'')
            else Inr tokenStr)))"

definition test_mode_user :: "'c jwt_lib \<Rightarrow> 'c auth \<Rightarrow> string \<Rightarrow> go_error + string" where
  "test_mode_user lib a tokenStr =
     (case jw_Parse lib None (test_keyfunc (au_TestSecret a)) tokenStr of
        Inl e \<Rightarrow> Inl e
      | Inr token \<Rightarrow>
          (case tk_Claims token of
             None \<Rightarrow> Inl (ErrText ''invalid claims'')
           | Some claims \<Rightarrow> user_of_claims lib claims))"

text \<open>\<open>time.Now().Add(time.Minute).Unix()\<close>, from the time in nanoseconds.\<close>

definition minute_ahead :: "int \<Rightarrow> int" where
  "minute_ahead nowNanos = (nowNanos + 60 * second) div second"

definition UserIDFromAuthHeader :: "'c jwt_lib \<Rightarrow> 'c auth \<Rightarrow> int \<Rightarrow> string \<Rightarrow> go_error + string" where
  "UserIDFromAuthHeader lib a nowNanos h =
     (case header_token h of
        Inl e \<Rightarrow> Inl e
      | Inr tokenStr \<Rightarrow>
          (if au_TestMode a then test_mode_user lib a tokenStr
           else
             (case jw_Parse lib (Some [''RS256'']) (au_Keyfunc a) tokenStr of
                Inl e \<Rightarrow> Inl e
              | Inr token \<Rightarrow>
                  (case tk_Claims token of
                     None \<Rightarrow> Inl (ErrText ''invalid claims'')
                   | Some claims \<Rightarrow>
                       (let now = minute_ahead nowNanos in
                        if \<not> jw_VerifyExpiresAt lib claims now True then Inl (ErrText ''token expired'')
                        else if \<not> jw_VerifyNotBefore lib claims now False then Inl (ErrText ''token not valid yet'')
                        else if \<not> jw_VerifyIssuedAt lib claims now False then Inl (ErrText ''token used before issued'')
                        else if \<not> jw_VerifyAudience lib claims (au_Audience a) False then Inl (ErrText ''invalid audience'')
                        else if \<not> jw_VerifyIssuer lib claims (au_Issuer a) False then Inl (ErrText ''invalid issuer'')
                        else user_of_claims lib claims)))))"

text \<open>The stream service has its own copy, which does not look at the time of issue.\<close>

definition stream_UserIDFromAuthHeader :: "'c jwt_lib \<Rightarrow> 'c stream_auth \<Rightarrow> int \<Rightarrow> string \<Rightarrow> go_error + string" where
  "stream_UserIDFromAuthHeader lib a nowNanos h =
     (case header_token h of
        Inl e \<Rightarrow> Inl e
      | Inr tokenStr \<Rightarrow>
          (if au_TestMode a then test_mode_user lib a tokenStr
           else
             (case jw_Parse lib (Some [''RS256'']) (au_Keyfunc a) tokenStr of
                Inl e \<Rightarrow> Inl e
              | Inr token \<Rightarrow>
                  (case tk_Claims token of
                     None \<Rightarrow> Inl (ErrText ''invalid claims'')
                   | Some claims \<Rightarrow>
                       (let now = minute_ahead nowNanos in
                        if \<not> jw_VerifyExpiresAt lib claims now True then Inl (ErrText ''token expired'')
                        else if \<not> jw_VerifyNotBefore lib claims now False then Inl (ErrText ''token not valid yet'')
                        else if \<not> jw_VerifyAudience lib claims (au_Audience a) False then Inl (ErrText ''invalid audience'')
                        else if \<not> jw_VerifyIssuer lib claims (au_Issuer a) False then Inl (ErrText ''invalid issuer'')
                        else user_of_claims lib claims)))))"

section \<open>What an accepted request has\<close>

lemma user_of_claims_ok: "user_of_claims lib claims = Inr u \<longleftrightarrow> jw_sub lib claims = Some u \<and> u \<noteq> ''''"
  by (auto simp: user_of_claims_def split: option.splits)

lemma header_token_ok:
  "header_token h = Inr t \<longleftrightarrow> (\<exists>s. h = s @ '' '' @ t \<and> CHR '' '' \<notin> set s) \<and> count_list t (CHR ''.'') = 2"
proof -
  have "split_n2 (CHR '' '') (s @ '' '' @ t) = [s, t]" if "CHR '' '' \<notin> set s" for s t
    using that by (simp add: go_text)
  moreover have "length (split_n2 (CHR '' '') h) = 2 \<Longrightarrow>
      \<exists>s t. h = s @ '' '' @ t \<and> CHR '' '' \<notin> set s \<and> split_n2 (CHR '' '') h = [s, t]"
    using split_list_first [of "CHR '' ''" h] calculation
    by (fastforce simp: split_n2_length split: if_splits)
  ultimately show ?thesis
    by (auto simp: header_token_def Let_def split: if_splits)
qed

lemma UserIDFromAuthHeader_ok:
  assumes "\<not> au_TestMode a"
  shows "UserIDFromAuthHeader lib a now h = Inr u \<longleftrightarrow>
    (\<exists>t tok claims. header_token h = Inr t \<and> jw_Parse lib (Some [''RS256'']) (au_Keyfunc a) t = Inr tok \<and>
       tk_Claims tok = Some claims \<and> jw_sub lib claims = Some u \<and> u \<noteq> '''' \<and>
       jw_VerifyExpiresAt lib claims (minute_ahead now) True \<and>
       jw_VerifyNotBefore lib claims (minute_ahead now) False \<and>
       jw_VerifyIssuedAt lib claims (minute_ahead now) False \<and>
       jw_VerifyAudience lib claims (au_Audience a) False \<and> jw_VerifyIssuer lib claims (au_Issuer a) False)"
  using assms by (auto simp: UserIDFromAuthHeader_def Let_def user_of_claims_ok split: sum.splits option.splits)

lemma stream_accepts_api:
  "UserIDFromAuthHeader lib a now h = Inr u \<Longrightarrow> stream_UserIDFromAuthHeader lib a now h = Inr u"
  by (auto simp: UserIDFromAuthHeader_def stream_UserIDFromAuthHeader_def Let_def
      split: sum.splits option.splits if_splits)

end
