(* ===== verification/Stream_Updates.thy ===== *)
theory Stream_Updates
  imports Task_Service
begin

text \<open>
  \<open>SubscribeUpdates\<close> of the stream service (\<open>stream-service/domain/subscription.go\<close>, with
  \<open>events.go\<close>, \<open>task.go\<close> and \<open>consts.go\<close>): a message of the Redis channel is decoded, turned into
  the payload for the browsers, and handed to \<open>broadcast\<close>.
\<close>

section \<open>Data\<close>

definition TasksKeyPrefix :: string where "TasksKeyPrefix = ''tasks:''"
definition SettingsKeyPrefix :: string where "SettingsKeyPrefix = ''settings:''"
definition SSEDataPrefix :: string where "SSEDataPrefix = ''data: ''"

definition stream_TaskCreated :: string where [simp]: "stream_TaskCreated = ''task-created''"
definition stream_TaskUpdated :: string where [simp]: "stream_TaskUpdated = ''task-updated''"
definition stream_TaskCompleted :: string where [simp]: "stream_TaskCompleted = ''task-completed''"
definition stream_TaskReopened :: string where [simp]: "stream_TaskReopened = ''task-reopened''"
definition stream_UserCreated :: string where [simp]: "stream_UserCreated = ''user-created''"
definition stream_UserLoggedIn :: string where [simp]: "stream_UserLoggedIn = ''user-logged-in''"
definition stream_UserLoggedOut :: string where [simp]: "stream_UserLoggedOut = ''user-logged-out''"
definition stream_UserSettingsCreated :: string where
  [simp]: "stream_UserSettingsCreated = ''user-settings-created''"
definition stream_UserSettingsUpdated :: string where
  [simp]: "stream_UserSettingsUpdated = ''user-settings-updated''"

text \<open>The data of the events are the structs of the updater, field by field; the settings are those of
  its \<open>UserSettingsUpdatedEventData\<close>.\<close>

type_synonym stream_task_created_data = task_created_event_data
type_synonym stream_task_updated_data = task_updated_event_data
type_synonym stream_user_settings_data = user_settings_updated_event_data

record stream_event =
  sv_EntityID :: string
  sv_EntityType :: string
  sv_Type :: string
  sv_Data :: "json option"
  sv_UserID :: string

definition stream_event_names :: "string list" where
  "stream_event_names = [''EntityId'', ''EntityType'', ''Type'', ''Data'', ''UserId'']"

definition decode_stream_event :: "json \<Rightarrow> stream_event option" where
  "decode_stream_event v = do {
     ms \<leftarrow> object_members v;
     ei \<leftarrow> get_string stream_event_names ms ''EntityId'';
     et \<leftarrow> get_string stream_event_names ms ''EntityType'';
     ty \<leftarrow> get_string stream_event_names ms ''Type'';
     u \<leftarrow> get_string stream_event_names ms ''UserId'';
     Some \<lparr>sv_EntityID = ei, sv_EntityType = et, sv_Type = ty,
           sv_Data = get_raw stream_event_names ms ''Data'', sv_UserID = u\<rparr>
   }"

record stream_task =
  sk_ID :: string
  sk_Title :: string
  sk_Notes :: string
  sk_Category :: string
  sk_Order :: int
  sk_Done :: "bool option"

record stream_settings =
  ss_TasksPerCategory :: "int option"
  ss_ShowDoneTasks :: "bool option"

definition stream_task_members :: "stream_task \<Rightarrow> (string \<times> json) list" where
  "stream_task_members t =
     [(''id'', JStr (sk_ID t))] @ omit_empty ''title'' (sk_Title t) @ omit_empty ''notes'' (sk_Notes t)
     @ omit_empty ''category'' (sk_Category t) @ [(''order'', JInt (sk_Order t))]
     @ omit_nil ''done'' JBool (sk_Done t)"

definition stream_settings_members :: "stream_settings \<Rightarrow> (string \<times> json) list" where
  "stream_settings_members s =
     omit_nil ''tasksPerCategory'' JInt (ss_TasksPerCategory s)
     @ omit_nil ''showDoneTasks'' JBool (ss_ShowDoneTasks s)"

section \<open>From an event to a payload\<close>

definition blank_task :: "string \<Rightarrow> stream_task" where
  "blank_task i = \<lparr>sk_ID = i, sk_Title = '''', sk_Notes = '''', sk_Category = '''', sk_Order = 0, sk_Done = None\<rparr>"

definition stream_created :: "stream_event \<Rightarrow> stream_task_created_data \<Rightarrow> stream_task" where
  "stream_created ev d =
     \<lparr>sk_ID = sv_EntityID ev, sk_Title = tc_Title d, sk_Notes = tc_Notes d, sk_Category = tc_Category d,
      sk_Order = tc_Order d, sk_Done = None\<rparr>"

definition stream_updated :: "stream_event \<Rightarrow> stream_task_updated_data \<Rightarrow> stream_task" where
  "stream_updated ev d =
     (let t0 = blank_task (sv_EntityID ev);
          t1 = (case tu_Title d of None \<Rightarrow> t0 | Some x \<Rightarrow> t0\<lparr>sk_Title := x\<rparr>);
          t2 = (case tu_Notes d of None \<Rightarrow> t1 | Some x \<Rightarrow> t1\<lparr>sk_Notes := x\<rparr>);
          t3 = (case tu_Category d of None \<Rightarrow> t2 | Some x \<Rightarrow> t2\<lparr>sk_Category := x\<rparr>);
          t4 = (case tu_Order d of None \<Rightarrow> t3 | Some x \<Rightarrow> t3\<lparr>sk_Order := x\<rparr>)
      in (case tu_Done d of None \<Rightarrow> t4 | Some x \<Rightarrow> t4\<lparr>sk_Done := Some x\<rparr>))"

text \<open>The task of a task event; \<open>None\<close> when the message is skipped.\<close>

definition event_task :: "stream_event \<Rightarrow> stream_task option" where
  "event_task ev =
     (if sv_Type ev = stream_TaskCreated then
        (case unmarshal_raw decode_task_created (sv_Data ev) of Inl e \<Rightarrow> None | Inr d \<Rightarrow> Some (stream_created ev d))
      else if sv_Type ev = stream_TaskUpdated then
        (case unmarshal_raw decode_task_updated (sv_Data ev) of Inl e \<Rightarrow> None | Inr d \<Rightarrow> Some (stream_updated ev d))
      else if sv_Type ev = stream_TaskCompleted then Some ((blank_task (sv_EntityID ev))\<lparr>sk_Done := Some True\<rparr>)
      else if sv_Type ev = stream_TaskReopened then Some ((blank_task (sv_EntityID ev))\<lparr>sk_Done := Some False\<rparr>)
      else None)"

definition event_settings :: "stream_event \<Rightarrow> stream_settings option" where
  "event_settings ev =
     (case unmarshal_raw decode_user_settings_updated (sv_Data ev) of
        Inl e \<Rightarrow> None
      | Inr d \<Rightarrow> Some \<lparr>ss_TasksPerCategory = uu_TasksPerCategory d, ss_ShowDoneTasks = uu_ShowDoneTasks d\<rparr>)"

definition event_data :: "stream_event \<Rightarrow> json option" where
  "event_data ev =
     (if sv_EntityType ev = ''task'' then
        map_option (\<lambda>t. JArr [JObj (stream_task_members t)]) (event_task ev)
      else if sv_EntityType ev = ''user-settings'' then
        map_option (\<lambda>s. JObj (stream_settings_members s)) (event_settings ev)
      else None)"

text \<open>One message: the call of \<open>broadcast\<close>, if there is one.\<close>

definition handle_update :: "string \<Rightarrow> (string \<times> string) option" where
  "handle_update msg =
     (case unmarshal_text decode_stream_event msg of
        Inl e \<Rightarrow> None
      | Inr ev \<Rightarrow>
          (case event_data ev of
             None \<Rightarrow> None
           | Some d \<Rightarrow>
               Some (sv_UserID ev,
                 json_print (JObj [(''entityType'', JStr (sv_EntityType ev)), (''data'', d)]))))"

text \<open>The loop, over the messages that arrive before the channel or the context ends.\<close>

fun SubscribeUpdates :: "(string \<Rightarrow> string \<Rightarrow> 'w \<Rightarrow> 'w) \<Rightarrow> string list \<Rightarrow> 'w \<Rightarrow> 'w" where
  "SubscribeUpdates broadcast [] w = w"
| "SubscribeUpdates broadcast (msg # msgs) w =
     SubscribeUpdates broadcast msgs
       (case handle_update msg of None \<Rightarrow> w | Some (userID, data) \<Rightarrow> broadcast userID data w)"

section \<open>The stream and the read model see the same event\<close>

definition stream_view :: "event \<Rightarrow> stream_event" where
  "stream_view ev = \<lparr>sv_EntityID = ev_EntityID ev, sv_EntityType = ev_EntityType ev, sv_Type = ev_Type ev,
     sv_Data = ev_Data ev, sv_UserID = ev_UserID ev\<rparr>"

lemma matches_sub:
  assumes "set names \<subseteq> set all" "n \<in> set names"
    "\<And>k. k \<in> set all \<Longrightarrow> k \<notin> set names \<Longrightarrow> fold_name k \<noteq> fold_name n"
  shows "matches all n k = matches names n k"
  using assms by (auto simp: matches_def)

lemma stream_names_fold:
  assumes "n \<in> set stream_event_names"
  shows "matches event_names n = matches stream_event_names n"
proof -
  have "set stream_event_names \<subseteq> set event_names" by (simp add: stream_event_names_def event_names_def)
  moreover have "fold_name k \<noteq> fold_name n" if "k \<in> set event_names" "k \<notin> set stream_event_names" for k
  proof -
    have "k = ''Id'' \<or> k = ''Timestamp''" using that by (auto simp: stream_event_names_def event_names_def)
    with assms show ?thesis by (auto simp: stream_event_names_def)
  qed
  ultimately show ?thesis using matches_sub assms by blast
qed

lemma decode_stream_of_event: "decode_event v = Some ev \<Longrightarrow> decode_stream_event v = Some (stream_view ev)"
proof -
  have "n \<in> set stream_event_names \<Longrightarrow> member_vals event_names n ms = member_vals stream_event_names n ms" for n ms
    by (simp add: member_vals_def stream_names_fold)
  then have "n \<in> set stream_event_names \<Longrightarrow> get_string event_names ms n = get_string stream_event_names ms n"
    "n \<in> set stream_event_names \<Longrightarrow> get_raw event_names ms n = get_raw stream_event_names ms n" for n ms
    by (simp_all add: get_string_def get_raw_def)
  then show "decode_event v = Some ev \<Longrightarrow> decode_stream_event v = Some (stream_view ev)"
    by (auto simp: decode_event_def decode_stream_event_def bind_eq_Some_conv stream_view_def
        stream_event_names_def)
qed

text \<open>When the read model takes an event, the stream pushes a task with the same key whose values
  are those of the stored task, or empty.\<close>

lemma created_push:
  assumes "ev_Type ev = TaskCreated" "task_effect ev old = Inr e"
  shows "event_task (stream_view ev) = Some \<lparr>sk_ID = te_RowKey e, sk_Title = te_Title e, sk_Notes = te_Notes e,
    sk_Category = te_Category e, sk_Order = te_Order e, sk_Done = None\<rparr> \<and> \<not> te_Done e"
  using assms
  by (auto simp: task_effect_def event_task_def stream_view_def stream_created_def created_entity_def
      split: sum.splits option.splits)

lemma stream_updated_fields:
  "stream_updated ev d = \<lparr>sk_ID = sv_EntityID ev, sk_Title = or_old '''' (tu_Title d),
     sk_Notes = or_old '''' (tu_Notes d), sk_Category = or_old '''' (tu_Category d),
     sk_Order = or_old 0 (tu_Order d), sk_Done = tu_Done d\<rparr>"
  by (simp add: stream_updated_def Let_def blank_task_def or_old_def split: option.split)

lemma updated_push:
  assumes "ev_Type ev \<noteq> TaskCreated" "task_effect ev (Some old) = Inr e" "te_RowKey old = ev_EntityID ev"
  obtains t where "event_task (stream_view ev) = Some t" "sk_ID t = te_RowKey e"
    "sk_Title t \<noteq> '''' \<Longrightarrow> sk_Title t = te_Title e" "sk_Notes t \<noteq> '''' \<Longrightarrow> sk_Notes t = te_Notes e"
    "sk_Category t \<noteq> '''' \<Longrightarrow> sk_Category t = te_Category e" "sk_Order t \<noteq> 0 \<Longrightarrow> sk_Order t = te_Order e"
    "\<And>b. sk_Done t = Some b \<Longrightarrow> b = te_Done e"
  using assms
  by (auto simp: task_effect_def event_update_def event_task_def stream_view_def stream_updated_fields
      blank_task_def changed_update_def done_update_def merge_task_def or_old_def
      split: sum.splits option.splits if_splits)

text \<open>Completing or reopening a task leaves its order alone in the read model, but pushes order 0.\<close>

lemma done_push_order:
  assumes "ev_Type ev = TaskCompleted \<or> ev_Type ev = TaskReopened" "task_effect ev (Some old) = Inr e"
  obtains t where "event_task (stream_view ev) = Some t" "(''order'', JInt 0) \<in> set (stream_task_members t)"
    "te_Order e = te_Order old"
  using assms
  by (auto simp: task_effect_def event_update_def event_task_def stream_view_def blank_task_def
      done_update_def merge_task_def stream_task_members_def split: if_splits)

lemma event_push:
  assumes "task_effect ev old = Inr e" "\<And>o'. old = Some o' \<Longrightarrow> te_RowKey o' = ev_EntityID ev"
  obtains t where "event_task (stream_view ev) = Some t" "sk_ID t = te_RowKey e"
    "sk_Title t \<noteq> '''' \<Longrightarrow> sk_Title t = te_Title e" "sk_Notes t \<noteq> '''' \<Longrightarrow> sk_Notes t = te_Notes e"
    "sk_Category t \<noteq> '''' \<Longrightarrow> sk_Category t = te_Category e" "sk_Order t \<noteq> 0 \<Longrightarrow> sk_Order t = te_Order e"
    "\<And>b. sk_Done t = Some b \<Longrightarrow> b = te_Done e"
proof (cases "ev_Type ev = TaskCreated")
  case True
  from created_push [OF True assms(1)] that show thesis by auto
next
  case False
  with assms(1) obtain o' where o': "old = Some o'"
    by (auto simp: task_effect_def split: sum.splits option.splits)
  with updated_push [OF False, of o' e] assms that show thesis by metis
qed

lemma handle_update_event:
  assumes "unmarshal_text decode_event p = Inr ev"
  shows "handle_update p = map_option (\<lambda>d. (ev_UserID ev,
    json_print (JObj [(''entityType'', JStr (ev_EntityType ev)), (''data'', d)]))) (event_data (stream_view ev))"
proof -
  have "unmarshal_text decode_stream_event p = Inr (stream_view ev)"
    using assms decode_stream_of_event by (auto simp: unmarshal_text_Inr)
  then show ?thesis
    unfolding handle_update_def by (simp add: stream_view_def split: option.split del: json_print.simps)
qed

end
