(* ===== verification/Startup.thy ===== *)
theory Startup
  imports Api_Handlers Auth Rmu_Processor Stream_Updates
begin

text \<open>
  The configuration read by the three long-running services at their start
  (\<open>prism-api/main.go\<close>, \<open>read-model-updater/main.go\<close>, \<open>stream-service/main.go\<close>). A call of
  \<open>log.Fatal\<close> ends the process and is an error with the fixed part of its message. Clients of
  external services are made by arguments.
\<close>

section \<open>Shared pieces\<close>

text \<open>\<open>strconv.ParseBool\<close>.\<close>

definition parse_bool :: "string \<Rightarrow> bool option" where
  "parse_bool s =
     (if s \<in> {''1'', ''t'', ''T'', ''TRUE'', ''true'', ''True''} then Some True
      else if s \<in> {''0'', ''f'', ''F'', ''FALSE'', ''false'', ''False''} then Some False
      else None)"

definition debug_enabled :: "environ \<Rightarrow> bool" where
  "debug_enabled env \<longleftrightarrow> parse_bool (getenv env ''DEBUG'') = Some True"

record redis_options =
  ro_Addr :: string
  ro_Password :: string
  ro_TLS :: bool

text \<open>The connection string is a URL or the format of Azure Cache for Redis: an address followed by
  settings. The last of several passwords counts.\<close>

definition redis_setting :: "string \<Rightarrow> redis_options \<Rightarrow> redis_options" where
  "redis_setting p o' =
     (let kv = split_n2 (CHR ''='') p in
      if length kv \<noteq> 2 then o'
      else if to_lower (kv ! 0) = ''password'' then o'\<lparr>ro_Password := kv ! 1\<rparr>
      else if to_lower (kv ! 0) = ''ssl'' then
        (if to_lower (kv ! 1) = ''true'' then o'\<lparr>ro_TLS := True\<rparr> else o')
      else o')"

definition redis_options_of :: "(string \<Rightarrow> go_error + redis_options) \<Rightarrow> string \<Rightarrow> redis_options" where
  "redis_options_of parseURL redisConn =
     (case parseURL redisConn of
        Inr o' \<Rightarrow> o'
      | Inl e \<Rightarrow>
          (let parts = split_all (CHR '','') redisConn in
           fold redis_setting (tl parts) \<lparr>ro_Addr = hd parts, ro_Password = '''', ro_TLS = False\<rparr>))"

text \<open>A positive integer of the environment, required to be well-formed when it is there.\<close>

definition strict_positive :: "environ \<Rightarrow> string \<Rightarrow> int \<Rightarrow> go_error + int" where
  "strict_positive env key def =
     (let v = getenv env key in
      if v = '''' then Inr def
      else
        (case parse_int v of
           None \<Rightarrow> Inl (ErrText (''invalid '' @ key))
         | Some n \<Rightarrow>
             (if n \<le> 0 then Inl (ErrText (''invalid '' @ key @ '': must be greater than zero'')) else Inr n)))"

definition strict_duration ::
  "(int \<Rightarrow> nat \<Rightarrow> int \<Rightarrow> int) \<Rightarrow> environ \<Rightarrow> string \<Rightarrow> int \<Rightarrow> go_error + int" where
  "strict_duration fl env key def =
     (let v = getenv env key in
      if v = '''' then Inr def
      else
        (case parse_duration fl v of
           None \<Rightarrow> Inl (ErrText (''invalid '' @ key))
         | Some d \<Rightarrow> (if d \<le> 0 then Inl (ErrText (''invalid '' @ key)) else Inr d)))"

text \<open>The authenticator of prism-api and of the stream service; \<open>jwksGet\<close> fetches the key set and
  \<open>newAuth\<close> is the constructor of the service. There is no key set in test mode, which does not use it.\<close>

definition no_jwks :: "'c jwt_token \<Rightarrow> go_error + string" where
  "no_jwks tok = Inl (ErrText ''no key set'')"

definition service_auth ::
  "(environ \<Rightarrow> ('c jwt_token \<Rightarrow> go_error + string) \<Rightarrow> string \<Rightarrow> string \<Rightarrow> go_error + 'c auth) \<Rightarrow>
   (string \<Rightarrow> go_error + ('c jwt_token \<Rightarrow> go_error + string)) \<Rightarrow> environ \<Rightarrow> go_error + 'c auth" where
  "service_auth newAuth jwksGet env =
     (if getenv env ''AUTH0_TEST_MODE'' = ''1'' then newAuth env no_jwks '''' ''''
      else
        (let audience = getenv env ''AUTH0_AUDIENCE''; domain = getenv env ''AUTH0_DOMAIN'' in
         if audience = '''' \<or> domain = '''' then Inl (ErrText ''missing Auth0 config'')
         else
           (case jwksGet (''https://'' @ domain @ ''/.well-known/jwks.json'') of
              Inl e \<Rightarrow> Inl (ErrText ''jwks'')
            | Inr jwks \<Rightarrow> newAuth env jwks audience (''https://'' @ domain @ ''/''))))"

text \<open>The web server that \<open>main\<close> puts together before it listens: the middleware in the order of its
  installation, the routes (method, path and handler), whether the profiler is registered, and the
  address. What the middleware does to a request is the framework's.\<close>

datatype middleware = Decompress | CORSWithConfig "string list" "string list" | Gzip

record 'r web_server =
  ws_Middleware :: "middleware list"
  ws_Routes :: "(string \<times> string \<times> 'r) list"
  ws_Pprof :: bool
  ws_Addr :: string

definition cors_all :: middleware where
  "cors_all = CORSWithConfig [''*''] [''Origin'', ''Content-Type'', ''Accept'', ''Authorization'']"

text \<open>A logger of the library \<open>logrus\<close>; a nil logger is \<open>None\<close>.\<close>

datatype log_formatter = TextFormatter | JSONFormatter string bool

datatype log_output = Stderr | Stdout

datatype log_level = InfoLevel | DebugLevel

record logger =
  lo_Formatter :: log_formatter
  lo_Output :: log_output
  lo_Level :: log_level

definition configureJSONLogger :: "logger option \<Rightarrow> logger option" where
  "configureJSONLogger l =
     (case l of
        None \<Rightarrow> None
      | Some l' \<Rightarrow>
          Some (l'\<lparr>lo_Formatter := JSONFormatter ''2006-01-02T15:04:05.999999999Z07:00'' True, lo_Output := Stdout\<rparr>))"

definition standard_level :: "environ \<Rightarrow> logger \<Rightarrow> logger" where
  "standard_level env std = (if debug_enabled env then std\<lparr>lo_Level := DebugLevel\<rparr> else std)"

section \<open>prism-api\<close>

record api_config =
  ap_connStr :: string
  ap_tasksTable :: string
  ap_settingsTable :: string
  ap_commandQueue :: string
  ap_taskPageSize :: int
  ap_queueConcurrency :: int
  ap_redis :: redis_options

definition api_config_of :: "(string \<Rightarrow> go_error + redis_options) \<Rightarrow> int \<Rightarrow> environ \<Rightarrow> go_error + api_config" where
  "api_config_of parseURL numCPU env =
     (let connStr = getenv env ''STORAGE_CONNECTION_STRING''; tasks = getenv env ''TASKS_TABLE'';
          settings = getenv env ''SETTINGS_TABLE''; queue = getenv env ''COMMAND_QUEUE''
      in if connStr = '''' \<or> tasks = '''' \<or> settings = '''' \<or> queue = ''''
         then Inl (ErrText ''missing storage config'')
         else
           (case strict_positive env ''TASKS_PAGE_SIZE'' 10 of
              Inl e \<Rightarrow> Inl e
            | Inr pageSize \<Rightarrow>
                (case strict_positive env ''COMMAND_QUEUE_CONCURRENCY'' (DefaultQueueConcurrency numCPU) of
                   Inl e \<Rightarrow> Inl e
                 | Inr conc \<Rightarrow>
                     (let redisConn = getenv env ''REDIS_CONNECTION_STRING'' in
                      if redisConn = '''' then Inl (ErrText ''missing redis config'')
                      else Inr \<lparr>ap_connStr = connStr, ap_tasksTable = tasks, ap_settingsTable = settings,
                             ap_commandQueue = queue, ap_taskPageSize = pageSize, ap_queueConcurrency = conc,
                             ap_redis = redis_options_of parseURL redisConn\<rparr>))))"

text \<open>The storage that the configuration gives; \<open>newClient\<close> makes the Redis client.\<close>

definition api_storage_of ::
  "(redis_options \<Rightarrow> 'w redis_client) \<Rightarrow>
   (string \<Rightarrow> retry_options \<Rightarrow> go_error + (string \<Rightarrow> 'w table_client)) \<Rightarrow>
   (string \<Rightarrow> string \<Rightarrow> retry_options \<Rightarrow> go_error + 'w command_queue) \<Rightarrow> api_config \<Rightarrow> go_error + 'w api_storage" where
  "api_storage_of newClient newService newQueue cfg =
     New_api newService newQueue (ap_connStr cfg) (ap_tasksTable cfg) (ap_settingsTable cfg) (ap_commandQueue cfg)
       (ap_taskPageSize cfg)
       [Some (WithQueueConcurrency (ap_queueConcurrency cfg)),
        Some (WithCache (Some (rc_Get (newClient (ap_redis cfg)))))]"

text \<open>The logger of the requests: a fresh one with the level of the standard logger.\<close>

definition api_logger :: "environ \<Rightarrow> logger \<Rightarrow> logger \<Rightarrow> logger option" where
  "api_logger env std new =
     (case configureJSONLogger (Some std) of
        None \<Rightarrow> None
      | Some std' \<Rightarrow>
          map_option (\<lambda>l. l\<lparr>lo_Level := lo_Level (standard_level env std')\<rparr>) (configureJSONLogger (Some new)))"

definition api_server :: "environ \<Rightarrow> (string \<times> string \<times> 'r) list \<Rightarrow> go_error + 'r web_server" where
  "api_server env routes =
     (let port = getenv env ''PORT'' in
      if port = '''' then Inl (ErrText ''PORT is empty'')
      else Inr \<lparr>ws_Middleware = [Decompress, cors_all, Gzip], ws_Routes = routes,
             ws_Pprof = (getenv env ''APP_ENV'' = ''development''), ws_Addr = '':'' @ port\<rparr>)"

text \<open>The start of the service up to listening: the storage, the authenticator, the sender and the
  server. A failed warm-up is only logged. \<open>std\<close> and \<open>new\<close> are the loggers that the library
  makes.\<close>

record ('w, 'c) api_service =
  as_Store :: "'w api_storage"
  as_Auth :: "'c auth"
  as_Sender :: "'w api_storage sender"
  as_Server :: "api_route web_server"

definition api_main ::
  "sonic \<Rightarrow> (int \<Rightarrow> nat \<Rightarrow> int \<Rightarrow> int) \<Rightarrow> logger \<Rightarrow> logger \<Rightarrow> (string \<Rightarrow> go_error + redis_options) \<Rightarrow>
   (redis_options \<Rightarrow> 'w redis_client) \<Rightarrow> (string \<Rightarrow> retry_options \<Rightarrow> go_error + (string \<Rightarrow> 'w table_client)) \<Rightarrow>
   (string \<Rightarrow> string \<Rightarrow> retry_options \<Rightarrow> go_error + 'w command_queue) \<Rightarrow>
   (string \<Rightarrow> go_error + ('c jwt_token \<Rightarrow> go_error + string)) \<Rightarrow> int \<Rightarrow> environ \<Rightarrow> 'w \<Rightarrow>
   (go_error + ('w, 'c) api_service) \<times> 'w" where
  "api_main sn fl std new parseURL newClient newService newQueue jwksGet numCPU env w =
     (case api_config_of parseURL numCPU env of
        Inl e \<Rightarrow> (Inl e, w)
      | Inr cfg \<Rightarrow>
          (case api_storage_of newClient newService newQueue cfg of
             Inl e \<Rightarrow> (Inl e, w)
           | Inr store \<Rightarrow>
               (case Warmup sn store w of
                  (warm, w1) \<Rightarrow>
                    (case service_auth NewAuth jwksGet env of
                       Inl e \<Rightarrow> (Inl e, w1)
                     | Inr auth \<Rightarrow>
                         (case api_Register fl env numCPU (Some store) (api_logger env std new \<noteq> None) sender_zero of
                            Inl e \<Rightarrow> (Inl e, w1)
                          | Inr (routes, g) \<Rightarrow>
                              (case api_server env routes of
                                 Inl e \<Rightarrow> (Inl e, w1)
                               | Inr srv \<Rightarrow> (Inr \<lparr>as_Store = store, as_Auth = auth, as_Sender = g, as_Server = srv\<rparr>, w1)))))))"

section \<open>read-model-updater\<close>

record rmu_config =
  rm_connStr :: string
  rm_eventsQueue :: string
  rm_tasksTable :: string
  rm_usersTable :: string
  rm_settingsTable :: string
  rm_redis :: redis_options
  rm_tasksTTL :: int
  rm_settingsTTL :: int
  rm_tasksPerPage :: int
  rm_cachedPages :: int
  rm_taskChannel :: string
  rm_settingsChannel :: string
  rm_listenAddr :: string

definition rmu_main ::
  "(int \<Rightarrow> nat \<Rightarrow> int \<Rightarrow> int) \<Rightarrow> (string \<Rightarrow> go_error + redis_options) \<Rightarrow>
   (string \<Rightarrow> string \<Rightarrow> retry_options \<Rightarrow> go_error + 'w event_queue) \<Rightarrow>
   (string \<Rightarrow> retry_options \<Rightarrow> go_error + (string \<Rightarrow> 'w table_client)) \<Rightarrow> environ \<Rightarrow>
   go_error + 'w rmu_storage \<times> rmu_config" where
  "rmu_main fl parseURL newQueue newService env =
     (let connStr = getenv env ''STORAGE_CONNECTION_STRING''; queue = getenv env ''DOMAIN_EVENTS_QUEUE'';
          tasks = getenv env ''TASKS_TABLE''; users = getenv env ''USERS_TABLE'';
          settings = getenv env ''SETTINGS_TABLE''; redisConn = getenv env ''REDIS_CONNECTION_STRING''
      in if connStr = '''' \<or> queue = '''' \<or> tasks = '''' \<or> users = '''' \<or> settings = ''''
         then Inl (ErrText ''missing storage config'')
         else
           (case New_rmu newQueue newService connStr queue tasks users settings of
              Inl e \<Rightarrow> Inl (ErrText ''storage'')
            | Inr st \<Rightarrow>
                (if redisConn = '''' then Inl (ErrText ''missing redis config'')
                 else
                   (case strict_duration fl env ''TASKS_CACHE_TTL'' (12 * 3600 * second) of
                      Inl e \<Rightarrow> Inl e
                    | Inr tasksTTL \<Rightarrow>
                        (case strict_duration fl env ''SETTINGS_CACHE_TTL'' (4 * 3600 * second) of
                           Inl e \<Rightarrow> Inl e
                         | Inr settingsTTL \<Rightarrow>
                             (let tasksPerPage = lookupPositiveInt env ''TASKS_PAGE_SIZE'' 10 in
                              case strict_positive env ''NUM_CACHED_PAGES'' 1 of
                                Inl e \<Rightarrow> Inl e
                              | Inr cachedPages \<Rightarrow>
                                  (let tc = getenv env ''TASK_UPDATES_CHANNEL'';
                                       sc = getenv env ''SETTINGS_UPDATES_CHANNEL''
                                   in if tc = '''' \<or> sc = '''' then Inl (ErrText ''missing redis channel config'')
                                      else Inr (st, \<lparr>rm_connStr = connStr, rm_eventsQueue = queue, rm_tasksTable = tasks,
                                             rm_usersTable = users, rm_settingsTable = settings,
                                             rm_redis = redis_options_of parseURL redisConn, rm_tasksTTL = tasksTTL,
                                             rm_settingsTTL = settingsTTL, rm_tasksPerPage = i32 tasksPerPage,
                                             rm_cachedPages = cachedPages, rm_taskChannel = tc, rm_settingsChannel = sc,
                                             rm_listenAddr = (case env ''FUNCTIONS_CUSTOMHANDLER_PORT'' of
                                               None \<Rightarrow> '':8080'' | Some port \<Rightarrow> '':'' @ port)\<rparr>))))))))"

definition rmu_updater_of ::
  "(redis_options \<Rightarrow> 'w redis_client) \<Rightarrow> ('w \<Rightarrow> datetime \<times> 'w) \<Rightarrow> 'w rmu_storage \<Rightarrow> rmu_config \<Rightarrow> 'w cache_updater" where
  "rmu_updater_of newClient now st cfg =
     newCacheUpdater (Some (as_cache_store st)) (Some (newClient (rm_redis cfg))) now (rm_tasksPerPage cfg)
       (rm_cachedPages cfg) (rm_tasksTTL cfg) (rm_settingsTTL cfg)"

text \<open>The server: both routes have the handler of domain events.\<close>

definition rmu_server :: "rmu_config \<Rightarrow> 'h \<Rightarrow> 'h web_server" where
  "rmu_server cfg handler =
     \<lparr>ws_Middleware = [],
      ws_Routes = [(''POST'', ''/update-model'', handler), (''POST'', ''/api/domain-events'', handler)],
      ws_Pprof = False, ws_Addr = rm_listenAddr cfg\<rparr>"

definition rmu_service ::
  "('r \<Rightarrow> go_error + string) \<Rightarrow> (redis_options \<Rightarrow> 'w redis_client) \<Rightarrow> ('w \<Rightarrow> datetime \<times> 'w) \<Rightarrow>
   'w rmu_storage \<Rightarrow> rmu_config \<Rightarrow> ('r \<Rightarrow> 'w \<Rightarrow> ((int \<times> string) \<times> 'w) option) web_server" where
  "rmu_service bnd newClient now st cfg =
     rmu_server cfg
       (update_handler bnd (orch_Apply (NewOrchestrator st)) (Some (rmu_updater_of newClient now st cfg))
          (newClient (rm_redis cfg)) (rm_taskChannel cfg) (rm_settingsChannel cfg))"

section \<open>stream-service\<close>

record stream_config =
  sm_redis :: redis_options
  sm_taskChannel :: string
  sm_settingsChannel :: string
  sm_listenAddr :: string

definition stream_config_of :: "(string \<Rightarrow> go_error + redis_options) \<Rightarrow> environ \<Rightarrow> go_error + stream_config" where
  "stream_config_of parseURL env =
     (let redisConn = getenv env ''REDIS_CONNECTION_STRING'';
          tc = getenv env ''TASK_UPDATES_CHANNEL''; sc = getenv env ''SETTINGS_UPDATES_CHANNEL''
      in if redisConn = '''' then Inl (ErrText ''missing redis config'')
         else if tc = '''' \<or> sc = '''' then Inl (ErrText ''missing redis channel config'')
         else Inr \<lparr>sm_redis = redis_options_of parseURL redisConn, sm_taskChannel = tc, sm_settingsChannel = sc,
                sm_listenAddr = (case env ''STREAM_SERVICE_PORT'' of None \<Rightarrow> '':9000'' | Some port \<Rightarrow> '':'' @ port)\<rparr>)"

text \<open>\<open>Register\<close> subscribes to both channels, each in a goroutine of its own, and wires the routes.
  \<open>msgs\<close> gives the messages that arrive on a channel.\<close>

datatype stream_route = RouteStream | RouteStreamHealthz

definition stream_Register ::
  "(string \<Rightarrow> string \<Rightarrow> 'w \<Rightarrow> 'w) \<Rightarrow> (string \<Rightarrow> string list) \<Rightarrow> string \<Rightarrow> string \<Rightarrow>
   ('w \<Rightarrow> 'w) list \<times> (string \<times> string \<times> stream_route) list" where
  "stream_Register broadcast msgs taskChannel settingsChannel =
     ([SubscribeUpdates broadcast (msgs taskChannel), SubscribeUpdates broadcast (msgs settingsChannel)],
      [(''GET'', ''/stream'', RouteStream), (''GET'', ''/healthz'', RouteStreamHealthz)])"

definition stream_main ::
  "(string \<Rightarrow> go_error + redis_options) \<Rightarrow> (string \<Rightarrow> go_error + ('c jwt_token \<Rightarrow> go_error + string)) \<Rightarrow>
   (string \<Rightarrow> string \<Rightarrow> 'w \<Rightarrow> 'w) \<Rightarrow> (string \<Rightarrow> string list) \<Rightarrow> environ \<Rightarrow>
   go_error + redis_options \<times> 'c stream_auth \<times> ('w \<Rightarrow> 'w) list \<times> stream_route web_server" where
  "stream_main parseURL jwksGet broadcast msgs env =
     (case stream_config_of parseURL env of
        Inl e \<Rightarrow> Inl e
      | Inr cfg \<Rightarrow>
          (case service_auth stream_NewAuth jwksGet env of
             Inl e \<Rightarrow> Inl e
           | Inr auth \<Rightarrow>
               (case stream_Register broadcast msgs (sm_taskChannel cfg) (sm_settingsChannel cfg) of
                  (subscriptions, routes) \<Rightarrow>
                    Inr (sm_redis cfg, auth, subscriptions,
                      \<lparr>ws_Middleware = [cors_all], ws_Routes = routes, ws_Pprof = False, ws_Addr = sm_listenAddr cfg\<rparr>))))"

section \<open>Facts\<close>

lemma strict_positive_pos: "strict_positive env key d = Inr n \<Longrightarrow> 0 < d \<Longrightarrow> 0 < n"
  by (auto simp: strict_positive_def Let_def split: if_splits option.splits)

lemma strict_positive_lookup: "strict_positive env key d = Inr n \<Longrightarrow> lookupPositiveInt env key d = n"
  by (auto simp: strict_positive_def lookupPositiveInt_def Let_def split: if_splits option.splits)

lemma strict_positive_range: "strict_positive env key d = Inr n \<Longrightarrow> in_i64 d \<Longrightarrow> in_i64 n"
  by (auto simp: strict_positive_def Let_def split: if_splits option.splits dest: parse_int_range)

lemma queueConcurrencyForCPU_bounds:
  "defaultQueueConcurrency \<le> queueConcurrencyForCPU n" "queueConcurrencyForCPU n \<le> maxQueueConcurrency"
  by (auto simp: queueConcurrencyForCPU_def Let_def defaultQueueConcurrency_def maxQueueConcurrency_def)

lemma New_api_bounds:
  assumes "New_api newService newQueue cs tt st cq n opts = Inr s"
  shows "1 \<le> sa_taskPageSize s" "sa_taskPageSize s \<le> maxTaskPageSize" "1 \<le> sa_queueConcurrency s"
  using assms
  by (auto simp: New_api_def Let_def maxTaskPageSize_def defaultQueueConcurrency_def
      split: sum.splits if_splits)

lemma resolveTaskPageSize_bounds:
  "1 \<le> resolveTaskPageSize r d" "resolveTaskPageSize r d \<le> maxTaskPageSize"
  by (auto simp: resolveTaskPageSize_def maxTaskPageSize_def Let_def i32_id in_i32_def)

lemma api_config_positive:
  assumes "api_config_of parseURL numCPU env = Inr cfg"
  shows "0 < ap_taskPageSize cfg" "0 < ap_queueConcurrency cfg"
proof -
  obtain n c where nc: "strict_positive env ''TASKS_PAGE_SIZE'' 10 = Inr n"
    "strict_positive env ''COMMAND_QUEUE_CONCURRENCY'' (DefaultQueueConcurrency numCPU) = Inr c"
    "ap_taskPageSize cfg = n" "ap_queueConcurrency cfg = c"
    using assms by (auto simp: api_config_of_def Let_def split: if_splits sum.splits)
  have "0 < DefaultQueueConcurrency numCPU"
    using queueConcurrencyForCPU_bounds(1) [of numCPU]
    by (simp add: DefaultQueueConcurrency_def defaultQueueConcurrency_def)
  with nc strict_positive_pos show "0 < ap_taskPageSize cfg" "0 < ap_queueConcurrency cfg" by fastforce+
qed

text \<open>The page size of prism-api's storage and of the updater, from the same environment.\<close>

lemma api_page_size:
  assumes "api_config_of parseURL numCPU env = Inr cfg"
    "api_storage_of newClient newService newQueue cfg = Inr s" "ap_taskPageSize cfg < 2 ^ 31"
  shows "sa_taskPageSize s = min (ap_taskPageSize cfg) 1000"
proof -
  have "i32 (ap_taskPageSize cfg) = ap_taskPageSize cfg"
    using api_config_positive(1) [OF assms(1)] assms(3) by (intro i32_id) (simp add: in_i32_def)
  then show ?thesis
    using assms(2) api_config_positive [OF assms(1)]
    by (auto simp: api_storage_of_def New_api_def Let_def WithQueueConcurrency_def WithCache_def
        maxTaskPageSize_def split: sum.splits if_splits)
qed

lemma rmu_page_size:
  assumes "api_config_of parseURL numCPU env = Inr cfg" "rmu_main fl parseURL newQ newS env = Inr (store, rcfg)"
    "ap_taskPageSize cfg < 2 ^ 31"
  shows "cu_tasksPerPage (rmu_updater_of newClient now st rcfg) = ap_taskPageSize cfg"
proof -
  have "strict_positive env ''TASKS_PAGE_SIZE'' 10 = Inr (ap_taskPageSize cfg)"
    using assms(1) by (auto simp: api_config_of_def Let_def split: if_splits sum.splits)
  then have "lookupPositiveInt env ''TASKS_PAGE_SIZE'' 10 = ap_taskPageSize cfg" by (rule strict_positive_lookup)
  moreover have "i32 (ap_taskPageSize cfg) = ap_taskPageSize cfg"
    using api_config_positive(1) [OF assms(1)] assms(3) by (intro i32_id) (simp add: in_i32_def)
  ultimately have "rm_tasksPerPage rcfg = ap_taskPageSize cfg"
    using assms(2) by (auto simp: rmu_main_def Let_def split: if_splits sum.splits)
  then show ?thesis
    using api_config_positive(1) [OF assms(1)] by (simp add: rmu_updater_of_def newCacheUpdater_def)
qed

text \<open>A connection string in the format of Azure.\<close>

lemma redis_azure_format:
  assumes "parseURL (addr @ '',password='' @ pw @ '',ssl=True'') = Inl e" "CHR '','' \<notin> set addr" "CHR '','' \<notin> set pw"
  shows "redis_options_of parseURL (addr @ '',password='' @ pw @ '',ssl=True'') =
    \<lparr>ro_Addr = addr, ro_Password = pw, ro_TLS = True\<rparr>"
proof -
  have app: "split_all c (xs @ c # ys) = xs # split_all c ys" if "c \<notin> set xs" for c xs ys
    using that by (induction xs) auto
  have "split_all (CHR '','') (addr @ '',password='' @ pw @ '',ssl=True'') =
      [addr, ''password='' @ pw, ''ssl=True'']"
    using app [of "CHR '',''" addr "''password='' @ pw @ '',ssl=True''"]
      app [of "CHR '',''" "''password='' @ pw" "''ssl=True''"] assms(2,3) by simp
  moreover have "split_n2 (CHR ''='') (''password='' @ pw) = [''password'', pw]"
    using split_n2_two [of "CHR ''=''" "''password''" pw] by simp
  moreover have "char_of (116 :: nat) = CHR ''t''" by code_simp
  ultimately show ?thesis
    using assms(1) by (simp add: redis_options_of_def redis_setting_def Let_def to_lower_def lower_char_def)
qed

text \<open>The authenticator of a started service.\<close>

lemma stream_NewAuth_same [simp]: "stream_NewAuth = NewAuth"
  by (intro ext) (simp add: stream_NewAuth_def NewAuth_def)

definition auth_variables :: "string list" where
  "auth_variables = [''AUTH0_TEST_MODE'', ''TEST_JWT_SECRET'', ''AUTH0_AUDIENCE'', ''AUTH0_DOMAIN'']"

lemma service_auth_same:
  assumes "\<And>k. k \<in> set auth_variables \<Longrightarrow> env' k = env k"
  shows "service_auth stream_NewAuth jwksGet env' = service_auth NewAuth jwksGet env"
proof -
  have "getenv env' k = getenv env k" if "k \<in> set auth_variables" for k
    using assms [OF that] by (simp add: getenv_def)
  from this [of "''AUTH0_TEST_MODE''"] this [of "''TEST_JWT_SECRET''"] this [of "''AUTH0_AUDIENCE''"]
    this [of "''AUTH0_DOMAIN''"]
  have "getenv env' ''AUTH0_TEST_MODE'' = getenv env ''AUTH0_TEST_MODE''"
    "getenv env' ''TEST_JWT_SECRET'' = getenv env ''TEST_JWT_SECRET''"
    "getenv env' ''AUTH0_AUDIENCE'' = getenv env ''AUTH0_AUDIENCE''"
    "getenv env' ''AUTH0_DOMAIN'' = getenv env ''AUTH0_DOMAIN''" by (simp_all add: auth_variables_def)
  then show ?thesis by (simp only: service_auth_def NewAuth_def stream_NewAuth_same)
qed

definition auth_configured ::
  "(string \<Rightarrow> go_error + ('c jwt_token \<Rightarrow> go_error + string)) \<Rightarrow> environ \<Rightarrow> 'c auth \<Rightarrow> bool" where
  "auth_configured jwksGet env a \<longleftrightarrow>
     (if getenv env ''AUTH0_TEST_MODE'' = ''1''
      then au_TestMode a \<and> au_TestSecret a = getenv env ''TEST_JWT_SECRET'' \<and> au_TestSecret a \<noteq> ''''
      else \<not> au_TestMode a \<and> au_Audience a = getenv env ''AUTH0_AUDIENCE'' \<and> au_Audience a \<noteq> '''' \<and>
        au_Issuer a = ''https://'' @ getenv env ''AUTH0_DOMAIN'' @ ''/'' \<and> getenv env ''AUTH0_DOMAIN'' \<noteq> '''' \<and>
        jwksGet (''https://'' @ getenv env ''AUTH0_DOMAIN'' @ ''/.well-known/jwks.json'') = Inr (au_Keyfunc a))"

lemma service_auth_configured: "service_auth NewAuth jwksGet env = Inr a \<Longrightarrow> auth_configured jwksGet env a"
  by (auto simp: service_auth_def NewAuth_def auth_configured_def Let_def split: if_splits sum.splits)

text \<open>prism-api listens only when it is completely configured.\<close>

lemma api_main_parts:
  assumes "api_main sn fl std new parseURL newClient newService newQueue jwksGet numCPU env w = (Inr svc, w')"
  obtains cfg routes where "api_config_of parseURL numCPU env = Inr cfg"
    "api_storage_of newClient newService newQueue cfg = Inr (as_Store svc)"
    "service_auth NewAuth jwksGet env = Inr (as_Auth svc)"
    "initCommandSender fl env numCPU (Some (as_Store svc)) True sender_zero = Inr (as_Sender svc)"
    "api_server env api_routes = Inr (as_Server svc)" "snd (Warmup sn (as_Store svc) w) = w'"
  using assms
  by (fastforce simp: api_main_def api_Register_def api_logger_def configureJSONLogger_def
      split: sum.splits prod.splits)

lemma api_server_ok:
  "api_server env routes = Inr srv \<Longrightarrow>
   ws_Routes srv = routes \<and> getenv env ''PORT'' \<noteq> '''' \<and> ws_Addr srv = '':'' @ getenv env ''PORT''"
  by (auto simp: api_server_def Let_def split: if_splits)

lemma api_main_sender:
  assumes "api_main sn fl std new parseURL newClient newService newQueue jwksGet numCPU env w = (Inr svc, w')"
  shows "gs_store (as_Sender svc) = Some (as_Store svc)" "1 \<le> gs_workerCount (as_Sender svc)"
    "gs_workerCount (as_Sender svc) \<le> gs_jobBuf (as_Sender svc)"
proof -
  have "\<not> gs_once (sender_zero :: 'a api_storage sender)" by (simp add: sender_zero_def)
  note init = initCommandSender_config [OF this]
  from assms obtain "initCommandSender fl env numCPU (Some (as_Store svc)) True sender_zero = Inr (as_Sender svc)"
    by (rule api_main_parts)
  from init [OF this] show "gs_store (as_Sender svc) = Some (as_Store svc)" "1 \<le> gs_workerCount (as_Sender svc)"
    "gs_workerCount (as_Sender svc) \<le> gs_jobBuf (as_Sender svc)" by auto
qed

lemma api_main_limits:
  assumes "api_main sn fl std new parseURL newClient newService newQueue jwksGet numCPU env w = (Inr svc, w')"
  shows "1 \<le> sa_taskPageSize (as_Store svc)" "sa_taskPageSize (as_Store svc) \<le> 1000"
    "1 \<le> sa_queueConcurrency (as_Store svc)"
proof -
  from assms obtain cfg where "api_storage_of newClient newService newQueue cfg = Inr (as_Store svc)"
    by (rule api_main_parts)
  from New_api_bounds [OF this [unfolded api_storage_of_def]]
  show "1 \<le> sa_taskPageSize (as_Store svc)" "sa_taskPageSize (as_Store svc) \<le> 1000"
    "1 \<le> sa_queueConcurrency (as_Store svc)" by (simp_all add: maxTaskPageSize_def)
qed

end
