(* ===== verification/Stream_Clients.thy ===== *)
theory Stream_Clients
  imports Stream_Updates Step_Systems Auth Cache_Updater "HOL-Library.Sublist"
begin

text \<open>
  The browser connections of the stream service (\<open>stream-service/api/handlers.go\<close>): the registry
  of clients, \<open>broadcast\<close>, and the handler of \<open>/stream\<close>. A channel is a number; \<open>hb_buf\<close> holds the
  contents of every channel. The handlers of all connections and the subscriber run concurrently,
  which is the step relation \<open>hub_step\<close>; the operations on the registry hold its lock and are atomic.
\<close>

section \<open>The registry\<close>

type_synonym clients = "string \<rightharpoonup> nat list"

definition addClient :: "string \<Rightarrow> nat \<Rightarrow> clients \<Rightarrow> clients" where
  "addClient userID ch cs =
     cs(userID \<mapsto> List.insert ch (case cs userID of None \<Rightarrow> [] | Some l \<Rightarrow> l))"

definition removeClient :: "string \<Rightarrow> nat \<Rightarrow> clients \<Rightarrow> clients" where
  "removeClient userID ch cs =
     (case cs userID of
        None \<Rightarrow> cs
      | Some l \<Rightarrow>
          (let l1 = removeAll ch l in
           if l1 = [] then cs(userID := None) else cs(userID \<mapsto> l1)))"

text \<open>A send that would block is dropped; every channel has room for one message.\<close>

definition client_cap :: nat where "client_cap = 1"

definition offer_message :: "string \<Rightarrow> nat \<Rightarrow> (nat \<Rightarrow> string list) \<Rightarrow> (nat \<Rightarrow> string list)" where
  "offer_message msg ch buf = (if length (buf ch) < client_cap then buf(ch := buf ch @ [msg]) else buf)"

definition broadcast :: "string \<Rightarrow> string \<Rightarrow> clients \<Rightarrow> (nat \<Rightarrow> string list) \<Rightarrow> (nat \<Rightarrow> string list)" where
  "broadcast userID msg cs buf =
     fold (offer_message msg) (case cs userID of None \<Rightarrow> [] | Some l \<Rightarrow> l) buf"

section \<open>The handler of /stream\<close>

definition stream_auth_header :: "string \<Rightarrow> string \<Rightarrow> string" where
  "stream_auth_header authHeader token =
     (if authHeader = '''' \<and> token \<noteq> '''' then ''Bearer '' @ token else authHeader)"

definition sse_frame :: "string \<Rightarrow> string" where
  "sse_frame payload = SSEDataPrefix @ payload @ [CHR 0x0A, CHR 0x0A]"

definition keep_alive :: string where
  "keep_alive = '': keep-alive'' @ [CHR 0x0A, CHR 0x0A]"

definition getOrDefault :: "'w redis_client \<Rightarrow> string \<Rightarrow> string \<Rightarrow> 'w \<Rightarrow> string \<times> 'w" where
  "getOrDefault rc key def w =
     (case rc_Get rc key w of (RedisValue b, w1) \<Rightarrow> (b, w1) | (_, w1) \<Rightarrow> (def, w1))"

text \<open>\<open>json.Marshal\<close> of \<open>initialMsg\<close>. When the cached text is no JSON the error is ignored and the
  payload is empty.\<close>

definition initial_payload :: "string \<Rightarrow> string \<Rightarrow> string" where
  "initial_payload entityType data =
     (case marshal_raw data of
        Inl e \<Rightarrow> ''''
      | Inr d \<Rightarrow> ''{'' @ json_quote ''entityType'' @ '':'' @ json_quote entityType @ '','' @
                 json_quote ''data'' @ '':'' @ d @ ''}'')"

text \<open>Up to the loop: an answer with its status and text, the end of the request when a write fails, or
  the frames written before the client is registered. \<open>flushable\<close> says whether the response can be
  flushed, and \<open>writes\<close> whether writing a frame succeeds.\<close>

datatype stream_start = StreamRefused int string | StreamEnded | StreamOpen string "string list"

definition stream_begin ::
  "(string \<Rightarrow> go_error + string) \<Rightarrow> 'w redis_client \<Rightarrow> bool \<Rightarrow> (string \<Rightarrow> bool) \<Rightarrow> string \<Rightarrow> string \<Rightarrow> 'w \<Rightarrow>
   stream_start \<times> 'w" where
  "stream_begin auth rc flushable writes authHeader token w =
     (case auth (stream_auth_header authHeader token) of
        Inl e \<Rightarrow> (StreamRefused 401 (error_text e), w)
      | Inr userID \<Rightarrow>
          (if \<not> flushable then (StreamRefused 500 ''stream unsupported'', w)
           else
             (case getOrDefault rc (TasksKeyPrefix @ userID) ''[]'' w of
                (tasks, w1) \<Rightarrow>
                  (let f1 = sse_frame (initial_payload ''task'' tasks) in
                   if \<not> writes f1 then (StreamEnded, w1)
                   else
                     (case getOrDefault rc (SettingsKeyPrefix @ userID) ''{}'' w1 of
                        (settings, w2) \<Rightarrow>
                          (let f2 = sse_frame (initial_payload ''user-settings'' settings) in
                           if \<not> writes f2 then (StreamEnded, w2)
                           else (StreamOpen userID [f1, f2], w2)))))))"

definition stream_healthz :: "('w \<Rightarrow> go_error option \<times> 'w) \<Rightarrow> 'w \<Rightarrow> (int \<times> string) \<times> 'w" where
  "stream_healthz ping w =
     (case ping w of (Some e, w1) \<Rightarrow> ((500, ''Service unavailable''), w1) | (None, w1) \<Rightarrow> ((200, ''''), w1))"

section \<open>All connections together\<close>

text \<open>In the loop a connection takes a message and writes it (\<open>hub_write\<close>) or fails to and returns
  (\<open>hub_lost\<close>), writes a comment to keep the connection alive, or returns.
  \<open>hb_user\<close> is the user of every connection that has been opened and \<open>hb_live\<close> tells the ones
  that are in their loop; \<open>hb_out\<close> is what a connection has written after its initial frames, and
  \<open>hb_log\<close> the broadcasts so far.\<close>

record hub =
  hb_clients :: clients
  hb_buf :: "nat \<Rightarrow> string list"
  hb_next :: nat
  hb_user :: "nat \<Rightarrow> string"
  hb_live :: "nat \<Rightarrow> bool"
  hb_out :: "nat \<Rightarrow> string list"
  hb_log :: "(string \<times> string) list"

definition hub_init :: hub where
  "hub_init = \<lparr>hb_clients = Map.empty, hb_buf = (\<lambda>_. []), hb_next = 0, hb_user = (\<lambda>_. ''''),
     hb_live = (\<lambda>_. False), hb_out = (\<lambda>_. []), hb_log = []\<rparr>"

definition hub_connect :: "string \<Rightarrow> hub \<Rightarrow> hub" where
  "hub_connect u s =
     (let ch = hb_next s in
      s\<lparr>hb_clients := addClient u ch (hb_clients s), hb_next := Suc ch,
        hb_user := (hb_user s)(ch := u), hb_live := (hb_live s)(ch := True)\<rparr>)"

definition hub_broadcast :: "string \<Rightarrow> string \<Rightarrow> hub \<Rightarrow> hub" where
  "hub_broadcast u m s =
     s\<lparr>hb_buf := broadcast u m (hb_clients s) (hb_buf s), hb_log := hb_log s @ [(u, m)]\<rparr>"

definition hub_disconnect :: "nat \<Rightarrow> hub \<Rightarrow> hub" where
  "hub_disconnect ch s =
     s\<lparr>hb_clients := removeClient (hb_user s ch) ch (hb_clients s), hb_live := (hb_live s)(ch := False)\<rparr>"

inductive hub_step :: "hub \<Rightarrow> hub \<Rightarrow> bool" where
  hub_open: "hub_step s (hub_connect u s)"
| hub_push: "hub_step s (hub_broadcast u m s)"
| hub_write: "hb_live s ch \<Longrightarrow> hb_buf s ch = m # ms \<Longrightarrow>
     hub_step s (s\<lparr>hb_buf := (hb_buf s)(ch := ms), hb_out := (hb_out s)(ch := hb_out s ch @ [sse_frame m])\<rparr>)"
| hub_alive: "hb_live s ch \<Longrightarrow>
     hub_step s (s\<lparr>hb_out := (hb_out s)(ch := hb_out s ch @ [keep_alive])\<rparr>)"
| hub_lost: "hb_live s ch \<Longrightarrow> hb_buf s ch = m # ms \<Longrightarrow>
     hub_step s (hub_disconnect ch (s\<lparr>hb_buf := (hb_buf s)(ch := ms)\<rparr>))"
| hub_close: "hb_live s ch \<Longrightarrow> hub_step s (hub_disconnect ch s)"

definition user_messages :: "string \<Rightarrow> (string \<times> string) list \<Rightarrow> string list" where
  "user_messages u l = map snd [um \<leftarrow> l. fst um = u]"

definition pushed :: "hub \<Rightarrow> nat \<Rightarrow> string list" where
  "pushed s ch = [f \<leftarrow> hb_out s ch. f \<noteq> keep_alive]"

section \<open>Facts\<close>

lemma frame_not_keep_alive: "sse_frame m \<noteq> keep_alive"
  by (simp add: sse_frame_def keep_alive_def SSEDataPrefix_def)

lemma offer_message_simps [simp]:
  "a \<noteq> ch \<Longrightarrow> offer_message m a buf ch = buf ch"
  "offer_message m ch buf ch = (if length (buf ch) < client_cap then buf ch @ [m] else buf ch)"
  by (auto simp: offer_message_def)

lemma fold_offer_other: "ch \<notin> set l \<Longrightarrow> fold (offer_message m) l buf ch = buf ch"
  by (induction l arbitrary: buf) auto

lemma fold_offer_in:
  "distinct l \<Longrightarrow> ch \<in> set l \<Longrightarrow>
   fold (offer_message m) l buf ch = (if length (buf ch) < client_cap then buf ch @ [m] else buf ch)"
proof (induction l arbitrary: buf)
  case (Cons a l)
  then show ?case by (cases "a = ch") (auto simp: fold_offer_other)
qed simp

subsection \<open>The invariant\<close>

text \<open>The registry holds exactly the live connections of each user, and no empty entries.\<close>

definition channels :: "clients \<Rightarrow> string \<Rightarrow> nat list" where
  "channels cs u = (case cs u of None \<Rightarrow> [] | Some l \<Rightarrow> l)"

definition registry_ok :: "hub \<Rightarrow> bool" where
  "registry_ok s \<longleftrightarrow> (\<forall>u. hb_clients s u \<noteq> Some []) \<and> (\<forall>u. distinct (channels (hb_clients s) u)) \<and>
     (\<forall>u ch. ch \<in> set (channels (hb_clients s) u) \<longleftrightarrow> hb_live s ch \<and> hb_user s ch = u)"

lemma channels_addClient [simp]:
  "channels (addClient u ch cs) v = (if v = u then List.insert ch (channels cs u) else channels cs v)"
  by (simp add: channels_def addClient_def)

lemma channels_removeClient [simp]:
  "channels (removeClient u ch cs) v = (if v = u then removeAll ch (channels cs u) else channels cs v)"
  by (simp add: channels_def removeClient_def Let_def split: option.splits)

lemma no_empty_entries:
  "\<forall>v. cs v \<noteq> Some [] \<Longrightarrow> addClient u ch cs v \<noteq> Some []"
  "\<forall>v. cs v \<noteq> Some [] \<Longrightarrow> removeClient u ch cs v \<noteq> Some []"
  by (auto simp: addClient_def removeClient_def Let_def List.insert_def split: option.splits if_splits)

definition buffers_ok :: "hub \<Rightarrow> bool" where
  "buffers_ok s \<longleftrightarrow> (\<forall>ch. length (hb_buf s ch) \<le> client_cap) \<and>
     (\<forall>ch \<ge> hb_next s. \<not> hb_live s ch \<and> hb_buf s ch = [] \<and> hb_out s ch = [])"

text \<open>What a connection has written and has in its channel is taken, in order, from the broadcasts to
  its user.\<close>

definition delivery_ok :: "hub \<Rightarrow> bool" where
  "delivery_ok s \<longleftrightarrow> (\<forall>ch < hb_next s. subseq (pushed s ch @ map sse_frame (hb_buf s ch))
     (map sse_frame (user_messages (hb_user s ch) (hb_log s))))"

definition hub_inv :: "hub \<Rightarrow> bool" where
  "hub_inv s \<longleftrightarrow> registry_ok s \<and> buffers_ok s \<and> delivery_ok s"

lemma hub_inv_init: "hub_inv hub_init"
  by (simp add: hub_inv_def registry_ok_def buffers_ok_def delivery_ok_def hub_init_def pushed_def channels_def)

lemma broadcast_at:
  assumes "registry_ok s"
  shows "broadcast u m (hb_clients s) (hb_buf s) ch =
    (if hb_live s ch \<and> hb_user s ch = u \<and> length (hb_buf s ch) < client_cap
     then hb_buf s ch @ [m] else hb_buf s ch)"
proof -
  have "broadcast u m (hb_clients s) (hb_buf s) = fold (offer_message m) (channels (hb_clients s) u) (hb_buf s)"
    by (simp add: broadcast_def channels_def)
  moreover have "distinct (channels (hb_clients s) u)"
    "ch \<in> set (channels (hb_clients s) u) \<longleftrightarrow> hb_live s ch \<and> hb_user s ch = u"
    using assms by (simp_all add: registry_ok_def)
  ultimately show ?thesis by (auto simp: fold_offer_in fold_offer_other)
qed

lemma registry_connect:
  assumes "registry_ok s" "buffers_ok s"
  shows "registry_ok (hub_connect u s)"
proof -
  have "\<not> hb_live s (hb_next s)" using assms(2) by (simp add: buffers_ok_def)
  with assms(1) no_empty_entries show ?thesis
    by (auto simp: registry_ok_def hub_connect_def Let_def)
qed

lemma registry_disconnect: "registry_ok s \<Longrightarrow> registry_ok (hub_disconnect ch s)"
  using no_empty_entries by (auto simp: registry_ok_def hub_disconnect_def distinct_removeAll)

lemma subseq_snoc: "subseq xs ys \<Longrightarrow> subseq xs (ys @ [y])" "subseq xs ys \<Longrightarrow> subseq (xs @ [y]) (ys @ [y])"
  using subseq_order.order_trans [OF _ prefix_imp_subseq [of ys "ys @ [y]"]] by auto

lemma user_messages_snoc:
  "user_messages u (l @ [(v, m)]) = user_messages u l @ (if v = u then [m] else [])"
  by (simp add: user_messages_def)

lemma delivery_push:
  assumes "registry_ok s" "delivery_ok s"
  shows "delivery_ok (hub_broadcast u m s)"
  unfolding delivery_ok_def
proof (intro allI impI)
  fix ch assume "ch < hb_next (hub_broadcast u m s)"
  then have "subseq (pushed s ch @ map sse_frame (hb_buf s ch))
      (map sse_frame (user_messages (hb_user s ch) (hb_log s)))"
    using assms(2) by (simp add: delivery_ok_def hub_broadcast_def)
  then show "subseq (pushed (hub_broadcast u m s) ch @ map sse_frame (hb_buf (hub_broadcast u m s) ch))
      (map sse_frame (user_messages (hb_user (hub_broadcast u m s) ch) (hb_log (hub_broadcast u m s))))"
    using subseq_snoc [of "pushed s ch @ map sse_frame (hb_buf s ch)" _ "sse_frame m"]
    by (auto simp: hub_broadcast_def broadcast_at [OF assms(1)] pushed_def user_messages_snoc)
qed

lemma hub_step_inv: "hub_step s t \<Longrightarrow> hub_inv s \<Longrightarrow> hub_inv t"
proof (induction rule: hub_step.induct)
  case (hub_open s u)
  then have "buffers_ok (hub_connect u s)" "delivery_ok (hub_connect u s)"
    by (auto simp: hub_inv_def buffers_ok_def delivery_ok_def hub_connect_def Let_def pushed_def less_Suc_eq)
  with hub_open registry_connect show ?case by (simp add: hub_inv_def)
next
  case (hub_push s u m)
  then have "registry_ok (hub_broadcast u m s)" by (simp add: hub_inv_def registry_ok_def hub_broadcast_def)
  moreover have "buffers_ok (hub_broadcast u m s)"
    using hub_push by (auto simp: hub_inv_def buffers_ok_def hub_broadcast_def broadcast_at)
  ultimately show ?case using hub_push delivery_push by (simp add: hub_inv_def)
next
  case (hub_write s ch m ms)
  then show ?case
    by (auto simp: hub_inv_def registry_ok_def buffers_ok_def delivery_ok_def pushed_def frame_not_keep_alive)
       (metis Suc_leD length_Cons)
next
  case (hub_alive s ch)
  then show ?case
    by (auto simp: hub_inv_def registry_ok_def buffers_ok_def delivery_ok_def pushed_def)
next
  case (hub_lost s ch m ms)
  let ?s = "s\<lparr>hb_buf := (hb_buf s)(ch := ms)\<rparr>"
  have r: "registry_ok ?s" using hub_lost by (simp add: hub_inv_def registry_ok_def)
  have "subseq (pushed s ch @ map sse_frame ms) (pushed s ch @ map sse_frame (m # ms))"
    by (rule list_emb_append_mono) auto
  then have d: "delivery_ok ?s"
    using hub_lost by (auto simp: hub_inv_def delivery_ok_def pushed_def dest: subseq_order.order_trans)
  have b: "buffers_ok ?s" using hub_lost by (auto simp: hub_inv_def buffers_ok_def dest: spec [of _ ch])
  have "buffers_ok (hub_disconnect ch ?s)" "delivery_ok (hub_disconnect ch ?s)"
    using b d by (auto simp: buffers_ok_def delivery_ok_def hub_disconnect_def pushed_def)
  with r registry_disconnect show ?case by (simp add: hub_inv_def)
next
  case (hub_close s ch)
  then have "buffers_ok (hub_disconnect ch s)" "delivery_ok (hub_disconnect ch s)"
    by (auto simp: hub_inv_def buffers_ok_def delivery_ok_def hub_disconnect_def pushed_def)
  with hub_close registry_disconnect show ?case by (simp add: hub_inv_def)
qed

interpretation hub_guarded: guarded_system hub_step hub_inv
  by unfold_locales (rule hub_step_inv)

text \<open>The cache keys of the read-model updater are not those of the initial frames.\<close>

lemma snapshot_keys_differ:
  "TasksKeyPrefix @ u \<noteq> cacheKey u tasksCachePrefix" "SettingsKeyPrefix @ u \<noteq> cacheKey u settingsCachePrefix"
  by (auto simp: TasksKeyPrefix_def SettingsKeyPrefix_def cacheKey_def tasksCachePrefix_def
      settingsCachePrefix_def dest: arg_cong [of _ _ length])

end
