(* ===== verification/Storage_Init.thy ===== *)
theory Storage_Init
  imports Prelude
begin

text \<open>
  The job that prepares the storage account (\<open>storage-init/main.go\<close>). The Azure clients are
  third-party code: \<open>newService\<close> and \<open>newQueue\<close> are arguments, which give for a name the call
  that creates the table or queue. \<open>account\<close> states what the service promises.
\<close>

type_synonym 'w creation = "'w \<Rightarrow> go_error option \<times> 'w"

fun create_tables_loop :: "(string \<Rightarrow> 'w creation) \<Rightarrow> string list \<Rightarrow> 'w creation" where
  "create_tables_loop svc [] w = (None, w)"
| "create_tables_loop svc (name # names) w =
     (if name = '''' then create_tables_loop svc names w
      else
        (case svc name w of
           (None, w1) \<Rightarrow> create_tables_loop svc names w1
         | (Some e, w1) \<Rightarrow>
             (if \<not> has_code ''TableAlreadyExists'' e then (Some e, w1)
              else create_tables_loop svc names w1)))"

definition createTables ::
  "(string \<Rightarrow> go_error + (string \<Rightarrow> 'w creation)) \<Rightarrow> string \<Rightarrow> string list \<Rightarrow> 'w creation" where
  "createTables newService connStr names w =
     (case newService connStr of
        Inl e \<Rightarrow> (Some e, w)
      | Inr svc \<Rightarrow> create_tables_loop svc names w)"

fun createQueues ::
  "(string \<Rightarrow> string \<Rightarrow> go_error + 'w creation) \<Rightarrow> string \<Rightarrow> string list \<Rightarrow> 'w creation" where
  "createQueues newQueue connStr [] w = (None, w)"
| "createQueues newQueue connStr (name # names) w =
     (if name = '''' then createQueues newQueue connStr names w
      else
        (case newQueue connStr name of
           Inl e \<Rightarrow> (Some e, w)
         | Inr create \<Rightarrow>
             (case create w of
                (None, w1) \<Rightarrow> createQueues newQueue connStr names w1
              | (Some e, w1) \<Rightarrow>
                  (if \<not> has_code ''QueueAlreadyExists'' e then (Some e, w1)
                   else createQueues newQueue connStr names w1))))"

text \<open>A call of \<open>log.Fatal\<close> ends the job with an error.\<close>

definition storage_init_main ::
  "(string \<Rightarrow> go_error + (string \<Rightarrow> 'w creation)) \<Rightarrow> (string \<Rightarrow> string \<Rightarrow> go_error + 'w creation) \<Rightarrow>
   environ \<Rightarrow> 'w creation" where
  "storage_init_main newService newQueue env w =
     (let connStr = getenv env ''STORAGE_CONNECTION_STRING'' in
      if connStr = '''' then (Some (ErrText ''missing STORAGE_CONNECTION_STRING''), w)
      else
        (case createTables newService connStr
                (map (getenv env) [''TASK_EVENTS_TABLE'', ''USER_EVENTS_TABLE'', ''TASKS_TABLE'',
                   ''USERS_TABLE'', ''SETTINGS_TABLE'']) w of
           (Some e, w1) \<Rightarrow> (Some e, w1)
         | (None, w1) \<Rightarrow>
             createQueues newQueue connStr (map (getenv env) [''COMMAND_QUEUE'', ''DOMAIN_EVENTS_QUEUE'']) w1))"

section \<open>What the storage service promises\<close>

text \<open>The loop that both functions have in common.\<close>

fun create_loop :: "string \<Rightarrow> (string \<Rightarrow> 'w creation) \<Rightarrow> string list \<Rightarrow> 'w creation" where
  "create_loop code create [] w = (None, w)"
| "create_loop code create (name # names) w =
     (if name = '''' then create_loop code create names w
      else (case create name w of
              (None, w1) \<Rightarrow> create_loop code create names w1
            | (Some e, w1) \<Rightarrow> if \<not> has_code code e then (Some e, w1) else create_loop code create names w1))"

text \<open>\<open>existing\<close> is the set of names that exist. A creation that succeeds makes its name exist, the
  answer that it exists already is true, and no call removes anything.\<close>

locale account =
  fixes create :: "string \<Rightarrow> 'w creation"
    and existing :: "'w \<Rightarrow> string set"
    and code :: string
  assumes created: "create n w = (None, w') \<Longrightarrow> existing w' = insert n (existing w)"
    and exists_already: "create n w = (Some e, w') \<Longrightarrow> has_code code e \<Longrightarrow> n \<in> existing w \<and> existing w' = existing w"
    and failed: "create n w = (Some e, w') \<Longrightarrow> existing w \<subseteq> existing w'"
begin

lemma create_loop_exists:
  "create_loop code create names w = (r, w') \<Longrightarrow>
   existing w \<subseteq> existing w' \<and> (r = None \<longrightarrow> set names - {''''} \<subseteq> existing w')"
proof (induction names arbitrary: w)
  case (Cons n ns)
  show ?case
  proof (cases "n = ''''")
    case True
    with Cons show ?thesis by auto
  next
    case False
    obtain r1 w1 where c: "create n w = (r1, w1)" by fastforce
    show ?thesis
    proof (cases "\<exists>e. r1 = Some e \<and> \<not> has_code code e")
      case True
      then obtain e where e: "r1 = Some e" "\<not> has_code code e" by blast
      with c False Cons.prems have "r = Some e" "w' = w1" by simp_all
      with failed [of n w e w1] c e show ?thesis by simp
    next
      case go_on: False
      have "insert n (existing w) \<subseteq> existing w1"
        using c created [of n w w1] exists_already [of n w _ w1] go_on by (cases r1) auto
      moreover have "create_loop code create ns w1 = (r, w')"
        using Cons.prems False c go_on by (auto split: option.splits)
      ultimately show ?thesis using Cons.IH [of w1] by auto
    qed
  qed
qed simp

end

lemma create_tables_loop_eq: "create_tables_loop svc names w = create_loop ''TableAlreadyExists'' svc names w"
  by (induction names arbitrary: w) (simp_all split: option.split prod.split)

text \<open>For queues the client is made for each name.\<close>

definition queue_creation :: "(string \<Rightarrow> string \<Rightarrow> go_error + 'w creation) \<Rightarrow> string \<Rightarrow> string \<Rightarrow> 'w creation" where
  "queue_creation newQueue connStr name w =
     (case newQueue connStr name of Inl e \<Rightarrow> (Some e, w) | Inr create \<Rightarrow> create w)"

lemma createQueues_eq:
  assumes "\<And>n e. newQueue connStr n = Inl e \<Longrightarrow> \<not> has_code ''QueueAlreadyExists'' e"
  shows "createQueues newQueue connStr names w =
    create_loop ''QueueAlreadyExists'' (queue_creation newQueue connStr) names w"
  by (induction names arbitrary: w)
     (simp_all add: queue_creation_def assms split: option.split sum.split prod.split)

text \<open>Creating queues leaves the tables alone.\<close>

lemma create_loop_keeps:
  assumes "\<And>n w. tables w \<subseteq> tables (snd (create n w))"
  shows "tables w \<subseteq> tables (snd (create_loop code create names w))"
proof (induction names arbitrary: w)
  case (Cons n ns)
  obtain r w1 where c: "create n w = (r, w1)" by fastforce
  with assms [of w n] have "tables w \<subseteq> tables w1" by simp
  with Cons.IH [of w] Cons.IH [of w1] c show ?case by (auto split: option.split)
qed simp

section \<open>A reference account\<close>

text \<open>The names that exist, as a list.\<close>

definition ref_create :: "string \<Rightarrow> string \<Rightarrow> string list creation" where
  "ref_create code n w = (if n \<in> set w then (Some (ResponseError 409 code ''''), w) else (None, n # w))"

interpretation ref_account: account "ref_create code" set code for code
  by unfold_locales (auto simp: ref_create_def split: if_splits)

end
