(* ===== verification/Samples.thy ===== *)
theory Samples
  imports Ref_System Startup Stream_Clients Storage_Init
begin

text \<open>
  Concrete inputs at which the properties of the root theory are applied.
\<close>

definition sample_entry :: cached_tasks where
  "sample_entry = \<lparr>ca_Version = 1, ca_CachedAt = ref_time, ca_LastUpdatedAt = 10, ca_PageSize = 2, ca_CachedPages = 1,
     ca_PageTokens = [''dG9r''], ca_NextPageToken = ''dG9r'', ca_Tasks = [\<lparr>ct_ID = ''t1'', ct_Title = ''Buy milk'',
       ct_Notes = '''', ct_Category = ''home'', ct_Order = 3, ct_Done = False\<rparr>]\<rparr>"

lemma sample_entry_ok: "cached_tasks_ok sample_entry" "\<not> isl (marshal_cached_tasks sample_entry)"
  by code_simp+

section \<open>Two reservations, one after the other\<close>

lemma sample_ts_run:
  "(ts_step 100)\<^sup>*\<^sup>* (ts_init 0 [2, 3]) \<lparr>ts_global = 54, ts_procs = [TsReturned 2 50, TsReturned 3 52]\<rparr>"
proof -
  have 1: "ts_step 100 (ts_init 0 [2, 3]) \<lparr>ts_global = 0, ts_procs = [TsLoaded 2 0 50, TsReady 3]\<rparr>"
    using ts_load [of 0 "ts_init 0 [2, 3]" 2 50 100] by (simp add: ts_init_def in_i64_def range_start_def)
  have 2: "ts_step 100 \<lparr>ts_global = 0, ts_procs = [TsLoaded 2 0 50, TsReady 3]\<rparr>
      \<lparr>ts_global = 51, ts_procs = [TsReturned 2 50, TsReady 3]\<rparr>"
    using ts_swap [of 0 "\<lparr>ts_global = 0, ts_procs = [TsLoaded 2 0 50, TsReady 3]\<rparr>" 2 0 50 100]
    by (simp add: range_end_def i64_def)
  have 3: "ts_step 100 \<lparr>ts_global = 51, ts_procs = [TsReturned 2 50, TsReady 3]\<rparr>
      \<lparr>ts_global = 51, ts_procs = [TsReturned 2 50, TsLoaded 3 51 52]\<rparr>"
    using ts_load [of 1 "\<lparr>ts_global = 51, ts_procs = [TsReturned 2 50, TsReady 3]\<rparr>" 3 50 100]
    by (simp add: in_i64_def range_start_def i64_def)
  have 4: "ts_step 100 \<lparr>ts_global = 51, ts_procs = [TsReturned 2 50, TsLoaded 3 51 52]\<rparr>
      \<lparr>ts_global = 54, ts_procs = [TsReturned 2 50, TsReturned 3 52]\<rparr>"
    using ts_swap [of 1 "\<lparr>ts_global = 51, ts_procs = [TsReturned 2 50, TsLoaded 3 51 52]\<rparr>" 3 51 52 100]
    by (simp add: range_end_def i64_def)
  from 1 2 3 4 show ?thesis by (meson converse_rtranclp_into_rtranclp rtranclp.rtrancl_refl)
qed

section \<open>Two messages and two workers\<close>

definition sample_sent :: eq_state where
  "sample_sent = \<lparr>eq_todo = [], eq_chan = [], eq_closed = True, eq_workers = [EqDone, EqDone], eq_firstErr = None,
     eq_parentErr = None, eq_sent = [''b'', ''a'']\<rparr>"

lemma sample_eq_run: "(eq_step 2)\<^sup>*\<^sup>* (eq_init 2 [''a'', ''b'']) sample_sent"
proof -
  let ?s = "\<lambda>td ch cl ws sent. \<lparr>eq_todo = td, eq_chan = ch, eq_closed = cl, eq_workers = ws, eq_firstErr = None,
     eq_parentErr = None, eq_sent = sent\<rparr>"
  let ?W = "eq_step 2"
  have 1: "?W (?s [''a'', ''b''] [] False [EqIdle, EqIdle] []) (?s [''b''] [''a''] False [EqIdle, EqIdle] [])"
    using eq_offer [of "?s [''a'', ''b''] [] False [EqIdle, EqIdle] []" "''a''" "[''b'']" 2] by simp
  have 2: "?W (?s [''b''] [''a''] False [EqIdle, EqIdle] []) (?s [] [''a'', ''b''] False [EqIdle, EqIdle] [])"
    using eq_offer [of "?s [''b''] [''a''] False [EqIdle, EqIdle] []" "''b''" "[]" 2] by simp
  have 3: "?W (?s [] [''a'', ''b''] False [EqIdle, EqIdle] []) (?s [] [''b''] False [EqSending ''a'', EqIdle] [])"
    using eq_take [of 0 "?s [] [''a'', ''b''] False [EqIdle, EqIdle] []" "''a''" "[''b'']" 2] by simp
  have 4: "?W (?s [] [''b''] False [EqSending ''a'', EqIdle] []) (?s [] [] False [EqSending ''a'', EqSending ''b''] [])"
    using eq_take [of 1 "?s [] [''b''] False [EqSending ''a'', EqIdle] []" "''b''" "[]" 2] by simp
  have 5: "?W (?s [] [] False [EqSending ''a'', EqSending ''b''] []) (?s [] [] False [EqSending ''a'', EqIdle] [''b''])"
    using eq_send_ok [of 1 "?s [] [] False [EqSending ''a'', EqSending ''b''] []" "''b''" 2] by simp
  have 6: "?W (?s [] [] False [EqSending ''a'', EqIdle] [''b'']) (?s [] [] False [EqIdle, EqIdle] [''b'', ''a''])"
    using eq_send_ok [of 0 "?s [] [] False [EqSending ''a'', EqIdle] [''b'']" "''a''" 2] by simp
  have 7: "?W (?s [] [] False [EqIdle, EqIdle] [''b'', ''a'']) (?s [] [] True [EqIdle, EqIdle] [''b'', ''a''])"
    using eq_close [of "?s [] [] False [EqIdle, EqIdle] [''b'', ''a'']" 2] by simp
  have 8: "?W (?s [] [] True [EqIdle, EqIdle] [''b'', ''a'']) (?s [] [] True [EqDone, EqIdle] [''b'', ''a''])"
    using eq_quit_closed [of 0 "?s [] [] True [EqIdle, EqIdle] [''b'', ''a'']" 2] by simp
  have 9: "?W (?s [] [] True [EqDone, EqIdle] [''b'', ''a'']) (?s [] [] True [EqDone, EqDone] [''b'', ''a''])"
    using eq_quit_closed [of 1 "?s [] [] True [EqDone, EqIdle] [''b'', ''a'']" 2] by simp
  have "?W\<^sup>*\<^sup>* (?s [''a'', ''b''] [] False [EqIdle, EqIdle] []) (?s [] [] True [EqDone, EqDone] [''b'', ''a''])"
    using 1 2 3 4 5 6 7 8 9 by (meson converse_rtranclp_into_rtranclp rtranclp.rtrancl_refl)
  then show ?thesis by (simp add: eq_init_def sample_sent_def numeral_2_eq_2)
qed

section \<open>A queue\<close>

text \<open>The messages, and the outcomes of the next calls; a call with no outcome left succeeds.\<close>

definition scripted_queue :: "(string list \<times> go_error option list) command_queue" where
  "scripted_queue =
     \<lparr>cq_EnqueueMessage = (\<lambda>m (ms, outs). case outs of
        [] \<Rightarrow> (None, ms @ [m], [])
      | None # r \<Rightarrow> (None, ms @ [m], r)
      | Some e # r \<Rightarrow> (Some e, ms, r)),
      cq_GetProperties = (\<lambda>w. (None, w))\<rparr>"

interpretation scripted: queue_store scripted_queue fst
  by unfold_locales (auto simp: scripted_queue_def split: list.splits option.splits)

definition sample_command :: command where
  "sample_command = \<lparr>cmd_ID = '''', cmd_IdempotencyKey = '''', cmd_EntityType = ''task'', cmd_Type = ''create-task'',
     cmd_Data = ''{}'', cmd_Timestamp = 0\<rparr>"

definition sample_job :: "string \<Rightarrow> enqueue_job" where
  "sample_job u = \<lparr>ej_userID = u, ej_cmds = [sample_command]\<rparr>"

text \<open>A JSON library for which the text of a command is its key, and a request of two commands.\<close>

definition key_sonic :: sonic where
  "key_sonic = std_sonic (\<lambda>e. Inr (cmd_IdempotencyKey (env_Command e)))"

definition two_commands :: "command list" where
  "two_commands = [sample_command\<lparr>cmd_IdempotencyKey := ''a''\<rparr>, sample_command\<lparr>cmd_IdempotencyKey := ''b''\<rparr>]"

lemma sample_plan: "enqueue_plan key_sonic ref_api ''u1'' two_commands = PlanWorkers 2 [''a'', ''b'']"
  by code_simp

text \<open>A scheduler that always takes some step.\<close>

fun some_run :: "('s \<Rightarrow> 's \<Rightarrow> bool) \<Rightarrow> 's \<Rightarrow> nat \<Rightarrow> 's" where
  "some_run step s 0 = s"
| "some_run step s (Suc i) =
     (if \<exists>u. step (some_run step s i) u then (SOME u. step (some_run step s i) u) else some_run step s i)"

lemma some_run_steps:
  "step (some_run step s i) (some_run step s (Suc i)) \<or>
   (\<nexists>u. step (some_run step s i) u) \<and> some_run step s (Suc i) = some_run step s i"
  by (auto intro: someI)

section \<open>A token library\<close>

text \<open>Claims with their expiry; the only token is \<open>h.c.s\<close>, signed with the key \<open>k\<close>.\<close>

record sample_claims =
  sc_sub :: string
  sc_exp :: int
  sc_aud :: string

definition sample_token :: "sample_claims jwt_token" where
  "sample_token = \<lparr>tk_Method = SigningMethodOther ''RS256'',
     tk_Claims = Some \<lparr>sc_sub = ''u1'', sc_exp = 1000, sc_aud = ''api''\<rparr>\<rparr>"

definition sample_jwt :: "sample_claims jwt_lib" where
  "sample_jwt =
     \<lparr>jw_Parse = (\<lambda>ms key t. if t \<noteq> ''h.c.s'' then Inl (ErrExternal ''malformed'')
        else (case key sample_token of Inl e \<Rightarrow> Inl e
              | Inr k \<Rightarrow> if k = ''k'' then Inr sample_token else Inl (ErrExternal ''signature''))),
      jw_sub = (\<lambda>c. Some (sc_sub c)), jw_VerifyExpiresAt = (\<lambda>c now req. now < sc_exp c),
      jw_VerifyNotBefore = (\<lambda>c now req. True), jw_VerifyIssuedAt = (\<lambda>c now req. True),
      jw_VerifyAudience = (\<lambda>c a req. a = sc_aud c), jw_VerifyIssuer = (\<lambda>c i req. True)\<rparr>"

definition sample_auth :: "sample_claims auth" where
  "sample_auth = \<lparr>au_Keyfunc = (\<lambda>_. Inr ''k''), au_Audience = ''api'', au_Issuer = ''iss'', au_TestMode = False,
     au_TestSecret = ''''\<rparr>"

lemma sample_auth_ok:
  "UserIDFromAuthHeader sample_jwt sample_auth (900 * second) ''Bearer h.c.s'' = Inr ''u1''"
  by code_simp

section \<open>A pool with one worker\<close>

definition sample_pool :: pool_state where
  "sample_pool = (pool_init 1 2)\<lparr>pl_chan := \<lparr>jc_cap = 2, jc_buf = [sample_job ''u2''], jc_closed = False\<rparr>,
     pl_workers := [WorkerBusy (sample_job ''u1'')], pl_accepted := [sample_job ''u1'', sample_job ''u2''],
     pl_started := [sample_job ''u1'']\<rparr>"

lemma sample_pool_run: "pool_step\<^sup>*\<^sup>* (pool_init 1 2) sample_pool"
proof -
  let ?p = "\<lambda>buf ws ac st. \<lparr>pl_chan = \<lparr>jc_cap = 2, jc_buf = buf, jc_closed = False\<rparr>, pl_workers = ws, pl_accepted = ac,
     pl_started = st, pl_finished = []\<rparr>"
  let ?a = "sample_job ''u1''" and ?b = "sample_job ''u2''"
  have 1: "pool_step (?p [] [WorkerIdle] [] []) (?p [?a] [WorkerIdle] [?a] [])"
    using pool_offer [of "?p [] [WorkerIdle] [] []" ?a] by (simp add: trySendNonBlocking_def)
  have 2: "pool_step (?p [?a] [WorkerIdle] [?a] []) (?p [?a, ?b] [WorkerIdle] [?a, ?b] [])"
    using pool_offer [of "?p [?a] [WorkerIdle] [?a] []" ?b] by (simp add: trySendNonBlocking_def)
  have 3: "pool_step (?p [?a, ?b] [WorkerIdle] [?a, ?b] []) (?p [?b] [WorkerBusy ?a] [?a, ?b] [?a])"
    using pool_take [of 0 "?p [?a, ?b] [WorkerIdle] [?a, ?b] []" ?a "[?b]"] by simp
  have "pool_step\<^sup>*\<^sup>* (?p [] [WorkerIdle] [] []) (?p [?b] [WorkerBusy ?a] [?a, ?b] [?a])"
    using 1 2 3 by (meson converse_rtranclp_into_rtranclp rtranclp.rtrancl_refl)
  then show ?thesis by (simp add: pool_init_def sample_pool_def)
qed

section \<open>Requests\<close>

text \<open>The world is the list of replies that have been sent.\<close>

definition sample_ctx :: "string \<Rightarrow> string \<Rightarrow> reply list echo_ctx" where
  "sample_ctx hdr body = \<lparr>ec_Authorization = hdr, ec_QueryParam = (\<lambda>k. if k = ''pageSize'' then ''5'' else ''''),
     ec_Body = body, ec_send = (\<lambda>r w. (None, w @ [r])), ec_Status = (\<lambda>w. if w = [] then 0 else reply_status (last w)),
     ec_Now = (\<lambda>w. (1000, w)), ec_StartSpan = (\<lambda>w. (\<lparr>sc_TraceID = ''t'', sc_SpanID = ''s''\<rparr>, w))\<rparr>"

definition sample_store :: "reply list api_store" where
  "sample_store = \<lparr>if_FetchTasks = (\<lambda>u t n w. (Inr ([], ''next''), w)),
     if_FetchSettings = (\<lambda>u w. (Inl (ErrExternal ''none''), w)), if_EnqueueCommands = (\<lambda>u cs w. (None, w))\<rparr>"

definition sample_authn :: "'w authenticator" where
  "sample_authn hdr w = (UserIDFromAuthHeader sample_jwt sample_auth (900 * second) hdr, w)"

lemma sample_authn_ok: "sample_authn ''Bearer h.c.s'' w = (Inr ''u1'', w)"
  using sample_auth_ok by (simp add: sample_authn_def)

lemma sample_authn_missing: "sample_authn '''' w = (Inl (ErrText ''missing authorization header''), w)"
  by (simp add: sample_authn_def UserIDFromAuthHeader_def header_token_def)

lemma sample_ctx_passive: "passive_clock (sample_ctx h b)"
  by (simp add: passive_clock_def sample_ctx_def)

definition sample_pkg :: api_pkg where
  "sample_pkg = \<lparr>pk_lastTimestamp = 5, pk_jobs = Some \<lparr>jc_cap = 2, jc_buf = [], jc_closed = False\<rparr>, pk_handoffTimeout = 0\<rparr>"

section \<open>Configuration\<close>

definition sample_env :: "string \<Rightarrow> environ" where
  "sample_env pageSize = map_of [(''STORAGE_CONNECTION_STRING'', ''conn''), (''TASKS_TABLE'', ''tasks''),
     (''USERS_TABLE'', ''users''), (''SETTINGS_TABLE'', ''settings''), (''COMMAND_QUEUE'', ''commands''),
     (''DOMAIN_EVENTS_QUEUE'', ''events''), (''TASKS_PAGE_SIZE'', pageSize), (''REDIS_CONNECTION_STRING'', ''redis:6379''),
     (''TASK_UPDATES_CHANNEL'', ''t''), (''SETTINGS_UPDATES_CHANNEL'', ''s''), (''PORT'', ''80'')]"

definition no_url :: "string \<Rightarrow> go_error + redis_options" where
  "no_url s = Inl (ErrExternal ''no URL'')"

definition sample_service :: "string \<Rightarrow> retry_options \<Rightarrow> go_error + (string \<Rightarrow> ref_world table_client)" where
  "sample_service cs ro = Inr (\<lambda>n. st_taskTable ref_storage)"

definition sample_queues :: "string \<Rightarrow> string \<Rightarrow> retry_options \<Rightarrow> go_error + ref_world command_queue" where
  "sample_queues cs n ro = Inr ref_command_queue"

definition sample_event_queues :: "string \<Rightarrow> string \<Rightarrow> retry_options \<Rightarrow> go_error + ref_world event_queue" where
  "sample_event_queues cs n ro = Inr ref_queue"

definition no_float :: "int \<Rightarrow> nat \<Rightarrow> int \<Rightarrow> int" where
  "no_float f k u = 0"

lemma sample_configs:
  "map_sum id ap_taskPageSize (api_config_of no_url 4 (sample_env ''25'')) = Inr 25"
  "map_sum id ap_taskPageSize (api_config_of no_url 4 (sample_env ''2000'')) = Inr 2000"
  "\<not> isl (rmu_main no_float no_url sample_event_queues sample_service (sample_env ''25''))"
  "\<not> isl (rmu_main no_float no_url sample_event_queues sample_service (sample_env ''2000''))"
  by code_simp+

lemma sample_storage:
  "0 < ap_taskPageSize cfg \<Longrightarrow> \<exists>s. api_storage_of (\<lambda>_. ref_rc) sample_service sample_queues cfg = Inr s"
  by (simp add: api_storage_of_def New_api_def sample_service_def sample_queues_def Let_def)

text \<open>A complete environment, with the key set of the sample token.\<close>

definition sample_auth_env :: environ where
  "sample_auth_env = (sample_env ''25'')(''AUTH0_AUDIENCE'' \<mapsto> ''api'', ''AUTH0_DOMAIN'' \<mapsto> ''auth'')"

definition sample_jwks :: "string \<Rightarrow> go_error + (sample_claims jwt_token \<Rightarrow> go_error + string)" where
  "sample_jwks url = Inr (\<lambda>_. Inr ''k'')"

definition sample_logger :: logger where
  "sample_logger = \<lparr>lo_Formatter = TextFormatter, lo_Output = Stderr, lo_Level = InfoLevel\<rparr>"

definition sample_start :: "(go_error + (ref_world, sample_claims) api_service) \<times> ref_world" where
  "sample_start = api_main sample_sonic no_float sample_logger sample_logger no_url (\<lambda>_. ref_rc) sample_service
     sample_queues sample_jwks 4 sample_auth_env empty_world"

lemma sample_start_ok: "\<not> isl (fst sample_start)"
  by code_simp

lemma sample_started: obtains svc w' where "sample_start = (Inr svc, w')"
  using that [of "projr (fst sample_start)" "snd sample_start"] sample_start_ok by (simp add: prod_eq_iff)

lemma sample_start_accepts:
  "(case fst sample_start of Inl e \<Rightarrow> Inl e
    | Inr svc \<Rightarrow> UserIDFromAuthHeader sample_jwt (as_Auth svc) (900 * second) ''Bearer h.c.s'') = Inr ''u1''"
  by code_simp

definition sample_stream_start ::
  "go_error + redis_options \<times> sample_claims stream_auth \<times> (unit \<Rightarrow> unit) list \<times> stream_route web_server" where
  "sample_stream_start = stream_main no_url sample_jwks (\<lambda>u m w. w) (\<lambda>c. []) sample_auth_env"

lemma sample_stream_start_ok: "\<not> isl sample_stream_start"
  by code_simp

lemma sample_stream_started: obtains ro a subs srv where "sample_stream_start = Inr (ro, a, subs, srv)"
  using that [of "fst (projr sample_stream_start)"] sample_stream_start_ok by (metis prod.collapse sum.collapse(2))

section \<open>Streams\<close>

text \<open>The task of the created event, which is completed later.\<close>

definition sample_task :: task_entity where
  "sample_task = \<lparr>te_PartitionKey = ''u1'', te_RowKey = ''t1'', te_Title = ''Buy milk'', te_Notes = '''', te_Category = '''',
     te_Order = 3, te_Done = False, te_EventTimestamp = 10, te_ETag = ''''\<rparr>"

lemma sample_effects: "task_effect sample_created None = Inr sample_task"
  "\<exists>e. task_effect sample_completed (Some sample_task) = Inr e"
proof -
  show "task_effect sample_created None = Inr sample_task" by code_simp
  have "\<not> isl (task_effect sample_completed (Some sample_task))" by code_simp
  then show "\<exists>e. task_effect sample_completed (Some sample_task) = Inr e"
    by (cases "task_effect sample_completed (Some sample_task)") auto
qed

text \<open>One connection that has written one update.\<close>

definition sample_hub :: hub where
  "sample_hub =
     (let s = hub_broadcast ''u1'' ''m'' (hub_connect ''u1'' hub_init)
      in s\<lparr>hb_buf := (hb_buf s)(0 := []), hb_out := (hb_out s)(0 := hb_out s 0 @ [sse_frame ''m''])\<rparr>)"

lemma sample_hub_run: "hub_step\<^sup>*\<^sup>* hub_init sample_hub"
proof -
  let ?s = "hub_broadcast ''u1'' ''m'' (hub_connect ''u1'' hub_init)"
  have "hb_buf ?s 0 = [''m'']" "hb_live ?s 0"
    by (simp_all add: hub_broadcast_def hub_connect_def hub_init_def broadcast_def addClient_def List.insert_def
        client_cap_def Let_def)
  from hub_write [OF this(2,1)] have "hub_step ?s sample_hub" by (simp add: sample_hub_def Let_def)
  moreover have "hub_step hub_init (hub_connect ''u1'' hub_init)" "hub_step (hub_connect ''u1'' hub_init) ?s"
    by (rule hub_open, rule hub_push)
  ultimately show ?thesis by (meson converse_rtranclp_into_rtranclp rtranclp.rtrancl_refl)
qed

section \<open>A storage account\<close>

text \<open>The tables and the queues that exist.\<close>

definition account_table :: "string \<Rightarrow> (string list \<times> string list) creation" where
  "account_table n w = (case ref_create ''TableAlreadyExists'' n (fst w) of (r, t) \<Rightarrow> (r, t, snd w))"

definition account_queue :: "string \<Rightarrow> (string list \<times> string list) creation" where
  "account_queue n w = (case ref_create ''QueueAlreadyExists'' n (snd w) of (r, q) \<Rightarrow> (r, fst w, q))"

lemma account_queue_creation: "queue_creation (\<lambda>c n. Inr (account_queue n)) conn = account_queue"
  by (rule ext)+ (simp add: queue_creation_def)

interpretation account_tables: account account_table "\<lambda>w. set (fst w)" "''TableAlreadyExists''"
  by unfold_locales (auto simp: account_table_def ref_create_def split: if_splits)

interpretation account_queues: account account_queue "\<lambda>w. set (snd w)" "''QueueAlreadyExists''"
  by unfold_locales (auto simp: account_queue_def ref_create_def split: if_splits)

end
