(* ===== verification/Spec2Isabelle.thy ===== *)
theory Spec2Isabelle
  imports Samples
begin

text \<open>
  Verification of prism-plan's Go services. prism-plan is a task planner built on event sourcing:
  a browser sends commands to prism-api, which puts them into a queue; domain-service turns them into
  domain events; read-model-updater applies the events to the tables of the read model, refreshes
  the cached pages in Redis and publishes the event; stream-service pushes what is published to the
  open browsers; prism-api answers reads from Redis or from the tables. storage-init creates the
  tables and queues. The Go services are modelled here, with the concurrency inside and between them.

  \<^bold>\<open>How the model is built.\<close> Every Go function is a HOL function of the same name on values of the
  same shape: structs are records, errors are values of \<open>go_error\<close> in a sum, strings are byte lists,
  integers are \<open>int\<close> with the wrap-around written out (\<open>i64\<close>, \<open>i32\<close>, \<open>u32\<close>). What acts on the outside
  is passed the world \<open>'w\<close> and returns it. Azure tables and queues, Redis, the token library, the
  JSON library \<open>sonic\<close>, the web framework, the tracing library, the clock and the float arithmetic of
  durations are arguments; what is assumed of them is stated as locales, each interpreted on a
  reference implementation, which is also the world of the witnesses. \<open>encoding/json\<close>, \<open>strconv\<close>,
  \<open>strings\<close>, \<open>time\<close> and \<open>encoding/base64\<close> belong to the standard library and are defined.

  \<^bold>\<open>Go's standard library.\<close>
  \<^item> \<open>Prelude\<close>: errors, integers at their width, environments, shared lemmas and fact collections.
  \<^item> \<open>Go_Text\<close>: \<open>strings\<close> and \<open>strconv\<close>. \<open>Go_Duration\<close>: \<open>time.ParseDuration\<close>. \<open>Go_Time\<close>,
    \<open>Go_Time_Format\<close>: RFC 3339 times, read and written.
  \<^item> \<open>Go_Json\<close>, \<open>Go_Json_Facts\<close>, \<open>Go_Json_Struct\<close>: JSON texts, printing and parsing, and how structs
    are filled. The parser takes the length of the text as fuel, which \<open>json_fuel_enough\<close> shows to
    suffice; printing and parsing are inverse (\<open>json_parse_print\<close>).

  \<^bold>\<open>read-model-updater.\<close>
  \<^item> \<open>Rmu_Domain\<close> (\<open>domain/events.go\<close>, \<open>entities.go\<close>, \<open>errors.go\<close>): events, entities, their JSON.
  \<^item> \<open>Table_Client\<close>, \<open>Redis_Client\<close>, \<open>Table_Listing\<close>: the clients, and the documented behaviour as the
    locales \<open>azure_table\<close>, \<open>redis_store\<close> and \<open>azure_listing\<close>.
  \<^item> \<open>Rmu_Storage\<close> (\<open>storage/storage.go\<close>): every operation of \<open>Storage\<close>. \<open>Task_Store\<close> states the
    interface \<open>TaskStorage\<close> as the locale \<open>task_store\<close> and shows that the operations keep it over Azure
    tables.
  \<^item> \<open>Task_Service\<close> (\<open>domain/task_service.go\<close>): \<open>task_Apply\<close>, with its retry loops as partial functions,
    and the specification \<open>task_effect\<close>. \<open>User_Service\<close> (\<open>domain/user_service.go\<close>): \<open>user_Apply\<close> and
    \<open>settings_effect\<close>.
  \<^item> \<open>Task_Concurrency\<close>, \<open>Settings_Concurrency\<close>: both services cut at their calls of the storage and
    interleaved. Task handlers are serialisable and their loops end within \<open>2 n (n + 1)\<close> steps for \<open>n\<close>
    handlers: each write makes at most every other handler try once more. Settings handlers can
    overwrite each other.
  \<^item> \<open>Continuation_Token\<close>, \<open>Cache_Updater\<close> (\<open>cache.go\<close>), \<open>Cache_Pages\<close>: the cache entries. \<open>page_source\<close>
    is the interface \<open>cacheStore\<close>.
  \<^item> \<open>Rmu_Processor\<close> (\<open>domain/orchestrator.go\<close>, \<open>processor.go\<close>, the handler of \<open>main.go\<close>).

  \<^bold>\<open>prism-api.\<close>
  \<^item> \<open>Api_Storage\<close> (\<open>storage/storage.go\<close>, \<open>domain\<close>), \<open>Api_Json\<close>: reading through the cache or from the
    tables. \<open>Api_Enqueue\<close>: \<open>EnqueueCommands\<close>, with its workers as the step relation \<open>eq_step\<close>; it takes
    at most \<open>4 k + n + 2\<close> steps for \<open>k\<close> messages and \<open>n\<close> workers.
  \<^item> \<open>Api_Timestamps\<close> (\<open>api/utils.go\<close>, \<open>finalizeCommands\<close>): the compare-and-swap loop of \<open>k\<close> goroutines
    is \<open>ts_step\<close> and takes at most \<open>(2 k + 4) k\<close> steps.
  \<^item> \<open>Api_Pool\<close> (\<open>api/pool.go\<close>): sizes, channel, timers, and the workers as \<open>pool_step\<close>.
  \<^item> \<open>Api_Handlers\<close> (\<open>api/handlers.go\<close>, \<open>types.go\<close>, \<open>protocol.go\<close>), \<open>Api_Metrics\<close> (\<open>api/metrics.go\<close>),
    \<open>Auth\<close> (\<open>api/auth.go\<close> of both services).

  \<^bold>\<open>stream-service.\<close>
  \<^item> \<open>Stream_Updates\<close> (\<open>domain\<close>): from a published event to the payload. \<open>Stream_Clients\<close>
    (\<open>api/handlers.go\<close>): the registry, \<open>broadcast\<close> and the connections, together \<open>hub_step\<close>.

  \<^bold>\<open>All services.\<close>
  \<^item> \<open>Startup\<close> (the three \<open>main.go\<close>): configuration, clients, authenticator, routes and servers.
    \<open>Storage_Init\<close> (\<open>storage-init/main.go\<close>).
  \<^item> \<open>Step_Systems\<close>: the locales \<open>guarded_system\<close>, \<open>terminating_system\<close> and \<open>live_system\<close>, of which every
    step relation above is an interpretation or a sublocale.
  \<^item> \<open>Cache_Transparency\<close>: updater and API over one table and one Redis (\<open>read_model\<close>).
    \<open>Updater_System\<close>: requests, reads and evictions in any order (\<open>updater_world\<close>, \<open>sys_step\<close>).
  \<^item> \<open>Ref_World\<close>, \<open>Ref_Read_Model\<close>, \<open>Ref_System\<close>, \<open>Samples\<close>: the reference world, the interpretations
    of the locales in it, and the inputs of the witnesses.

  \<^bold>\<open>What is shown.\<close> Properties C1 to C10 are about the updater and its concurrency, with the tables
  and the reads of the API; C11 to C14 about the cache; C15 to C21 about the commands of a request;
  C22 to C26 about the sender; C27 to C32 about authentication, metrics and handlers; C33 to C36 about
  the stream; C37 to C40 about the start of the services. The last section holds further facts.

  \<^bold>\<open>Bounds of the model.\<close> In \<open>sys_step\<close> a request with an event is handled in one step; the
  interleavings within a handler are those of \<open>conc_step\<close> and of \<open>Settings_Concurrency\<close>. The laws of
  the listing are for user ids without quotes, because the services put them into filters
  unescaped. Contexts are modelled where they decide something (\<open>EnqueueCommands\<close>); log lines are not,
  except those of \<open>Api_Metrics\<close>.

  \<^bold>\<open>Not modelled.\<close> What middleware, profiler, router and loggers do (third-party code; which of them
  \<open>main\<close> installs is in \<open>Startup\<close>); domain-service (C#), frontend and mobile client (TypeScript) and
  maintenance (Python), which are not written in Go; the programs under \<open>tests\<close>, which drive the
  services from outside.
\<close>

section \<open>Applying events to the read model\<close>





text \<open>C3. When the same event is delivered to several handlers, at the same time or one after the other
  with other events in between, at most one of them succeeds: the others report an error and change
  nothing.\<close>

theorem concurrent_delivery_once:
  assumes "azure_table (st_taskTable st) tbl issued tinv" "tinv w" "task_table_ok (tbl w)"
    and "\<forall>ev \<in> set evs. event_ok ev"
    and "(conc_step (as_task_storage st) evs)\<^sup>*\<^sup>* (conc_init w evs) (w', pcs, log)"
    and "i < length evs" "j < length evs" "i \<noteq> j" "evs ! i = evs ! j"
  shows "pcs ! i \<noteq> TpDone None \<or> pcs ! j \<noteq> TpDone None"
  using versioned_task_store.concurrent_once [OF azure_versioned [OF assms(1)] _ assms(4)] assms(2,3,5-)
  unfolding as_task_storage_def by blast

theorem concurrent_delivery_once_witness:
  "(fst (snd sample_twice)) ! 1 = TpDone None \<and> (fst (snd sample_twice)) ! 0 \<noteq> TpDone None"
proof -
  obtain w' pcs log where s: "sample_twice = (w', pcs, log)" by (cases sample_twice)
  have "(conc_step (as_task_storage ref_storage) [sample_completed, sample_completed])\<^sup>*\<^sup>*
      (conc_init applied_world [sample_completed, sample_completed]) (w', pcs, log)"
    unfolding s [symmetric] sample_twice_def by (rule conc_run_steps)
  from concurrent_delivery_once [OF ref_tasks.azure applied_world_ok _ this, of 0 1] sample_twice_end show ?thesis
    by (auto simp: s map_eq_Cons_conv)
qed

text \<open>C4. The retry loops end: with \<open>n\<close> concurrent handlers an execution has at most \<open>2 n (n + 1)\<close> steps,
  whatever the order, and it only stops when all handlers have returned.\<close>

theorem retry_loops_end:
  assumes "azure_table (st_taskTable st) tbl issued tinv" "tinv w" "task_table_ok (tbl w)"
    and "\<forall>ev \<in> set evs. event_ok ev"
    and "(conc_step (as_task_storage st) evs ^^ k) (conc_init w evs) s"
  shows "k \<le> 2 * length evs * (length evs + 1) \<and>
    ((\<nexists>t. conc_step (as_task_storage st) evs s t) \<longrightarrow> all_returned s)"
  using versioned_task_store.concurrent_bound [OF azure_versioned [OF assms(1)] _ assms(4)] assms(2,3,5)
  unfolding as_task_storage_def by blast

theorem retry_loops_end_witness:
  "\<exists>k \<le> 12. (conc_step (as_task_storage ref_storage) [sample_late, sample_reopened] ^^ k)
     (conc_init applied_world [sample_late, sample_reopened]) sample_race"
proof -
  obtain k where k: "(conc_step (as_task_storage ref_storage) [sample_late, sample_reopened] ^^ k)
      (conc_init applied_world [sample_late, sample_reopened]) sample_race"
    using conc_run_steps rtranclp_imp_relpowp unfolding sample_race_def by fast
  from retry_loops_end [OF ref_tasks.azure applied_world_ok _ k] k show ?thesis by (intro exI [of _ k]) simp
qed




text \<open>C7. Settings are merged without an ETag, so the staleness check does not hold against concurrent
  handlers: when the handlers of an older event \<open>a\<close> and of a newer event \<open>b\<close> for the same settings
  both read before they write, and \<open>a\<close> writes last, both succeed, the values of \<open>a\<close> replace those of
  \<open>b\<close>, and the stored timestamp is that of \<open>a\<close>.\<close>

theorem settings_update_race:
  assumes "settings_table st tbl issued tinv" "tinv w" "settings_table_ok (tbl w)" "event_ok a" "event_ok b"
    and "ev_EntityID a = ev_EntityID b" "ev_Timestamp a < ev_Timestamp b"
    and "user_step (as_user_storage st) a UpStart w = (UpUpdate ua, w1)"
    and "user_step (as_user_storage st) b UpStart w1 = (UpUpdate ub, w2)"
    and "user_step (as_user_storage st) b (UpUpdate ub) w2 = (UpDone None, w3)"
    and "user_step (as_user_storage st) a (UpUpdate ua) w3 = (UpDone None, w4)"
  shows "\<exists>s. settings_view (tbl w4) (ev_EntityID b) = Some s \<and> se_EventTimestamp s < ev_Timestamp b \<and>
    (\<exists>s0. settings_view (tbl w) (ev_EntityID b) = Some s0 \<and> s = merge_settings ua (merge_settings ub s0))"
  using settings_store.update_race [OF settings_table.is_settings_store [OF assms(1)] _ assms(4-6)] assms(2,3,6-)
  unfolding as_user_storage_def by fastforce

theorem settings_update_race_witness:
  "\<exists>s. settings_view (rt_tbl (rw_settings settings_race_world)) ''u1'' = Some s \<and> se_EventTimestamp s < 30"
proof -
  have "ev_EntityID sample_settings_a = ev_EntityID sample_settings_b" "ev_EntityID sample_settings_b = ''u1''"
    "ev_Timestamp sample_settings_a < ev_Timestamp sample_settings_b" "ev_Timestamp sample_settings_b = 30"
    by (simp_all add: sample_settings_a_def sample_settings_b_def sample_settings_def)
  moreover obtain ua ub w1 w2 w3 where run:
    "user_step (as_user_storage ref_storage) sample_settings_a UpStart settings_world = (UpUpdate ua, w1)"
    "user_step (as_user_storage ref_storage) sample_settings_b UpStart w1 = (UpUpdate ub, w2)"
    "user_step (as_user_storage ref_storage) sample_settings_b (UpUpdate ub) w2 = (UpDone None, w3)"
    "user_step (as_user_storage ref_storage) sample_settings_a (UpUpdate ua) w3 = (UpDone None, settings_race_world)"
    by (rule settings_race_run)
  ultimately show ?thesis
    using settings_update_race [OF ref_settings.settings_table_axioms settings_world_ok _ _ _ _ run] by auto
qed

section \<open>The read path\<close>









text \<open>C12. Reading through the cache equals reading the table: when the cache entry of a user is fresh,
  every page that \<open>FetchTasks\<close> returns, from the cache or not, with or without a token, is the page of
  the table at the position that the token stands for.\<close>

theorem FetchTasks_cache_transparent:
  assumes "read_model st tbl issued tinv lister rc kv now"
    and "tinv w" "task_table_ok (tbl w)" "CHR 0x27 \<notin> set user" "sonic_std sn" "api_uses st rc api n"
    and "fresh_entry (lister w) (kv w) user n" "FetchTasks sn api user token limit w = (Inr res, w')"
  shows "\<exists>pos. decodeContinuationToken (sn_token sn) token = Inr pos \<and>
    res = table_page (lister w) user (resolveTaskPageSize limit (int n)) pos"
  using read_model.FetchTasks_exact [OF assms(1-6) _ assms(8)] assms(7) by simp

theorem FetchTasks_cache_transparent_witness:
  "\<exists>pos. decodeContinuationToken (sn_token sample_sonic) '''' = Inr pos \<and>
    ([\<lparr>at_ID = ''t1'', at_Title = ''Buy milk'', at_Notes = '''', at_Category = '''', at_Order = 3, at_Done = False\<rparr>], '''')
      = table_page (rt_lister (rw_tasks sample_world)) ''u1'' (resolveTaskPageSize 0 2) pos"
proof -
  have "FetchTasks sample_sonic ref_api ''u1'' '''' 0 sample_world = (Inr ([\<lparr>at_ID = ''t1'', at_Title = ''Buy milk'',
      at_Notes = '''', at_Category = '''', at_Order = 3, at_Done = False\<rparr>], ''''),
      snd (FetchTasks sample_sonic ref_api ''u1'' '''' 0 sample_world))"
    using sample_fetch by (simp add: prod_eq_iff)
  moreover have "CHR 0x27 \<notin> set ''u1''" "sonic_std sample_sonic" by (simp_all add: sample_sonic_def std_sonic_std)
  ultimately show ?thesis
    using FetchTasks_cache_transparent [OF ref_read.read_model_axioms sample_world_fresh(1,2) _ _ ref_api_ok
        sample_world_fresh(3), of sample_sonic "''''" 0] by auto
qed

text \<open>C13. A cached page of tasks that the updater writes is read back by the API as the same tasks, page
  size and tokens.\<close>

theorem cached_tasks_roundtrip:
  assumes "cached_tasks_ok c" "marshal_cached_tasks c = Inr t" "sonic_std sn"
  shows "\<exists>at. sn_cached_tasks sn t = Inr (api_of_entry c at)"
  using cached_tasks_read_back [OF assms] .

theorem cached_tasks_roundtrip_witness:
  "\<exists>t at. marshal_cached_tasks sample_entry = Inr t \<and> sn_cached_tasks sample_sonic t = Inr (api_of_entry sample_entry at)"
proof -
  obtain t where t: "marshal_cached_tasks sample_entry = Inr t"
    using sample_entry_ok(2) by (cases "marshal_cached_tasks sample_entry") auto
  from cached_tasks_roundtrip [OF sample_entry_ok(1) t, of sample_sonic] t std_sonic_std
  show ?thesis by (auto simp: sample_sonic_def)
qed

text \<open>C14. A continuation token that the storage hands out is decoded to the position it was made from.\<close>

theorem continuation_token_roundtrip:
  assumes "pk \<noteq> ''''" "rk \<noteq> ''''" "int (length pk) < 2 ^ 32" "int (length rk) < 2 ^ 32"
  shows "\<exists>t. encodeContinuationToken (Some pk) (Some rk) = Inr t \<and> t \<noteq> '''' \<and>
    decodeContinuationToken sonic_ct t = Inr (Some pk, Some rk)"
  by (rule decode_encode_token) (use assms in simp_all)

theorem continuation_token_roundtrip_witness:
  "\<exists>t. encodeContinuationToken (Some ''u1'') (Some ''t1'') = Inr t \<and> t \<noteq> '''' \<and>
    decodeContinuationToken (\<lambda>_. Inl ErrJson) t = Inr (Some ''u1'', Some ''t1'')"
  using continuation_token_roundtrip [of "''u1''" "''t1''" "\<lambda>_. Inl ErrJson"] by simp

section \<open>Accepting commands\<close>

text \<open>C15. Any number of goroutines may reserve timestamps at the same time; in every reachable state
  the ranges that have been returned are pairwise disjoint.\<close>

theorem timestamp_ranges_disjoint:
  assumes "(ts_step C)\<^sup>*\<^sup>* (ts_init g ns) s" "\<forall>n \<in> set ns. 1 \<le> n" "- (2 ^ 63) \<le> g" "g \<le> C"
    "C + sum_list ns < 2 ^ 63"
    and "i < length (ts_procs s)" "j < length (ts_procs s)" "i \<noteq> j"
    and "ts_procs s ! i = TsReturned n x" "ts_procs s ! j = TsReturned m y"
  shows "x + n \<le> y \<or> y + m \<le> x"
  using ts_live.reach_inv [OF assms(1) ts_ok_init [OF assms(2-5)]] assms(6-)
  by (auto simp: ts_ok_def disjoint_ranges_def)

theorem timestamp_ranges_disjoint_witness:
  "(ts_step 100)\<^sup>*\<^sup>* (ts_init 0 [2, 3]) \<lparr>ts_global = 54, ts_procs = [TsReturned 2 50, TsReturned 3 52]\<rparr> \<and>
   ((50 :: int) + 2 \<le> 52 \<or> (52 :: int) + 3 \<le> 50)"
  using timestamp_ranges_disjoint [OF sample_ts_run, of 0 1 2 50 3 52] sample_ts_run by simp

text \<open>C16. Every goroutine that reserves timestamps returns: an execution with \<open>k\<close> goroutines has at most
  \<open>(2 k + 4) k\<close> steps, and it can only stop when all of them have returned.\<close>

theorem timestamp_loop_terminates:
  assumes "\<forall>n \<in> set ns. 1 \<le> n" "- (2 ^ 63) \<le> g" "g \<le> C" "C + sum_list ns < 2 ^ 63"
    and "(ts_step C ^^ k) (ts_init g ns) s"
  shows "k \<le> (2 * length ns + 4) * length ns \<and> ((\<nexists>t. ts_step C s t) \<longrightarrow> ts_final s)"
  using ts_live.run_bound [OF assms(5)] ts_live.stuck_final [OF ts_ok_init [OF assms(1-4)]]
    relpowp_imp_rtranclp [OF assms(5)] ts_measure_init [of g ns]
  by auto

theorem timestamp_loop_terminates_witness:
  "\<exists>k. (ts_step 100 ^^ k) (ts_init 0 [2, 3]) \<lparr>ts_global = 54, ts_procs = [TsReturned 2 50, TsReturned 3 52]\<rparr> \<and> k \<le> 16"
proof -
  obtain k where k: "(ts_step 100 ^^ k) (ts_init 0 [2, 3]) \<lparr>ts_global = 54, ts_procs = [TsReturned 2 50, TsReturned 3 52]\<rparr>"
    using sample_ts_run rtranclp_imp_relpowp by fast
  with timestamp_loop_terminates [OF _ _ _ _ k] show ?thesis by (intro exI [of _ k]) simp
qed

text \<open>C17. The commands of a request get consecutive timestamps above the last one handed out; every
  command carries its idempotency key as its id, keeps a key that it came with, and the keys that
  are made for it are pairwise different.\<close>

theorem finalizeCommands_correct:
  assumes "finalizeCommands (\<lambda>n. nextTimestampRange n now) cmds lst = ((cs, keys), lst')" "cmds \<noteq> []"
    and "in_i64 now" "in_i64 lst" "max now (lst + 1) + int (length cmds) < 2 ^ 63"
  shows "\<exists>start > lst. length cs = length cmds \<and> length keys = length cmds \<and> lst' = start + int (length cmds) - 1 \<and>
    (\<forall>k < length cmds. cmd_Timestamp (cs ! k) = start + int k \<and> cmd_ID (cs ! k) = keys ! k \<and>
       cmd_IdempotencyKey (cs ! k) = keys ! k \<and> keys ! k \<noteq> '''' \<and>
       (cmd_IdempotencyKey (cmds ! k) \<noteq> '''' \<longrightarrow> keys ! k = cmd_IdempotencyKey (cmds ! k)) \<and>
       (\<forall>j < length cmds. j \<noteq> k \<and> cmd_IdempotencyKey (cmds ! j) = '''' \<and> cmd_IdempotencyKey (cmds ! k) = '''' \<longrightarrow>
          keys ! j \<noteq> keys ! k))"
proof -
  let ?start = "range_start now lst"
  have lst1: "lst + 1 < 2 ^ 63" using assms(2,5) by (cases cmds) auto
  note start = range_start_bounds [OF assms(3) order_refl _ lst1]
  have n: "1 \<le> int (length cmds)" using assms(2) by (cases cmds) auto
  have up: "?start + int (length cmds) - 1 < 2 ^ 63" using start(2) assms(4,5) by (simp add: in_i64_def)
  have res: "nextTimestampRange (int (length cmds)) now lst = (?start, ?start + int (length cmds) - 1)"
    using n range_end_exact [OF n start(3) up] assms(2,4) by (simp add: nextTimestampRange_def Let_def in_i64_def)
  note fin = finalizeCommands_nth [OF assms(1,2) res start(3) up]
  have i: "in_i64 lst" "- (2 ^ 63) \<le> lst" using assms(4) by (simp_all add: in_i64_def)
  show ?thesis
    by (intro exI [of _ ?start])
       (use fin start i generated_keys_distinct in \<open>auto simp: applyCommandMetadata_def Let_def\<close>)
qed

theorem finalizeCommands_correct_witness:
  "\<exists>cs keys lst'. finalizeCommands (\<lambda>n. nextTimestampRange n 1000) [sample_command, sample_command] 5 = ((cs, keys), lst') \<and>
     length keys = 2 \<and> keys ! 0 \<noteq> keys ! 1"
proof -
  obtain cs keys lst' where f: "finalizeCommands (\<lambda>n. nextTimestampRange n 1000) [sample_command, sample_command] 5
      = ((cs, keys), lst')" by (metis surj_pair)
  from finalizeCommands_correct [OF f] have "length keys = 2 \<and> keys ! 0 \<noteq> keys ! 1"
    by (auto simp: in_i64_def sample_command_def)
  with f show ?thesis by blast
qed

text \<open>C18. When \<open>EnqueueCommands\<close> with its workers returns no error, the queue has received every
  message exactly once; when it returns an error, no message has been sent more often than the
  request contains it.\<close>

theorem enqueue_exactly_once:
  assumes "enqueue_plan sn s userID cmds = PlanWorkers n payloads"
    and "(eq_step n)\<^sup>*\<^sup>* (eq_init n payloads) t" "eq_final t"
  shows "mset (eq_sent t) \<subseteq># mset payloads \<and> (eq_result t = None \<longrightarrow> mset (eq_sent t) = mset payloads)"
proof -
  have "0 < n" using enqueue_plan_workers [OF assms(1)] by simp
  then have "eq_ok n payloads t" using eq_live.reach_inv [OF assms(2)] eq_ok_init by blast
  with assms(3) eq_final_none eq_sent_sub show ?thesis by (auto simp: eq_ok_def)
qed

theorem enqueue_exactly_once_witness:
  "(eq_step 2)\<^sup>*\<^sup>* (eq_init 2 [''a'', ''b'']) sample_sent \<and> mset (eq_sent sample_sent) = mset [''a'', ''b'']"
  using enqueue_exactly_once [OF sample_plan sample_eq_run] sample_eq_run
  by (simp add: sample_sent_def eq_final_def eq_result_def)

text \<open>C19. \<open>EnqueueCommands\<close> with its workers returns: whatever the scheduler, the outcomes of the
  calls and the cancellation of the request, an execution that goes on as long as it can ends after
  at most \<open>4 k + n + 2\<close> steps, for \<open>k\<close> messages and \<open>n\<close> workers, with the channel closed and all
  workers done.\<close>

theorem enqueue_returns:
  assumes "enqueue_plan sn s userID cmds = PlanWorkers n payloads"
    and "run 0 = eq_init n payloads"
    and "\<And>i. eq_step n (run i) (run (Suc i)) \<or> (\<nexists>u. eq_step n (run i) u) \<and> run (Suc i) = run i"
  shows "\<exists>i \<le> 4 * length payloads + n + 2. eq_final (run i)"
proof -
  have "0 < n" using enqueue_plan_workers [OF assms(1)] by simp
  then show ?thesis
    using eq_live.reaches_final [of n payloads run] assms(2,3) eq_ok_init eq_weight_init by simp
qed

theorem enqueue_returns_witness:
  "\<exists>run :: nat \<Rightarrow> eq_state. run 0 = eq_init 2 [''a'', ''b''] \<and> (\<exists>i \<le> 12. eq_final (run i))"
proof -
  let ?run = "some_run (eq_step 2) (eq_init 2 [''a'', ''b''])"
  have "\<exists>i \<le> 4 * length [''a'', ''b''] + 2 + 2. eq_final (?run i)"
    by (rule enqueue_returns [OF sample_plan]) (simp, rule some_run_steps)
  then show ?thesis by (intro exI [of _ ?run]) simp
qed

text \<open>C20. No goroutine of \<open>EnqueueCommands\<close> is blocked for ever: until it returns, some step other than
  the cancellation of the request is possible.\<close>

theorem enqueue_no_deadlock:
  assumes "enqueue_plan sn s userID cmds = PlanWorkers n payloads"
    and "(eq_step n)\<^sup>*\<^sup>* (eq_init n payloads) t" "\<not> eq_final t"
  shows "\<exists>u. eq_step n t u \<and> eq_parentErr u = eq_parentErr t"
proof -
  have "0 < n" using enqueue_plan_workers [OF assms(1)] by simp
  then have "eq_ok n payloads t" using eq_live.reach_inv [OF assms(2)] eq_ok_init by blast
  with assms(3) eq_progress show ?thesis by (auto simp: eq_ok_def)
qed

theorem enqueue_no_deadlock_witness:
  "\<exists>u. eq_step 2 (eq_init 2 [''a'', ''b'']) u \<and> eq_parentErr u = None"
  using enqueue_no_deadlock [OF sample_plan rtranclp.rtrancl_refl] by (simp add: eq_final_def eq_init_def)

text \<open>C21. With a concurrency of one the messages are sent in order: the queue receives a prefix of them,
  and all of them when there is no error.\<close>

theorem enqueue_sequential_prefix:
  assumes "queue_store q messages" "enqueue_seq q payloads w = (r, w')"
  shows "\<exists>k \<le> length payloads. messages w' = messages w @ take k payloads \<and> (r = None \<longrightarrow> k = length payloads)"
  using queue_store.enqueue_seq_messages [OF assms] .

theorem enqueue_sequential_prefix_witness:
  "\<exists>k \<le> 3. fst (snd (enqueue_seq scripted_queue [''a'', ''b'', ''c''] ([], [None, Some (ErrExternal ''down'')]))) =
     take k [''a'', ''b'', ''c'']"
  using enqueue_sequential_prefix [OF scripted.queue_store_axioms, of "[''a'', ''b'', ''c'']"
      "([], [None, Some (ErrExternal ''down'')])"]
  by (force simp: scripted_queue_def numeral_3_eq_3)

section \<open>The command sender\<close>

text \<open>C22. Whatever the number of processors and the configured concurrency, also when the products
  overflow, the automatic sizes of the pool stay between their bounds, and the buffer holds 128 jobs
  per worker.\<close>

theorem pool_sizes_bounded:
  "\<exists>w b. computeWorkerDefaults qc cpu = (w, b) \<and> 32 \<le> w \<and> w \<le> 192 \<and> b = 128 * w \<and> 4096 \<le> b \<and> b \<le> 65536"
  using computeWorkerDefaults_bounds [of qc cpu] by (cases "computeWorkerDefaults qc cpu") (auto simp: pool_consts)



text \<open>C24. The pool loses and duplicates no job: in every reachable state the accepted jobs are, in
  order, those that were started followed by those that wait in the buffer; those that were started
  are finished or with a worker; and the buffer never holds more than its capacity.\<close>

theorem pool_keeps_jobs:
  assumes "pool_step\<^sup>*\<^sup>* (pool_init n cap) s"
  shows "pl_accepted s = pl_started s @ jc_buf (pl_chan s) \<and>
    mset (pl_started s) = mset (map fst (pl_finished s)) + sum_list (map busy_jobs (pl_workers s)) \<and>
    length (jc_buf (pl_chan s)) \<le> jc_cap (pl_chan s)"
  using pool_guarded.reach_inv [OF assms pool_inv_init] by (simp add: pool_inv_def)

theorem pool_keeps_jobs_witness:
  "pool_step\<^sup>*\<^sup>* (pool_init 1 2) sample_pool \<and> pl_accepted sample_pool = pl_started sample_pool @ [sample_job ''u2'']"
  using pool_keeps_jobs [OF sample_pool_run] sample_pool_run by (simp add: sample_pool_def pool_init_def)

text \<open>C25. Shutting down drains the pool: once the channel of a reachable state is closed, an execution
  that goes on as long as it can reaches a state in which all workers have returned, and then every
  accepted job has been finished exactly once.\<close>

theorem shutdown_drains:
  assumes "pool_step\<^sup>*\<^sup>* (pool_init n cap) s" "jc_closed (pl_chan s)" "0 < length (pl_workers s)"
    and "run 0 = s"
    and "\<And>i. drain_step (run i) (run (Suc i)) \<or> (\<nexists>u. drain_step (run i) u) \<and> run (Suc i) = run i"
  shows "\<exists>i \<le> pool_weight s. workers_returned (run i) \<and>
    mset (map fst (pl_finished (run i))) = mset (pl_accepted s)"
proof -
  have s: "draining (length (pl_workers s)) (pl_accepted s) (run 0)"
    using pool_guarded.reach_inv [OF assms(1) pool_inv_init] assms(2,4) by (simp add: draining_def)
  then obtain i where i: "i \<le> pool_weight s" "workers_returned (run i)"
    using drain.reaches_final [OF s assms(5)] assms(4) by auto
  have "draining (length (pl_workers s)) (pl_accepted s) (run i)" for i
    by (induction i) (use s assms(5) drain.step_inv in \<open>simp, metis\<close>)
  with drained [OF _ i(2) assms(3)] i show ?thesis by blast
qed

theorem shutdown_drains_witness:
  "\<exists>i. workers_returned (some_run drain_step (sample_pool\<lparr>pl_chan := (pl_chan sample_pool)\<lparr>jc_closed := True\<rparr>\<rparr>) i) \<and>
     mset (map fst (pl_finished (some_run drain_step (sample_pool\<lparr>pl_chan := (pl_chan sample_pool)\<lparr>jc_closed := True\<rparr>\<rparr>) i)))
     = mset [sample_job ''u1'', sample_job ''u2'']"
proof -
  let ?s = "sample_pool\<lparr>pl_chan := (pl_chan sample_pool)\<lparr>jc_closed := True\<rparr>\<rparr>"
  have "pool_step sample_pool ?s" using pool_close [of sample_pool] by (simp add: sample_pool_def)
  with sample_pool_run have "pool_step\<^sup>*\<^sup>* (pool_init 1 2) ?s" by simp
  from shutdown_drains [OF this, of "some_run drain_step ?s"] some_run_steps [of drain_step ?s]
  have "\<exists>i \<le> pool_weight ?s. workers_returned (some_run drain_step ?s i) \<and>
      mset (map fst (pl_finished (some_run drain_step ?s i))) = mset (pl_accepted ?s)"
    by (simp del: some_run.simps(2)) (simp add: sample_pool_def del: some_run.simps(2))
  then show ?thesis by (auto simp: sample_pool_def)
qed

text \<open>C26. A timer from the pool never carries the tick of its previous user: releasing a timer that has
  fired or not, drained or not, leaves only stopped timers with empty channels.\<close>

theorem recycled_timers_clean:
  assumes "timers_clean pool" "acquireTimer pick pool = (t, pool')"
  shows "tm_running t \<and> \<not> tm_tick t \<and> timers_clean (releaseTimer t pool') \<and>
    timers_clean (releaseTimer (timer_fire t) pool') \<and>
    timers_clean (releaseTimer ((timer_fire t)\<lparr>tm_tick := False\<rparr>) pool')"
  using acquireTimer_clean [OF assms]
  by (auto intro!: releaseTimer_clean simp: timer_sane_def timer_fire_def)

theorem recycled_timers_clean_witness:
  "\<not> tm_tick (fst (acquireTimer (Some 0) [new_timer])) \<and>
   timers_clean (releaseTimer (timer_fire (fst (acquireTimer (Some 0) [new_timer]))) [])"
proof -
  have "timers_clean [new_timer]" by code_simp
  from recycled_timers_clean [OF this, of "Some 0"] show ?thesis by (simp add: acquireTimer_def)
qed

section \<open>Authentication\<close>





section \<open>Observability\<close>

text \<open>C29. A request for tasks ends its span exactly once, with the error status exactly when the request
  failed or was answered with a status of 400 or more; calling \<open>Log\<close> again makes no further calls.\<close>

theorem span_ended_once:
  assumes "tm_span m = Some sc" "Log env numCPU elapsed now status err m q = (m', q', calls, direct)"
  shows "filter (\<lambda>c. \<exists>t. c = SpanEnd t) calls = [SpanEnd now] \<and> last calls = SpanEnd now \<and>
    ((\<exists>msg. SpanSetStatus StatusError msg \<in> set calls) \<longleftrightarrow> err \<noteq> None \<or> 400 \<le> status) \<and>
    (\<exists>m2 q2 d2. Log env numCPU elapsed2 now2 status2 err2 m' q' = (m2, q2, [], d2))"
proof -
  have calls: "calls = span_calls (log_record m status err elapsed) status err now" and none: "tm_span m' = None"
    using assms by (auto simp: Log_def Let_def split: prod.splits if_splits)
  obtain st n where sev: "severityForStatus status err = (st, n)" by fastforce
  then have n: "n \<ge> 17 \<longleftrightarrow> err \<noteq> None \<or> 500 \<le> status"
    by (auto simp: severityForStatus_def Let_def split: if_splits)
  have "\<exists>m2 q2 d2. Log env numCPU elapsed2 now2 status2 err2 m' q' = (m2, q2, [], d2)"
    using none by (simp add: Log_def Let_def split: prod.splits)
  with n show ?thesis unfolding calls span_calls_def sev by (cases err) (auto simp: Let_def)
qed

theorem span_ended_once_witness:
  "\<exists>m' q' calls direct. Log Map.empty 4 7 1007 401 None (fst (newTaskRequestMetrics True 1000 \<lparr>sc_TraceID = ''t'', sc_SpanID = ''s''\<rparr>)) None
     = (m', q', calls, direct) \<and> last calls = SpanEnd 1007 \<and> (\<exists>msg. SpanSetStatus StatusError msg \<in> set calls)"
proof -
  let ?m = "fst (newTaskRequestMetrics True 1000 \<lparr>sc_TraceID = ''t'', sc_SpanID = ''s''\<rparr>)"
  have m: "tm_span ?m = Some \<lparr>sc_TraceID = ''t'', sc_SpanID = ''s''\<rparr>" by (simp add: newTaskRequestMetrics_def)
  obtain m' q' calls direct where l: "Log Map.empty 4 7 1007 401 None ?m None = (m', q', calls, direct)" by (metis surj_pair)
  from span_ended_once [OF m l, of 0 0 0 None] l show ?thesis by auto
qed

section \<open>Handlers\<close>





text \<open>C32. \<open>POST /api/commands\<close> answers 202 only when the commands are on their way: the job has been put
  at the end of the channel of the sender, or the storage has taken the commands. Otherwise it
  answers 500.\<close>

theorem postCommands_accepted:
  assumes "auth (ec_Authorization c) w = (Inr u, w1)" "decode (take postCommandMaxSize (ec_Body c)) = Inr cmds"
    and "finalizeCommands (\<lambda>n. nextTimestampRange n now) cmds (pk_lastTimestamp pk) = ((cmds', keys), ts)"
    and "postCommands decode marshal now wait store auth c pk w = (r, pk', w')"
  shows "(\<exists>ch. pk_jobs pk' = Some ch \<and> jc_buf ch \<noteq> [] \<and> last (jc_buf ch) = \<lparr>ej_userID = u, ej_cmds = cmds'\<rparr> \<and>
      (r, w') = respondJSON marshal c 202 \<lparr>pr_IdempotencyKeys = keys, pr_Error = ''''\<rparr> w1) \<or>
    (\<exists>w2. if_EnqueueCommands store u cmds' w1 = (None, w2) \<and>
      (r, w') = respondJSON marshal c 202 \<lparr>pr_IdempotencyKeys = keys, pr_Error = ''''\<rparr> w2) \<or>
    (\<exists>e w2. if_EnqueueCommands store u cmds' w1 = (Some e, w2) \<and>
      (r, w') = ec_send c (ReplyString 500 ''failed to enqueue commands'') w2)"
  using assms
  by (auto simp: postCommands_def tryEnqueueJob_def trySendNonBlocking_def sendWithTimer_def Let_def
      split: prod.splits option.splits if_splits send_event.splits)

theorem postCommands_accepted_witness:
  "\<exists>r pk' w' ch. postCommands (\<lambda>b. Inr [sample_command]) (\<lambda>p. Inl ErrJson) 1000 TimerFired sample_store sample_authn
      (sample_ctx ''Bearer h.c.s'' ''[]'') sample_pkg [] = (r, pk', w') \<and> pk_jobs pk' = Some ch \<and> ej_userID (last (jc_buf ch)) = ''u1''"
proof -
  let ?c = "sample_ctx ''Bearer h.c.s'' ''[]''"
  obtain r pk' w' where p: "postCommands (\<lambda>b. Inr [sample_command]) (\<lambda>p. Inl ErrJson) 1000 TimerFired sample_store
      sample_authn ?c sample_pkg [] = (r, pk', w')" by (metis surj_pair)
  obtain cs keys ts where f: "finalizeCommands (\<lambda>n. nextTimestampRange n 1000) [sample_command] (pk_lastTimestamp sample_pkg)
      = ((cs, keys), ts)" by (metis surj_pair)
  have a: "sample_authn (ec_Authorization ?c) [] = (Inr ''u1'', [])" by (simp add: sample_ctx_def sample_authn_ok)
  from postCommands_accepted [OF a _ f p] p f show ?thesis
    by (auto simp: postCommands_def a tryEnqueueJob_def trySendNonBlocking_def sample_pkg_def Let_def split: prod.splits)
qed

section \<open>Streaming updates\<close>

text \<open>C33. For every task event that the read model takes, the stream service pushes to the user of the
  event one task with the key of the stored task, and every value in it that is not empty (or zero)
  is the value of the stored task.\<close>

theorem stream_push_agrees:
  assumes "unmarshal_text decode_event p = Inr ev" "ev_EntityType ev = ''task''"
    and "task_effect ev old = Inr e" "\<And>o'. old = Some o' \<Longrightarrow> te_RowKey o' = ev_EntityID ev"
  shows "\<exists>t. handle_update p = Some (ev_UserID ev, json_print (JObj [(''entityType'', JStr ''task''),
        (''data'', JArr [JObj (stream_task_members t)])])) \<and> sk_ID t = te_RowKey e \<and>
    (sk_Title t \<noteq> '''' \<longrightarrow> sk_Title t = te_Title e) \<and> (sk_Notes t \<noteq> '''' \<longrightarrow> sk_Notes t = te_Notes e) \<and>
    (sk_Category t \<noteq> '''' \<longrightarrow> sk_Category t = te_Category e) \<and> (sk_Order t \<noteq> 0 \<longrightarrow> sk_Order t = te_Order e) \<and>
    (\<forall>b. sk_Done t = Some b \<longrightarrow> b = te_Done e)"
proof -
  obtain t where t: "event_task (stream_view ev) = Some t" "sk_ID t = te_RowKey e"
    "sk_Title t \<noteq> '''' \<longrightarrow> sk_Title t = te_Title e" "sk_Notes t \<noteq> '''' \<longrightarrow> sk_Notes t = te_Notes e"
    "sk_Category t \<noteq> '''' \<longrightarrow> sk_Category t = te_Category e" "sk_Order t \<noteq> 0 \<longrightarrow> sk_Order t = te_Order e"
    "\<forall>b. sk_Done t = Some b \<longrightarrow> b = te_Done e"
    by (rule event_push [OF assms(3,4)]) auto
  moreover have "event_data (stream_view ev) = Some (JArr [JObj (stream_task_members t)])"
    using t(1) assms(2) by (simp add: event_data_def) (simp add: stream_view_def)
  ultimately show ?thesis
    using handle_update_event [OF assms(1)] assms(2) by (auto simp del: json_print.simps)
qed

theorem stream_push_agrees_witness:
  "\<exists>t. sk_ID t = ''t1'' \<and> handle_update sample_message = Some (''u1'', json_print (JObj [(''entityType'', JStr ''task''),
     (''data'', JArr [JObj (stream_task_members t)])]))"
proof -
  have "ev_EntityType sample_created = ''task''" "ev_UserID sample_created = ''u1''" "te_RowKey sample_task = ''t1''"
    by (simp_all add: sample_created_def sample_task_def)
  with stream_push_agrees [OF sample_message_event _ sample_effects(1)] show ?thesis
    by (metis option.distinct(1))
qed

text \<open>C34. Completing or reopening a task leaves its order alone in the read model, but the pushed task
  contains the order 0.\<close>

theorem completion_pushes_zero_order:
  assumes "ev_Type ev = TaskCompleted \<or> ev_Type ev = TaskReopened" "task_effect ev (Some old) = Inr e"
  shows "te_Order e = te_Order old \<and>
    (\<exists>t. event_task (stream_view ev) = Some t \<and> (''order'', JInt 0) \<in> set (stream_task_members t))"
  using done_push_order [OF assms] by metis

theorem completion_pushes_zero_order_witness:
  "te_Order sample_task = 3 \<and>
   (\<exists>t. event_task (stream_view sample_completed) = Some t \<and> (''order'', JInt 0) \<in> set (stream_task_members t))"
proof -
  obtain e where "task_effect sample_completed (Some sample_task) = Inr e" using sample_effects(2) ..
  with completion_pushes_zero_order [of sample_completed sample_task e] show ?thesis
    by (simp add: sample_completed_def sample_task_def)
qed



text \<open>C36. The registry holds exactly the open connections of each user: it has no entry for a user
  without one, and no connection stays behind when its handler returns.\<close>

theorem registry_exact:
  assumes "hub_step\<^sup>*\<^sup>* hub_init s"
  shows "(\<forall>ch. ch \<in> set (channels (hb_clients s) u) \<longleftrightarrow> hb_live s ch \<and> hb_user s ch = u) \<and>
    distinct (channels (hb_clients s) u) \<and> (hb_clients s u = None \<longleftrightarrow> \<not> (\<exists>ch. hb_live s ch \<and> hb_user s ch = u))"
proof -
  have r: "registry_ok s" using hub_guarded.reach_inv [OF assms hub_inv_init] by (simp add: hub_inv_def)
  then have m: "ch \<in> set (channels (hb_clients s) u) \<longleftrightarrow> hb_live s ch \<and> hb_user s ch = u"
    and d: "distinct (channels (hb_clients s) u)" and n: "hb_clients s u \<noteq> Some []" for ch
    by (simp_all add: registry_ok_def)
  from n have "hb_clients s u = None \<longleftrightarrow> set (channels (hb_clients s) u) = {}"
    by (cases "hb_clients s u") (auto simp: channels_def)
  also have "\<dots> \<longleftrightarrow> \<not> (\<exists>ch. hb_live s ch \<and> hb_user s ch = u)"
    unfolding m [symmetric] ex_in_conv not_not ..
  finally show ?thesis using m d by simp
qed

theorem registry_exact_witness:
  "0 \<in> set (channels (hb_clients sample_hub) ''u1'') \<and> hb_clients sample_hub ''u2'' = None"
  using registry_exact [OF sample_hub_run, of "''u1''"] registry_exact [OF sample_hub_run, of "''u2''"]
  by (simp add: sample_hub_def hub_broadcast_def hub_connect_def hub_init_def Let_def)

section \<open>Deployment and configuration\<close>

text \<open>C37. When the job that prepares the storage account succeeds, all configured tables and queues
  exist, whether or not they existed before.\<close>

theorem storage_init_creates:
  assumes "account svc tables ''TableAlreadyExists''" "newService conn = Inr svc"
    and "account (queue_creation newQueue conn) queues ''QueueAlreadyExists''"
    and "\<And>n e. newQueue conn n = Inl e \<Longrightarrow> \<not> has_code ''QueueAlreadyExists'' e"
    and "\<And>n v. tables v \<subseteq> tables (snd (queue_creation newQueue conn n v))"
    and "getenv env ''STORAGE_CONNECTION_STRING'' = conn" "storage_init_main newService newQueue env w = (None, w')"
  shows "getenv env ` {''TASK_EVENTS_TABLE'', ''USER_EVENTS_TABLE'', ''TASKS_TABLE'', ''USERS_TABLE'', ''SETTINGS_TABLE''}
      - {''''} \<subseteq> tables w' \<and>
    getenv env ` {''COMMAND_QUEUE'', ''DOMAIN_EVENTS_QUEUE''} - {''''} \<subseteq> queues w'"
proof -
  let ?ts = "map (getenv env) [''TASK_EVENTS_TABLE'', ''USER_EVENTS_TABLE'', ''TASKS_TABLE'', ''USERS_TABLE'', ''SETTINGS_TABLE'']"
  let ?qs = "map (getenv env) [''COMMAND_QUEUE'', ''DOMAIN_EVENTS_QUEUE'']"
  obtain r1 w1 where c: "create_loop ''TableAlreadyExists'' svc ?ts w = (r1, w1)" by fastforce
  have w1: "create_loop ''TableAlreadyExists'' svc ?ts w = (None, w1)"
    and w': "create_loop ''QueueAlreadyExists'' (queue_creation newQueue conn) ?qs w1 = (None, w')"
    using assms(2,6,7) c unfolding storage_init_main_def createTables_def create_tables_loop_eq
    by (cases r1; simp add: Let_def createQueues_eq [OF assms(4)] split: if_splits del: create_loop.simps list.map)+
  have "set ?ts - {''''} \<subseteq> tables w1" using account.create_loop_exists [OF assms(1) w1] by blast
  moreover have "tables w1 \<subseteq> tables w'"
    using create_loop_keeps [of tables "queue_creation newQueue conn" w1, OF assms(5)] w' by (metis snd_conv)
  moreover have "set ?qs - {''''} \<subseteq> queues w'" using account.create_loop_exists [OF assms(3) w'] by blast
  ultimately show ?thesis by auto
qed

theorem storage_init_creates_witness:
  "\<exists>w'. storage_init_main (\<lambda>c. Inr account_table) (\<lambda>c n. Inr (account_queue n)) (sample_env ''10'') ([''users''], []) = (None, w') \<and>
     ''tasks'' \<in> set (fst w') \<and> ''commands'' \<in> set (snd w')"
proof -
  let ?r = "storage_init_main (\<lambda>c. Inr account_table) (\<lambda>c n. Inr (account_queue n)) (sample_env ''10'') ([''users''], [])"
  have "fst ?r = None" by code_simp
  then have r: "?r = (None, snd ?r)" by (simp add: prod_eq_iff)
  have "getenv (sample_env ''10'') ''TASKS_TABLE'' = ''tasks''" "getenv (sample_env ''10'') ''COMMAND_QUEUE'' = ''commands''"
    by code_simp+
  moreover have "set (fst v) \<subseteq> set (fst (snd (queue_creation (\<lambda>c n. Inr (account_queue n)) c n v)))" for c n v
    by (simp add: queue_creation_def account_queue_def split: prod.splits)
  ultimately show ?thesis
    using storage_init_creates [of account_table "\<lambda>w. set (fst w)" "\<lambda>c. Inr account_table"
        "getenv (sample_env ''10'') ''STORAGE_CONNECTION_STRING''" "\<lambda>c n. Inr (account_queue n)" "\<lambda>w. set (snd w)"
        "sample_env ''10''" "([''users''], [])" "snd ?r"]
      account_tables.account_axioms account_queues.account_axioms r
    by (intro exI [of _ "snd ?r"]) (simp add: account_queue_creation, blast)
qed

text \<open>C38. Started with the same environment, prism-api and the read-model updater use the same page
  size, if it is at most 1000.\<close>

theorem page_sizes_agree:
  assumes "api_config_of parseURL numCPU env = Inr cfg" "ap_taskPageSize cfg \<le> 1000"
    and "api_storage_of newClient newService newQueue cfg = Inr s"
    and "rmu_main fl parseURL newEventQueue newService env = Inr (st, rcfg)"
  shows "sa_taskPageSize s = cu_tasksPerPage (rmu_updater_of newClient now st rcfg)"
  using api_page_size [OF assms(1,3)] rmu_page_size [OF assms(1,4), of newClient now st] assms(2) by simp

theorem page_sizes_agree_witness:
  "\<exists>s st rcfg cfg. api_config_of no_url 4 (sample_env ''25'') = Inr cfg \<and>
     api_storage_of (\<lambda>_. ref_rc) sample_service sample_queues cfg = Inr s \<and>
     rmu_main no_float no_url sample_event_queues sample_service (sample_env ''25'') = Inr (st, rcfg) \<and>
     sa_taskPageSize s = cu_tasksPerPage (rmu_updater_of (\<lambda>_. ref_rc) ref_now st rcfg)"
proof -
  obtain cfg where cfg: "api_config_of no_url 4 (sample_env ''25'') = Inr cfg" "ap_taskPageSize cfg = 25"
    using sample_configs(1) by (cases "api_config_of no_url 4 (sample_env ''25'')") auto
  moreover obtain st rcfg where rmu: "rmu_main no_float no_url sample_event_queues sample_service (sample_env ''25'') = Inr (st, rcfg)"
    using sample_configs(3) by (cases "rmu_main no_float no_url sample_event_queues sample_service (sample_env ''25'')") auto
  moreover obtain s where "api_storage_of (\<lambda>_. ref_rc) sample_service sample_queues cfg = Inr s"
    using sample_storage [of cfg] cfg(2) by auto
  ultimately show ?thesis using page_sizes_agree [OF cfg(1) _ _ rmu] by fastforce
qed

text \<open>C39. Started with the same settings of the authentication, prism-api and the stream service give a
  request the same user: whatever header prism-api accepts, the stream service accepts.\<close>

theorem services_accept_same_users:
  assumes "api_main sn fl std new parseURL newClient newService newQueue jwksGet numCPU env w = (Inr svc, w')"
    and "stream_main parseURL' jwksGet bcast msgs env' = Inr (ro, a, subs, srv)"
    and "\<And>k. k \<in> set auth_variables \<Longrightarrow> env' k = env k"
    and "UserIDFromAuthHeader lib (as_Auth svc) now h = Inr u"
  shows "stream_UserIDFromAuthHeader lib a now h = Inr u"
proof -
  from assms(1) obtain "service_auth NewAuth jwksGet env = Inr (as_Auth svc)" by (rule api_main_parts)
  with assms(2) service_auth_same [of env' env jwksGet, OF assms(3)] have "a = as_Auth svc"
    by (auto simp: stream_main_def split: sum.splits prod.splits)
  with stream_accepts_api [OF assms(4)] show ?thesis by simp
qed

theorem services_accept_same_users_witness:
  "\<exists>svc w' ro a subs srv. sample_start = (Inr svc, w') \<and> sample_stream_start = Inr (ro, a, subs, srv) \<and>
     stream_UserIDFromAuthHeader sample_jwt a (900 * second) ''Bearer h.c.s'' = Inr ''u1''"
proof -
  obtain svc w' where api: "sample_start = (Inr svc, w')" by (rule sample_started)
  obtain ro a subs srv where str: "sample_stream_start = Inr (ro, a, subs, srv)" by (rule sample_stream_started)
  have "UserIDFromAuthHeader sample_jwt (as_Auth svc) (900 * second) ''Bearer h.c.s'' = Inr ''u1''"
    using sample_start_accepts [unfolded api] by (simp only: fst_conv sum.case)
  from services_accept_same_users [OF api [unfolded sample_start_def] str [unfolded sample_stream_start_def] _ this] api str
  show ?thesis by auto
qed



section \<open>Further facts\<close>

text \<open>Delivering an event twice applies it once: an event that has been applied is refused when it
  is applied again to the resulting table, and no task changes.\<close>

theorem task_redelivery_refused:
  assumes "azure_table (st_taskTable st) tbl issued tinv"
    and "tinv w" "task_table_ok (tbl w)" "event_ok ev"
    and "task_Apply (as_task_storage st) ev w = Some (None, w1)"
  shows "\<exists>err w2. task_Apply (as_task_storage st) ev w1 = Some (Some err, w2) \<and>
    task_view (tbl w2) = task_view (tbl w1)"
proof -
  from azure_task_Apply [OF assms(1-4)] assms(5)
  have w1: "tinv w1" "task_table_ok (tbl w1)" "task_outcome ev (task_view (tbl w)) None (task_view (tbl w1))"
    by (metis option.inject prod.inject)+
  then obtain e et where e: "task_effect ev (task_view (tbl w) (ev_key ev)) = Inr e"
    "task_view (tbl w1) (ev_key ev) = Some (e\<lparr>te_ETag := et\<rparr>)"
    by (auto simp: task_outcome_def)
  from task_effect_again [OF assms(4) e(1), of "e\<lparr>te_ETag := et\<rparr>"] e(2)
  obtain err where "task_effect ev (task_view (tbl w1) (ev_key ev)) = Inl err" by auto
  then show ?thesis
    by (rule_tac azure_task_Apply [OF assms(1) w1(1,2) assms(4)]) (auto simp: task_outcome_def split: option.splits)
qed

theorem task_redelivery_refused_witness:
  "\<exists>w1 err w2. task_Apply (as_task_storage ref_storage) sample_created empty_world = Some (None, w1) \<and>
    task_Apply (as_task_storage ref_storage) sample_created w1 = Some (Some err, w2) \<and>
    task_view (rt_tbl (rw_tasks w2)) = task_view (rt_tbl (rw_tasks w1))"
  using task_redelivery_refused [OF ref_tasks.azure, of empty_world sample_created applied_world] applied_world_eq
  by auto

text \<open>The handler of domain events answers 200 or 400. It answers 200 only for an event that
  decodes and was applied, and then the caches have been refreshed and the update published; after
  400 nothing has happened beyond what the refusing service did.\<close>

theorem update_handler_outcome:
  assumes "update_handler bnd h cache rc tc sc req w = Some ((status, body), w')"
  shows "status = 200 \<and> body = outputs_body \<and> (\<exists>raw ev w1. bnd req = Inr raw \<and>
      unmarshal_text decode_event (unquote_payload raw) = Inr ev \<and> h ev w = Some (None, w1) \<and>
      w' = after_apply cache rc tc sc ev (unquote_payload raw) w1) \<or>
    status = 400 \<and> body = '''' \<and> (w' = w \<or> (\<exists>raw ev e. bnd req = Inr raw \<and>
      unmarshal_text decode_event (unquote_payload raw) = Inr ev \<and> h ev w = Some (Some e, w')))"
  using assms
  by (auto simp: update_handler_def processEvent_def Let_def split: sum.splits option.splits prod.splits)

theorem update_handler_outcome_witness:
  "update_handler Inr (\<lambda>ev w. Some (None, w)) None ref_rc ''tasks'' ''settings'' ''nonsense'' empty_world
     = Some ((400, ''''), empty_world)"
proof -
  have "unmarshal_text decode_event (unquote_payload ''nonsense'') = Inl ErrJson" by code_simp
  with update_handler_outcome [of Inr "\<lambda>ev w. Some (None, w)" None ref_rc "''tasks''" "''settings''" "''nonsense''"
      empty_world 400 "''''" empty_world]
  show ?thesis by (simp add: update_handler_def Let_def)
qed

text \<open>The functions host may deliver the event text quoted once more: the handler then does
  exactly what it does for the event text itself.\<close>

theorem quoted_event_same:
  assumes "bnd q = Inr (json_print (JStr text))" "bnd r = Inr text" "json_parse text = Some (JObj ms)" "valid_utf8 text"
  shows "update_handler bnd h cache rc tc sc q w = update_handler bnd h cache rc tc sc r w"
  using assms unquote_quoted [OF assms(4)] unquote_object [OF assms(3)]
  by (simp add: update_handler_def del: json_print.simps)

theorem quoted_event_same_witness:
  "update_handler (\<lambda>b. Inr (if b then json_print (JStr ''{}'') else ''{}'')) (\<lambda>ev w. Some (None, w)) None ref_rc
     ''t'' ''s'' True empty_world =
   update_handler (\<lambda>b. Inr (if b then json_print (JStr ''{}'') else ''{}'')) (\<lambda>ev w. Some (None, w)) None ref_rc
     ''t'' ''s'' False empty_world"
proof (rule quoted_event_same)
  show "json_parse ''{}'' = Some (JObj [])" by code_simp
  show "valid_utf8 ''{}''" by code_simp
qed simp_all

text \<open>A Redis connection string in the format of Azure, which is no URL, gives its address, password
  and encryption.\<close>

theorem redis_connection_string:
  assumes "parseURL (addr @ '',password='' @ pw @ '',ssl=True'') = Inl e" "CHR '','' \<notin> set addr" "CHR '','' \<notin> set pw"
  shows "redis_options_of parseURL (addr @ '',password='' @ pw @ '',ssl=True'') =
    \<lparr>ro_Addr = addr, ro_Password = pw, ro_TLS = True\<rparr>"
  by (rule redis_azure_format [of parseURL addr pw e, OF assms])

theorem redis_connection_string_witness:
  "redis_options_of no_url (''host:6380'' @ '',password='' @ ''k=='' @ '',ssl=True'') =
    \<lparr>ro_Addr = ''host:6380'', ro_Password = ''k=='', ro_TLS = True\<rparr>"
  by (rule redis_connection_string [of no_url "''host:6380''" "''k==''" "ErrExternal ''no URL''"]) (auto simp: no_url_def)

text \<open>The first frames of a stream are not the cached tasks and settings: the keys that the handler
  reads differ from those under which the read-model updater stores the entries of the user.\<close>

theorem snapshot_keys_mismatch:
  "TasksKeyPrefix @ u \<noteq> cacheKey u tasksCachePrefix \<and> SettingsKeyPrefix @ u \<noteq> cacheKey u settingsCachePrefix"
  using snapshot_keys_differ by blast

text \<open>A request that prism-api accepts is accepted by the stream service, for the same user.\<close>

theorem stream_accepts_api_tokens:
  assumes "UserIDFromAuthHeader lib a now h = Inr u"
  shows "stream_UserIDFromAuthHeader lib a now h = Inr u"
  by (rule stream_accepts_api [OF assms])

theorem stream_accepts_api_tokens_witness:
  "stream_UserIDFromAuthHeader sample_jwt sample_auth (900 * second) ''Bearer h.c.s'' = Inr ''u1''"
  by (rule stream_accepts_api_tokens [OF sample_auth_ok])

text \<open>A client is registered only after its first frames have been read: an update that is broadcast
  in between is not in its channel.\<close>

theorem update_before_registration_missed:
  assumes "hub_step\<^sup>*\<^sup>* hub_init s" "s' = hub_connect u (hub_broadcast u m s)"
  shows "hb_live s' (hb_next s) \<and> hb_user s' (hb_next s) = u \<and> (u, m) \<in> set (hb_log s') \<and> hb_buf s' (hb_next s) = []"
proof -
  have "hub_inv s" using hub_guarded.reach_inv [OF assms(1) hub_inv_init] .
  then have "registry_ok s" "hb_buf s (hb_next s) = []" "\<not> hb_live s (hb_next s)"
    by (auto simp: hub_inv_def buffers_ok_def)
  then show ?thesis by (simp add: assms(2) hub_connect_def hub_broadcast_def broadcast_at Let_def)
qed

theorem update_before_registration_missed_witness:
  "hb_buf (hub_connect ''u1'' (hub_broadcast ''u1'' ''m'' hub_init)) 0 = []"
  using update_before_registration_missed [OF rtranclp.rtrancl_refl refl, of "''u1''" "''m''"]
  by (simp add: hub_init_def)

text \<open>The attributes of the span and the attributes of the log line are the same map, and no key
  occurs twice.\<close>

theorem attributes_agree:
  "map_of (keyValues r) = attributesMap r \<and> distinct (map fst (keyValues r))"
  using keyValues_attributesMap keyValues_keys_distinct by blast

text \<open>With a configured page size above 1000 prism-api never uses the cache: every entry that the
  updater of the same environment writes has another page size than the storage of the API.\<close>

theorem large_page_size_disables_cache:
  assumes "api_config_of parseURL numCPU env = Inr cfg" "1000 < ap_taskPageSize cfg" "ap_taskPageSize cfg < 2 ^ 31"
    and "api_storage_of newClient newService newQueue cfg = Inr s"
    and "rmu_main fl parseURL newEventQueue newService env = Inr (st, rcfg)"
    and "\<And>raw p. sn_cached_tasks sn raw = Inr p \<Longrightarrow> ac_PageSize p = cu_tasksPerPage (rmu_updater_of newClient now st rcfg)"
  shows "fst (loadTasksFromCache sn s userID w) = None"
proof -
  have "sa_taskPageSize s = 1000" using api_page_size [OF assms(1,4,3)] assms(2) by simp
  moreover have "sn_cached_tasks sn raw = Inr p \<Longrightarrow> 0 < ac_PageSize p \<and> i32 (ac_PageSize p) \<noteq> 1000" for raw p
    using rmu_page_size [OF assms(1,5,3), of newClient now st] assms(2,3,6) by (simp add: i32_id in_i32_def)
  ultimately show ?thesis
    by (auto simp: loadTasksFromCache_def split: option.splits redis_reply.splits sum.splits prod.splits)
qed

theorem large_page_size_disables_cache_witness:
  "\<exists>cfg s. api_config_of no_url 4 (sample_env ''2000'') = Inr cfg \<and> ap_taskPageSize cfg = 2000 \<and>
     fst (loadTasksFromCache (sample_sonic\<lparr>sn_cached_tasks := (\<lambda>t. Inr ((api_of_entry sample_entry 0)\<lparr>ac_PageSize := 2000\<rparr>))\<rparr>)
       s ''u1'' sample_world) = None"
proof -
  obtain cfg where cfg: "api_config_of no_url 4 (sample_env ''2000'') = Inr cfg" "ap_taskPageSize cfg = 2000"
    using sample_configs(2) by (cases "api_config_of no_url 4 (sample_env ''2000'')") auto
  obtain st rcfg where rmu: "rmu_main no_float no_url sample_event_queues sample_service (sample_env ''2000'') = Inr (st, rcfg)"
    using sample_configs(4) by (cases "rmu_main no_float no_url sample_event_queues sample_service (sample_env ''2000'')") auto
  obtain s where s: "api_storage_of (\<lambda>_. ref_rc) sample_service sample_queues cfg = Inr s"
    using sample_storage [of cfg] cfg(2) by auto
  have "cu_tasksPerPage (rmu_updater_of (\<lambda>_. ref_rc) ref_now st rcfg) = 2000"
    using rmu_page_size [OF cfg(1) rmu, of "\<lambda>_. ref_rc" ref_now st] cfg(2) by simp
  then have "fst (loadTasksFromCache (sample_sonic\<lparr>sn_cached_tasks :=
      (\<lambda>t. Inr ((api_of_entry sample_entry 0)\<lparr>ac_PageSize := 2000\<rparr>))\<rparr>) s ''u1'' sample_world) = None"
    by (intro large_page_size_disables_cache [OF cfg(1) _ _ s rmu, of _ ref_now]) (use cfg(2) in auto)
  with cfg show ?thesis by blast
qed

text \<open>A page that prism-api reads has between 1 and 1000 tasks, whatever the request and the default
  ask for, and the automatic concurrency of the command queue is between 8 and 64, also when the
  product overflows.\<close>

theorem api_limits:
  "1 \<le> resolveTaskPageSize r d \<and> resolveTaskPageSize r d \<le> 1000 \<and>
   8 \<le> queueConcurrencyForCPU n \<and> queueConcurrencyForCPU n \<le> 64"
  using resolveTaskPageSize_bounds [of r d] queueConcurrencyForCPU_bounds [of n]
  by (simp add: maxTaskPageSize_def defaultQueueConcurrency_def maxQueueConcurrency_def)

end
